theory Spec2Isabelle
  imports Main "HOL-Library.Word"
begin

section \<open>Shared vocabulary\<close>

text \<open>
  Identifiers of the protocol (event ids, room ids, user ids, device ids, URLs) are
  JavaScript strings.  A JavaScript exception is a value carrying the properties the
  code inspects: \<open>name\<close>, \<open>message\<close> and \<open>devices\<close> (an object from user id to an object
  keyed by device id; a missing \<open>devices\<close> property is the empty list, as
  \<open>error.devices || {}\<close>).
\<close>

type_synonym event_id = string
type_synonym room_id = string
type_synonym user_id = string
type_synonym device_id = string

record js_error =
  err_name :: string
  err_message :: string
  err_devices :: "(user_id \<times> device_id list) list"

text \<open>\<open>new Error(message)\<close>.\<close>

definition new_Error :: "string \<Rightarrow> js_error" where
  "new_Error msg = \<lparr>err_name = ''Error'', err_message = msg, err_devices = []\<rparr>"

text \<open>
  A JavaScript string is a sequence of UTF-16 code units.  Identifiers, which the code
  only compares and tests for emptiness, are kept as Isabelle strings; a text on which the
  code computes (\<open>trim\<close>, a regular expression) is a list of code units.  \<open>js\<close> gives
  the JavaScript string of a literal whose characters are all below U+0100.
\<close>

type_synonym code_unit = "16 word"
type_synonym js_string = "code_unit list"

definition js :: "string \<Rightarrow> js_string" where
  "js s = map (\<lambda>c. of_nat (of_char c)) s"

text \<open>
  \<open>String.prototype.trim\<close> removes, at both ends, the code units that are white space
  or line terminators: TAB, LF, VT, FF, CR, the space, U+00A0, U+1680, U+2000 to U+200A,
  U+2028, U+2029, U+202F, U+205F, U+3000 and U+FEFF.
\<close>

definition js_space :: "code_unit \<Rightarrow> bool" where
  "js_space c =
     (c \<in> set [0x09, 0x0A, 0x0B, 0x0C, 0x0D, 0x20, 0xA0, 0x1680, 0x2000, 0x2001, 0x2002,
                0x2003, 0x2004, 0x2005, 0x2006, 0x2007, 0x2008, 0x2009, 0x200A, 0x2028,
                0x2029, 0x202F, 0x205F, 0x3000, 0xFEFF])"

definition js_trim :: "js_string \<Rightarrow> js_string" where
  "js_trim s = rev (dropWhile js_space (rev (dropWhile js_space s)))"

section \<open>MatrixManager: sending and echo suppression (matrix.js)\<close>

text \<open>
  Calls made on the protocol client, in the order they are issued.
\<close>

datatype client_call =
    SendText room_id js_string
  | SetDeviceKnown user_id device_id
  | AckSweep room_id
  | RequestRoomKey event_id

text \<open>
  What \<open>client.sendTextMessage\<close> does: it resolves with a response whose \<open>event_id\<close>
  may be absent, or it rejects with an error.
\<close>

datatype send_outcome = SendOk "event_id option" | SendFail js_error

text \<open>
  The protocol client as the code sees it: the answer to the n-th \<open>sendTextMessage\<close> call
  (counted from 0) and the answer of \<open>setDeviceKnown\<close> (\<open>None\<close> resolves, \<open>Some e\<close>
  rejects with \<open>e\<close>).
\<close>

record client_env =
  sendTextMessage :: "nat \<Rightarrow> send_outcome"
  setDeviceKnown :: "user_id \<Rightarrow> device_id \<Rightarrow> js_error option"

text \<open>
  The fields of \<open>MatrixManager\<close> and of its surroundings that sending and the timeline
  handler touch.  \<open>timers\<close> holds the pending \<open>setTimeout\<close> callbacks, each with its due
  time in milliseconds and the event id it will delete from \<open>pendingEchos\<close>.
  \<open>uiCurrentRoom\<close> is \<open>window.MatrixApp.currentRoomId\<close> (\<open>None\<close> when \<open>window.MatrixApp\<close>
  is missing or no room is open); \<open>uiInserted\<close> lists the events handed to
  \<open>addMessageToUI\<close>; \<open>dmUpdated\<close> the calls of \<open>updateDMLastMessage\<close>.
\<close>

record manager =
  hasClient :: bool
  currentUserId :: user_id
  pendingEchos :: "event_id set"
  timers :: "(nat \<times> event_id) list"
  clock :: nat
  calls :: "client_call list"
  uiCurrentRoom :: "room_id option"
  uiInserted :: "event_id list"
  dmUpdated :: "(room_id \<times> event_id) list"

fun is_send :: "client_call \<Rightarrow> bool" where
  "is_send (SendText r b) = True"
| "is_send (SetDeviceKnown u d) = False"
| "is_send (AckSweep r) = False"
| "is_send (RequestRoomKey e) = False"

definition sends_made :: "manager \<Rightarrow> nat" where
  "sends_made s = length (filter is_send (calls s))"

text \<open>
  \<open>if (resp?.event_id) { pendingEchos.add(id); setTimeout(() => pendingEchos.delete(id), 5000) }\<close>
\<close>

definition register_echo :: "event_id option \<Rightarrow> manager \<Rightarrow> manager" where
  "register_echo resp s =
     (case resp of
        None \<Rightarrow> s
      | Some eid \<Rightarrow>
          if eid = [] then s
          else s\<lparr>pendingEchos := insert eid (pendingEchos s),
                 timers := timers s @ [(clock s + 5000, eid)]\<rparr>)"

definition do_send :: "client_env \<Rightarrow> room_id \<Rightarrow> js_string \<Rightarrow> manager \<Rightarrow> send_outcome \<times> manager" where
  "do_send env roomId body s =
     (sendTextMessage env (sends_made s), s\<lparr>calls := calls s @ [SendText roomId body]\<rparr>)"

text \<open>
  The two nested loops over \<open>Object.entries(error.devices)\<close> and \<open>Object.keys(devices)\<close>,
  flattened to the pairs they visit in order.  The first rejected \<open>setDeviceKnown\<close> leaves
  the loops.
\<close>

definition reported_devices :: "js_error \<Rightarrow> (user_id \<times> device_id) list" where
  "reported_devices e = concat (map (\<lambda>(u, ds). map (Pair u) ds) (err_devices e))"

fun ack_loop :: "client_env \<Rightarrow> (user_id \<times> device_id) list \<Rightarrow> manager \<Rightarrow> js_error option \<times> manager" where
  "ack_loop env [] s = (None, s)"
| "ack_loop env ((u, d) # ps) s =
     (let s' = s\<lparr>calls := calls s @ [SetDeviceKnown u d]\<rparr>
      in case setDeviceKnown env u d of
           Some e \<Rightarrow> (Some e, s')
         | None \<Rightarrow> ack_loop env ps s')"

text \<open>
  \<open>acknowledgeUnknownDevicesInRoom\<close> wraps its whole body in a \<open>try\<close> whose \<open>catch\<close> only
  logs, so it always resolves; only the fact that it ran is recorded.
\<close>

definition acknowledgeUnknownDevicesInRoom :: "room_id \<Rightarrow> manager \<Rightarrow> manager" where
  "acknowledgeUnknownDevicesInRoom roomId s = s\<lparr>calls := calls s @ [AckSweep roomId]\<rparr>"

text \<open>
  \<open>MatrixManager.sendMessage(roomId, message)\<close>.  The result is \<open>Inr ()\<close> when the promise
  resolves and \<open>Inl e\<close> when it rejects with \<open>e\<close>.  \<open>message\<close> is \<open>None\<close> for
  \<open>null\<close>/\<open>undefined\<close>.
\<close>

definition sendMessage ::
  "client_env \<Rightarrow> room_id \<Rightarrow> js_string option \<Rightarrow> manager \<Rightarrow> (js_error + unit) \<times> manager" where
  "sendMessage env roomId message s =
     (if \<not> hasClient s \<or> roomId = [] \<or> (case message of None \<Rightarrow> True | Some m \<Rightarrow> js_trim m = [])
      then (Inr (), s)
      else
        let body = js_trim (case message of None \<Rightarrow> [] | Some m \<Rightarrow> m);
            (r1, s1) = do_send env roomId body s
        in case r1 of
             SendOk resp \<Rightarrow> (Inr (), register_echo resp s1)
           | SendFail error \<Rightarrow>
               if err_name error = ''UnknownDeviceError'' then
                 (case ack_loop env (reported_devices error) s1 of
                    (Some e2, s2) \<Rightarrow> (Inl e2, s2)
                  | (None, s2) \<Rightarrow>
                      let s3 = acknowledgeUnknownDevicesInRoom roomId s2;
                          (r2, s4) = do_send env roomId body s3
                      in (case r2 of
                            SendOk resp \<Rightarrow> (Inr (), register_echo resp s4)
                          | SendFail e2 \<Rightarrow> (Inl e2, s4)))
               else (Inl error, s1))"

text \<open>
  The event loop running the timers that are due after \<open>ms\<close> more milliseconds: each due
  callback deletes its event id from \<open>pendingEchos\<close>.
\<close>

definition advance :: "nat \<Rightarrow> manager \<Rightarrow> manager" where
  "advance ms s =
     (let now = clock s + ms;
          due = filter (\<lambda>(t, e). t \<le> now) (timers s)
      in s\<lparr>clock := now,
            pendingEchos := pendingEchos s - set (map snd due),
            timers := filter (\<lambda>(t, e). \<not> t \<le> now) (timers s)\<rparr>)"

text \<open>The part of a timeline event and of its room that the handler reads.\<close>

record timeline_event =
  te_id :: event_id
  te_type :: string

text \<open>\<open>MatrixManager.handleRoomTimelineEvent(event, room)\<close>, with \<open>roomId = room.roomId\<close>.\<close>

definition handleRoomTimelineEvent :: "timeline_event \<Rightarrow> room_id \<Rightarrow> manager \<Rightarrow> manager" where
  "handleRoomTimelineEvent event roomId s =
     (if te_type event \<noteq> ''m.room.message'' \<and> te_type event \<noteq> ''m.room.encrypted'' then s
      else if te_id event \<in> pendingEchos s then s
      else
        let s1 = (if uiCurrentRoom s = Some roomId
                  then s\<lparr>uiInserted := uiInserted s @ [te_id event]\<rparr> else s)
        in s1\<lparr>dmUpdated := dmUpdated s1 @ [(roomId, te_id event)]\<rparr>)"

text \<open>Concrete values used to run the code.\<close>

definition mgr0 :: manager where
  "mgr0 = \<lparr>hasClient = True, currentUserId = ''@alice:hs'', pendingEchos = {}, timers = [],
           clock = 0, calls = [], uiCurrentRoom = Some ''!room'', uiInserted = [],
           dmUpdated = []\<rparr>"

definition env_ok :: client_env where
  "env_ok = \<lparr>sendTextMessage = (\<lambda>n. SendOk (Some ''$e1'')), setDeviceKnown = (\<lambda>u d. None)\<rparr>"

definition echo1 :: timeline_event where
  "echo1 = \<lparr>te_id = ''$e1'', te_type = ''m.room.message''\<rparr>"

definition unknown_device_error :: js_error where
  "unknown_device_error =
     \<lparr>err_name = ''UnknownDeviceError'', err_message = ''unknown devices'',
      err_devices = [(''@bob:hs'', [''DEV1''])]\<rparr>"

definition network_error :: js_error where
  "network_error = \<lparr>err_name = ''ConnectionError'', err_message = ''offline'', err_devices = []\<rparr>"

text \<open>A client whose every send fails on an unknown device and whose \<open>setDeviceKnown\<close> rejects.\<close>

definition env_ack_fails :: client_env where
  "env_ack_fails = \<lparr>sendTextMessage = (\<lambda>n. SendFail unknown_device_error),
                    setDeviceKnown = (\<lambda>u d. Some network_error)\<rparr>"

text \<open>A client whose first send fails on an unknown device and whose retry fails too.\<close>

definition env_retry_fails :: client_env where
  "env_retry_fails = \<lparr>sendTextMessage = (\<lambda>n. if n = 0 then SendFail unknown_device_error
                                               else SendFail network_error),
                      setDeviceKnown = (\<lambda>u d. None)\<rparr>"

text \<open>The manager right after a successful send whose response carries the id \<open>$e1\<close>.\<close>

definition mgr_sent :: manager where
  "mgr_sent = snd (sendMessage env_ok ''!room'' (Some (js ''hi'')) mgr0)"

section \<open>WebRTCManager: the call session (webrtc manager source)\<close>

text \<open>
  A media stream is the list of its tracks; a track is identified by a number.  A call
  object of the protocol client is identified by a number as well.
\<close>

type_synonym track = nat
type_synonym call_ref = nat

datatype media_stream = MediaStream (tracks: "track list")

text \<open>What the manager does to the outside world, in order.\<close>

datatype rtc_effect =
    GetUserMedia bool
  | CreateCall room_id
  | AttachHandlers call_ref
  | PlaceCall call_ref bool
  | AnswerCall call_ref bool
  | RejectCall call_ref
  | HangupCall call_ref
  | ShowDialog call_ref
  | UpdateCallUI bool bool
  | ShowCallError string

text \<open>
  The fields of \<open>WebRTCManager\<close>, the \<open>srcObject\<close> of the two video elements (the
  elements are taken to exist), the tracks on which \<open>stop()\<close> has been called, and the
  effects so far.
\<close>

record rtc =
  currentCall :: "call_ref option"
  localStream :: "media_stream option"
  remoteStream :: "media_stream option"
  isVideo :: bool
  isInCall :: bool
  localVideoSrc :: "media_stream option"
  remoteVideoSrc :: "media_stream option"
  stoppedTracks :: "track list"
  effects :: "rtc_effect list"

text \<open>
  What \<open>navigator.mediaDevices.getUserMedia\<close> answers: a stream, a falsy value, or a
  rejection.
\<close>

datatype media_outcome = MediaOk media_stream | MediaNull | MediaFail js_error

text \<open>
  The collaborators of the manager: media capture, the protocol client's \<open>createCall\<close>
  (which may return \<open>null\<close>), the methods of a call object (\<open>None\<close> returns normally,
  \<open>Some e\<close> throws \<open>e\<close>), and the user's answer to the incoming-call dialog.
\<close>

record rtc_env =
  getUserMediaResult :: "bool \<Rightarrow> media_outcome"
  createCallResult :: "room_id \<Rightarrow> call_ref option"
  placeCallResult :: "call_ref \<Rightarrow> js_error option"
  answerResult :: "call_ref \<Rightarrow> js_error option"
  rejectResult :: "call_ref \<Rightarrow> js_error option"
  hangupResult :: "call_ref \<Rightarrow> js_error option"
  dialogAccept :: "call_ref \<Rightarrow> bool"

text \<open>The incoming call object as \<open>handleIncomingCall\<close> reads it.\<close>

record incoming_call =
  call_id :: call_ref
  hasRemoteUserMediaVideoTrack :: bool
  call_type :: string

definition effect :: "rtc_effect \<Rightarrow> rtc \<Rightarrow> rtc" where
  "effect e s = s\<lparr>effects := effects s @ [e]\<rparr>"

text \<open>\<open>showCallError(message)\<close> shows a toast.\<close>

definition showCallError :: "string \<Rightarrow> rtc \<Rightarrow> rtc" where
  "showCallError msg s = effect (ShowCallError msg) s"

text \<open>
  \<open>getUserMedia(includeVideo)\<close>: on a rejection it shows a message chosen by the error's
  name and throws the error again.
\<close>

definition media_error_message :: "js_error \<Rightarrow> string" where
  "media_error_message e =
     (if err_name e = ''NotAllowedError''
        then ''Camera/microphone access denied. Please allow access and try again.''
      else if err_name e = ''NotFoundError''
        then ''No camera/microphone found. Please check your devices.''
      else if err_name e = ''NotReadableError''
        then ''Camera/microphone is already in use by another application.''
      else ''Failed to access camera/microphone'')"

definition getUserMedia :: "rtc_env \<Rightarrow> bool \<Rightarrow> rtc \<Rightarrow> (js_error + media_stream option) \<times> rtc" where
  "getUserMedia env includeVideo s =
     (let s1 = effect (GetUserMedia includeVideo) s
      in case getUserMediaResult env includeVideo of
           MediaOk stream \<Rightarrow> (Inr (Some stream), s1)
         | MediaNull \<Rightarrow> (Inr None, s1)
         | MediaFail e \<Rightarrow> (Inl e, showCallError (media_error_message e) s1))"

definition setupLocalVideo :: "rtc \<Rightarrow> rtc" where
  "setupLocalVideo s =
     (case localStream s of None \<Rightarrow> s | Some st \<Rightarrow> s\<lparr>localVideoSrc := Some st\<rparr>)"

definition setupRemoteVideo :: "rtc \<Rightarrow> rtc" where
  "setupRemoteVideo s =
     (case remoteStream s of None \<Rightarrow> s | Some st \<Rightarrow> s\<lparr>remoteVideoSrc := Some st\<rparr>)"

text \<open>
  \<open>cleanup()\<close>: stops every track of the local stream if there is one, clears the video
  elements and resets the fields.
\<close>

definition cleanup :: "rtc \<Rightarrow> rtc" where
  "cleanup s =
     (let s1 = (case localStream s of
                  None \<Rightarrow> s
                | Some st \<Rightarrow> s\<lparr>stoppedTracks := stoppedTracks s @ tracks st, localStream := None\<rparr>)
      in s1\<lparr>localVideoSrc := None, remoteVideoSrc := None,
             currentCall := None, remoteStream := None, isInCall := False, isVideo := False\<rparr>)"

text \<open>The \<open>catch\<close> block of \<open>makeCall\<close>.\<close>

definition makeCall_catch :: "js_error \<Rightarrow> rtc \<Rightarrow> bool \<times> rtc" where
  "makeCall_catch error s =
     (False, showCallError (''Failed to start call: '' @ err_message error) (cleanup s))"

text \<open>
  \<open>makeCall(roomId, isVideo)\<close> is suspended while the media are captured (the browser may
  ask the user), so it is given in two parts as well.  The first part is the guard and
  the assignment of \<open>isVideo\<close>; \<open>isInCall\<close> is set in the second part only, once the call
  object exists.
\<close>

datatype makeCall_outcome = ReturnedFalse | CapturingMedia

definition makeCall_begin :: "room_id \<Rightarrow> bool \<Rightarrow> rtc \<Rightarrow> makeCall_outcome \<times> rtc" where
  "makeCall_begin roomId isVid s =
     (if isInCall s then (ReturnedFalse, s) else (CapturingMedia, s\<lparr>isVideo := isVid\<rparr>))"

text \<open>
  The second part: media capture and everything after it; the result is the boolean the
  promise resolves with.
\<close>

definition makeCall_resume :: "rtc_env \<Rightarrow> room_id \<Rightarrow> bool \<Rightarrow> rtc \<Rightarrow> bool \<times> rtc" where
  "makeCall_resume env roomId isVid s =
     (case getUserMedia env isVid s of
        (Inl error, s2) \<Rightarrow> makeCall_catch error s2
      | (Inr None, s2) \<Rightarrow> makeCall_catch (new_Error ''Failed to get user media'') s2
      | (Inr (Some stream), s2) \<Rightarrow>
          (let s3 = s2\<lparr>localStream := Some stream\<rparr>;
               s4 = (if isVid then setupLocalVideo s3 else s3);
               s5 = effect (CreateCall roomId) s4
           in case createCallResult env roomId of
                None \<Rightarrow> makeCall_catch (new_Error ''Failed to create call'') s5
              | Some c \<Rightarrow>
                  (let s6 = s5\<lparr>currentCall := Some c, isInCall := True\<rparr>;
                       s7 = effect (AttachHandlers c) s6;
                       s8 = effect (UpdateCallUI True isVid) s7;
                       s9 = effect (PlaceCall c isVid) s8
                   in case placeCallResult env c of
                        Some error \<Rightarrow> makeCall_catch error s9
                      | None \<Rightarrow> (True, s9))))"

text \<open>\<open>makeCall(roomId, isVideo)\<close> when nothing else runs while the media are captured.\<close>

definition makeCall :: "rtc_env \<Rightarrow> room_id \<Rightarrow> bool \<Rightarrow> rtc \<Rightarrow> bool \<times> rtc" where
  "makeCall env roomId isVid s =
     (case makeCall_begin roomId isVid s of
        (ReturnedFalse, s1) \<Rightarrow> (False, s1)
      | (CapturingMedia, s1) \<Rightarrow> makeCall_resume env roomId isVid s1)"

text \<open>
  \<open>handleIncomingCall(call)\<close> is suspended while the incoming-call dialog is open, for up
  to thirty seconds, and other handlers run in the meantime; it is therefore given in two
  parts.  The first part runs up to the dialog: an incoming call while \<open>isInCall\<close> is set
  is rejected at once, any other opens a dialog.  Every exception inside the \<open>try\<close> block,
  the one of \<open>call.reject()\<close> included, ends in the \<open>catch\<close> block, which runs
  \<open>cleanup()\<close>.
\<close>

datatype incoming_outcome = Finished | DialogOpen

definition handleIncomingCall_begin ::
  "rtc_env \<Rightarrow> incoming_call \<Rightarrow> rtc \<Rightarrow> incoming_outcome \<times> rtc" where
  "handleIncomingCall_begin env call s =
     (let c = call_id call in
      if isInCall s then
        (let s1 = effect (RejectCall c) s
         in (Finished, case rejectResult env c of None \<Rightarrow> s1 | Some error \<Rightarrow> cleanup s1))
      else
        (DialogOpen, effect (ShowDialog c) (s\<lparr>isVideo := hasRemoteUserMediaVideoTrack call\<rparr>)))"

text \<open>
  The second part runs from the moment the dialog resolves with \<open>accept\<close>; \<open>isInCall\<close> is
  not looked at again.
\<close>

definition handleIncomingCall_resume :: "rtc_env \<Rightarrow> incoming_call \<Rightarrow> bool \<Rightarrow> rtc \<Rightarrow> rtc" where
  "handleIncomingCall_resume env call accept s =
     (let c = call_id call in
      if accept then
        (let s3 = s\<lparr>currentCall := Some c, isVideo := (call_type call = ''video''),
                      isInCall := True\<rparr>
         in case getUserMedia env (isVideo s3) s3 of
              (Inl error, s4) \<Rightarrow> cleanup s4
            | (Inr None, s4) \<Rightarrow> cleanup s4
            | (Inr (Some stream), s4) \<Rightarrow>
                (let s5 = s4\<lparr>localStream := Some stream\<rparr>;
                     s6 = (if isVideo s5 then setupLocalVideo s5 else s5);
                     s7 = effect (AttachHandlers c) s6;
                     s8 = effect (AnswerCall c (isVideo s7)) s7
                 in case answerResult env c of
                      Some error \<Rightarrow> cleanup s8
                    | None \<Rightarrow> effect (UpdateCallUI True (isVideo s8)) s8))
      else
        (let s3 = effect (RejectCall c) s
         in case rejectResult env c of None \<Rightarrow> s3 | Some error \<Rightarrow> cleanup s3))"

text \<open>\<open>handleIncomingCall(call)\<close> when nothing else runs while its dialog is open.\<close>

definition handleIncomingCall :: "rtc_env \<Rightarrow> incoming_call \<Rightarrow> rtc \<Rightarrow> rtc" where
  "handleIncomingCall env call s =
     (case handleIncomingCall_begin env call s of
        (Finished, s1) \<Rightarrow> s1
      | (DialogOpen, s1) \<Rightarrow> handleIncomingCall_resume env call (dialogAccept env (call_id call)) s1)"

text \<open>\<open>handleCallEnded\<close>, reached from the \<open>hangup\<close> event and from the state \<open>ended\<close>.\<close>

definition handleCallEnded :: "rtc \<Rightarrow> rtc" where
  "handleCallEnded s = effect (UpdateCallUI False False) (cleanup s)"

definition handleCallHangup :: "rtc \<Rightarrow> rtc" where
  "handleCallHangup s = handleCallEnded s"

definition handleCallStateChange :: "string \<Rightarrow> rtc \<Rightarrow> rtc" where
  "handleCallStateChange newState s = (if newState = ''ended'' then handleCallEnded s else s)"

text \<open>
  The events of a call object on which \<open>setupCallEventHandlers\<close> has registered handlers:
  \<open>feeds_changed\<close> (with the value of \<open>call.getRemoteFeeds()\<close> at that moment), \<open>state\<close>,
  \<open>hangup\<close> and \<open>error\<close>.
\<close>

datatype call_event =
    FeedsChanged "media_stream list"
  | StateEvent string
  | HangupEvent
  | ErrorEvent js_error

definition error_text :: "js_error \<Rightarrow> string" where
  "error_text err = (if err_message err = [] then ''Unknown error'' else err_message err)"

fun on_call_event :: "call_event \<Rightarrow> rtc \<Rightarrow> rtc" where
  "on_call_event (FeedsChanged remoteFeeds) s =
     (case remoteFeeds of
        [] \<Rightarrow> s
      | remoteFeed # _ \<Rightarrow> setupRemoteVideo (s\<lparr>remoteStream := Some remoteFeed\<rparr>))"
| "on_call_event (StateEvent state) s = handleCallStateChange state s"
| "on_call_event HangupEvent s = handleCallHangup s"
| "on_call_event (ErrorEvent err) s = showCallError (''Call error: '' @ error_text err) s"

text \<open>\<open>hangup()\<close>: both the normal path and the \<open>catch\<close> block run \<open>cleanup()\<close>.\<close>

definition hangup :: "rtc_env \<Rightarrow> rtc \<Rightarrow> rtc" where
  "hangup env s =
     (case currentCall s of
        None \<Rightarrow> cleanup s
      | Some c \<Rightarrow>
          (let s1 = effect (HangupCall c) s
           in case hangupResult env c of None \<Rightarrow> cleanup s1 | Some error \<Rightarrow> cleanup s1))"

text \<open>
  A session has released everything when no stream, no call and no video source is held
  and the manager is not in a call.
\<close>

definition released :: "rtc \<Rightarrow> bool" where
  "released s =
     (localStream s = None \<and> remoteStream s = None \<and> currentCall s = None \<and> \<not> isInCall s
      \<and> localVideoSrc s = None \<and> remoteVideoSrc s = None)"

text \<open>The tracks of the local stream held in a state.\<close>

definition local_tracks :: "rtc \<Rightarrow> track list" where
  "local_tracks s = (case localStream s of None \<Rightarrow> [] | Some st \<Rightarrow> tracks st)"

text \<open>Concrete values used to run the code.\<close>

definition rtc_idle :: rtc where
  "rtc_idle = \<lparr>currentCall = None, localStream = None, remoteStream = None, isVideo = False,
               isInCall = False, localVideoSrc = None, remoteVideoSrc = None,
               stoppedTracks = [], effects = []\<rparr>"

text \<open>A video call with call object 1 is up: local tracks 10 and 11, remote tracks 20 and 21.\<close>

definition rtc_busy :: rtc where
  "rtc_busy = \<lparr>currentCall = Some 1, localStream = Some (MediaStream [10, 11]),
               remoteStream = Some (MediaStream [20, 21]), isVideo = True, isInCall = True,
               localVideoSrc = Some (MediaStream [10, 11]),
               remoteVideoSrc = Some (MediaStream [20, 21]),
               stoppedTracks = [], effects = []\<rparr>"

text \<open>
  Collaborators that all work: capturing with video gives the tracks 30 and 31, capturing
  audio only gives the track 40; the user accepts every incoming call.
\<close>

definition rtc_env_ok :: rtc_env where
  "rtc_env_ok = \<lparr>getUserMediaResult = (\<lambda>v. MediaOk (MediaStream (if v then [30, 31] else [40]))),
                 createCallResult = (\<lambda>r. Some 3),
                 placeCallResult = (\<lambda>c. None), answerResult = (\<lambda>c. None),
                 rejectResult = (\<lambda>c. None), hangupResult = (\<lambda>c. None),
                 dialogAccept = (\<lambda>c. True)\<rparr>"

text \<open>The same collaborators, except that \<open>call.reject()\<close> throws.\<close>

definition rtc_env_reject_throws :: rtc_env where
  "rtc_env_reject_throws =
     rtc_env_ok\<lparr>rejectResult := (\<lambda>c. Some (new_Error ''Call must be in ringing state''))\<rparr>"

text \<open>Media capture works, but placing the call fails.\<close>

definition rtc_env_place_fails :: rtc_env where
  "rtc_env_place_fails = rtc_env_ok\<lparr>placeCallResult := (\<lambda>c. Some (new_Error ''no route''))\<rparr>"

text \<open>Media capture works, but answering the call fails.\<close>

definition rtc_env_answer_fails :: rtc_env where
  "rtc_env_answer_fails = rtc_env_ok\<lparr>answerResult := (\<lambda>c. Some (new_Error ''no route''))\<rparr>"

definition incoming2 :: incoming_call where
  "incoming2 = \<lparr>call_id = 2, hasRemoteUserMediaVideoTrack = False, call_type = ''voice''\<rparr>"

definition incoming4 :: incoming_call where
  "incoming4 = \<lparr>call_id = 4, hasRemoteUserMediaVideoTrack = True, call_type = ''video''\<rparr>"

text \<open>
  Two calls come in one after the other while the manager is idle: call 2 opens its
  dialog, call 4 arrives while that dialog is open, the user accepts call 4 and then
  accepts call 2 in the dialog that is still there.
\<close>

definition rtc_ringing2 :: rtc where
  "rtc_ringing2 = snd (handleIncomingCall_begin rtc_env_ok incoming2 rtc_idle)"

definition rtc_ringing24 :: rtc where
  "rtc_ringing24 = snd (handleIncomingCall_begin rtc_env_ok incoming4 rtc_ringing2)"

definition rtc_in_call4 :: rtc where
  "rtc_in_call4 = handleIncomingCall_resume rtc_env_ok incoming4 True rtc_ringing24"

definition rtc_both_answered :: rtc where
  "rtc_both_answered = handleIncomingCall_resume rtc_env_ok incoming2 True rtc_in_call4"

definition ice_error :: js_error where
  "ice_error = \<lparr>err_name = ''CallError'', err_message = ''ICE failed'', err_devices = []\<rparr>"

section \<open>MatrixManager: classifying events (matrix.js)\<close>

text \<open>
  The content of an event, as far as \<open>formatEventToMessage\<close> reads it.  An absent string
  property is the empty string where the code only tests it or falls back with \<open>||\<close>, and
  \<open>None\<close> where the code passes it on.  \<open>c_new_content\<close> is the body of \<open>m.new_content\<close>
  when that property is present.
\<close>

record content =
  c_msgtype :: string
  c_body :: string
  c_format :: string
  c_formatted_body :: "string option"
  c_rel_type :: string
  c_rel_event_id :: "event_id option"
  c_rel_key :: "string option"
  c_in_reply_to :: "event_id option"
  c_new_content :: "string option"
  c_url :: "string option"
  c_file :: "string option"
  c_geo_uri :: "string option"

text \<open>
  An event of the protocol client.  \<open>e_json\<close> is \<open>JSON.stringify\<close> of its content;
  \<open>e_unsigned_error\<close> is \<open>unsigned.decryption_error\<close>, \<open>e_failure_reason\<close> is
  \<open>decryptionFailureReason\<close>.
\<close>

record mx_event =
  e_id :: event_id
  e_type :: string
  e_sender :: user_id
  e_ts :: nat
  e_content :: content
  e_json :: string
  e_encrypted :: bool
  e_decryption_failure :: bool
  e_unsigned_error :: "string option"
  e_failure_reason :: "string option"

text \<open>A room: \<open>room.getMember(userId)?.rawDisplayName\<close>.\<close>

record room =
  r_id :: room_id
  rawDisplayName :: "user_id \<Rightarrow> string option"

datatype msg_kind =
  KError | KEdit | KText | KMedia | KLocation | KReaction | KCall | KSystem | KUnknown

text \<open>
  The message object returned by \<open>formatEventToMessage\<close>.  Properties that a kind does not
  set are \<open>None\<close>, the empty string or \<open>False\<close>.
\<close>

record message =
  m_eventId :: event_id
  m_kind :: msg_kind
  m_type :: string
  m_mediaType :: string
  m_content :: string
  m_html :: "string option"
  m_senderId :: user_id
  m_senderName :: string
  m_timestamp :: nat
  m_isOwn :: bool
  m_isDecryptionFailure :: bool
  m_targetEventId :: "event_id option"
  m_newBody :: "string option"
  m_key :: "string option"
  m_url :: "string option"
  m_file :: "string option"

text \<open>
  The key-request primitive the crypto collaborator offers, probed at run time:
  \<open>client.getCrypto?.()?.requestRoomKey\<close>, else \<open>client.requestRoomKeyForEvent\<close>, else
  none.  \<open>requestRoomKeyResult\<close> is the outcome of the request for an event (\<open>None\<close>
  resolves, \<open>Some e\<close> rejects).
\<close>

datatype key_api = CryptoRequestRoomKey | ClientRequestRoomKeyForEvent | NoKeyRequestApi

record crypto_env =
  keyApi :: key_api
  requestRoomKeyResult :: "event_id \<Rightarrow> js_error option"

text \<open>\<open>a || b\<close> on strings: the empty string and an absent value are falsy.\<close>

definition or_else :: "string option \<Rightarrow> string \<Rightarrow> string" where
  "or_else a b = (case a of None \<Rightarrow> b | Some x \<Rightarrow> if x = [] then b else x)"

text \<open>
  The \<open>try\<close> block of the decryption-failure branch: it asks for the key when a primitive
  is there.  The result tells whether the block threw.
\<close>

definition request_key :: "crypto_env \<Rightarrow> mx_event \<Rightarrow> manager \<Rightarrow> js_error option \<times> manager" where
  "request_key cenv event s =
     (case keyApi cenv of
        NoKeyRequestApi \<Rightarrow> (None, s)
      | _ \<Rightarrow> (requestRoomKeyResult cenv (e_id event),
               s\<lparr>calls := calls s @ [RequestRoomKey (e_id event)]\<rparr>))"

definition base_message :: "manager \<Rightarrow> room \<Rightarrow> mx_event \<Rightarrow> message" where
  "base_message s rm event =
     \<lparr>m_eventId = e_id event, m_kind = KUnknown, m_type = [], m_mediaType = [],
      m_content = [], m_html = None,
      m_senderId = e_sender event,
      m_senderName = or_else (rawDisplayName rm (e_sender event)) (e_sender event),
      m_timestamp = e_ts event, m_isOwn = (e_sender event = currentUserId s),
      m_isDecryptionFailure = False, m_targetEventId = None, m_newBody = None, m_key = None,
      m_url = None, m_file = None\<rparr>"

text \<open>The lock sign that starts the text of a decryption failure, in UTF-8.\<close>

definition lock_sign :: string where
  "lock_sign = [CHR 0xF0, CHR 0x9F, CHR 0x94, CHR 0x92]"

text \<open>
  \<open>formatEventToMessage(event, room)\<close>.  The \<open>catch\<close> of the key request only logs, so its
  outcome does not reach the result.  System messages carry neither \<open>senderName\<close> nor
  \<open>isOwn\<close>.
\<close>

definition formatEventToMessage ::
  "crypto_env \<Rightarrow> room \<Rightarrow> mx_event \<Rightarrow> manager \<Rightarrow> message \<times> manager" where
  "formatEventToMessage cenv rm event s =
     (let c = e_content event; t = e_type event; base = base_message s rm event in
      if e_encrypted event \<and> e_decryption_failure event then
        (let s1 = snd (request_key cenv event s);
             errText = or_else (e_unsigned_error event)
                         (or_else (e_failure_reason event)
                            ''Unable to decrypt: keys not available.'')
         in (base\<lparr>m_kind := KError, m_type := ''m.notice'',
                   m_content := lock_sign @ '' '' @ errText,
                   m_isDecryptionFailure := True\<rparr>, s1))
      else if t = ''m.room.message'' \<and> c_rel_type c = ''m.replace'' \<and> c_new_content c \<noteq> None then
        (base\<lparr>m_kind := KEdit, m_targetEventId := c_rel_event_id c,
                m_newBody := c_new_content c\<rparr>, s)
      else if t = ''m.room.message'' \<and> c_msgtype c \<in> {''m.text'', ''m.notice'', ''m.emote''} then
        (base\<lparr>m_kind := KText, m_type := c_msgtype c, m_content := c_body c,
                m_html := (if c_format c = ''org.matrix.custom.html'' then c_formatted_body c
                           else None)\<rparr>, s)
      else if t = ''m.room.message'' \<and>
              c_msgtype c \<in> {''m.image'', ''m.video'', ''m.audio'', ''m.file''} then
        (base\<lparr>m_kind := KMedia, m_mediaType := c_msgtype c,
                m_content := (if c_body c = [] then ''file'' else c_body c),
                m_url := c_url c, m_file := c_file c\<rparr>, s)
      else if t = ''m.room.message'' \<and> c_msgtype c = ''m.location'' then
        (base\<lparr>m_kind := KLocation,
                m_content := (if c_body c = [] then ''Location'' else c_body c),
                m_url := c_geo_uri c\<rparr>, s)
      else if t = ''m.reaction'' then
        (base\<lparr>m_kind := KReaction, m_key := c_rel_key c,
                m_targetEventId := c_rel_event_id c\<rparr>, s)
      else if take 7 t = ''m.call.'' then
        (base\<lparr>m_kind := KCall, m_type := t\<rparr>, s)
      else if t = ''m.room.member'' then
        (base\<lparr>m_kind := KSystem, m_type := ''member'', m_senderName := [], m_isOwn := False\<rparr>, s)
      else if t \<in> {''m.room.name'', ''m.room.topic'', ''m.room.avatar''} then
        (base\<lparr>m_kind := KSystem, m_type := t, m_senderName := [], m_isOwn := False\<rparr>, s)
      else
        (base\<lparr>m_kind := KUnknown, m_type := t, m_content := e_json event\<rparr>, s))"

text \<open>Concrete values used to run the code.\<close>

definition content0 :: content where
  "content0 = \<lparr>c_msgtype = [], c_body = [], c_format = [], c_formatted_body = None,
               c_rel_type = [], c_rel_event_id = None, c_rel_key = None, c_in_reply_to = None,
               c_new_content = None, c_url = None, c_file = None, c_geo_uri = None\<rparr>"

text \<open>An encrypted event of \<open>@bob:hs\<close> that could not be decrypted.\<close>

definition undecryptable :: mx_event where
  "undecryptable = \<lparr>e_id = ''$enc1'', e_type = ''m.room.encrypted'', e_sender = ''@bob:hs'',
                    e_ts = 1000, e_content = content0, e_json = ''{}'', e_encrypted = True,
                    e_decryption_failure = True, e_unsigned_error = None,
                    e_failure_reason = None\<rparr>"

definition room0 :: room where
  "room0 = \<lparr>r_id = ''!room'', rawDisplayName = (\<lambda>u. if u = ''@bob:hs'' then Some ''Bob'' else None)\<rparr>"

text \<open>A crypto collaborator whose key request is rejected, and one without a key-request
  primitive.\<close>

definition crypto_rejecting :: crypto_env where
  "crypto_rejecting = \<lparr>keyApi = CryptoRequestRoomKey,
                       requestRoomKeyResult = (\<lambda>e. Some network_error)\<rparr>"

definition crypto_without_api :: crypto_env where
  "crypto_without_api = \<lparr>keyApi = NoKeyRequestApi, requestRoomKeyResult = (\<lambda>e. None)\<rparr>"

section \<open>The message list and backward pagination (app.js)\<close>

text \<open>
  A message element of the page: its \<open>data-event-id\<close> and the text of its
  \<open>.message-body\<close> child (\<open>None\<close> for a system message, which has no such child).
\<close>

record msg_el =
  el_event_id :: event_id
  el_body :: "string option"

text \<open>
  The rendering surface: whether building the element of a message throws (the helpers
  \<open>getInitials\<close>, \<open>escapeHtml\<close> and the media element come from outside), the text put
  into the body, the rendered height of an element in pixels, and the height of the
  "no messages yet" placeholder.
\<close>

record surface =
  render_fails :: "message \<Rightarrow> bool"
  body_text :: "message \<Rightarrow> string"
  layout :: "msg_el \<Rightarrow> nat"
  placeholder_height :: nat

text \<open>
  The element \<open>#messages-container\<close>: the message elements in it, in document order,
  the height of everything else in it (the sentinel, the placeholder), its scroll offset,
  the height of its viewport, and the element \<open>#messages-top-sentinel\<close> that is its first
  child.  Sentinels are numbered in the order in which \<open>loadMessages\<close> creates them, so
  that a sentinel kept in a variable can be told from the one now in the container;
  \<open>None\<close> is a container that has none yet.
\<close>

record container =
  children :: "msg_el list"
  chrome :: nat
  scrollTop :: int
  clientHeight :: int
  sentinel :: "nat option"

definition content_height :: "surface \<Rightarrow> container \<Rightarrow> int" where
  "content_height surf c = int (chrome c) + (\<Sum>e\<leftarrow>children c. int (layout surf e))"

text \<open>\<open>scrollHeight\<close> is the height of the content, and at least the viewport's.\<close>

definition scrollHeight :: "surface \<Rightarrow> container \<Rightarrow> int" where
  "scrollHeight surf c = max (clientHeight c) (content_height surf c)"

text \<open>Assigning \<open>scrollTop\<close> clamps the value to the scrollable range.\<close>

definition set_scrollTop :: "surface \<Rightarrow> int \<Rightarrow> container \<Rightarrow> container" where
  "set_scrollTop surf v c = c\<lparr>scrollTop := max 0 (min v (scrollHeight surf c - clientHeight c))\<rparr>"

definition scroll_in_range :: "surface \<Rightarrow> container \<Rightarrow> bool" where
  "scroll_in_range surf c = (0 \<le> scrollTop c \<and> scrollTop c \<le> scrollHeight surf c - clientHeight c)"

text \<open>
  The edit branch of \<open>createMessageElement\<close>: \<open>document.querySelector\<close> finds the first
  element with the target id; if it has a body, the body's text is replaced.
\<close>

fun edit_first :: "event_id \<Rightarrow> string \<Rightarrow> msg_el list \<Rightarrow> msg_el list" where
  "edit_first t b [] = []"
| "edit_first t b (e # es) =
     (if el_event_id e = t
      then (case el_body e of None \<Rightarrow> e | Some old \<Rightarrow> e\<lparr>el_body := Some (b @ '' (edited)'')\<rparr>) # es
      else e # edit_first t b es)"

definition render_error :: js_error where
  "render_error = \<lparr>err_name = ''TypeError'', err_message = ''render'', err_devices = []\<rparr>"

text \<open>
  \<open>createMessageElement(message)\<close>, given the message elements of the document: the new
  element (\<open>null\<close> for reactions and edits) and the elements after the call.
\<close>

definition createMessageElement ::
  "surface \<Rightarrow> message \<Rightarrow> msg_el list \<Rightarrow> (js_error + msg_el option) \<times> msg_el list" where
  "createMessageElement surf m els =
     (if render_fails surf m then (Inl render_error, els)
      else case m_kind m of
        KSystem \<Rightarrow> (Inr (Some \<lparr>el_event_id = m_eventId m, el_body = None\<rparr>), els)
      | KReaction \<Rightarrow> (Inr None, els)
      | KEdit \<Rightarrow>
          (Inr None,
           case m_targetEventId m of
             None \<Rightarrow> els
           | Some t \<Rightarrow> edit_first t (case m_newBody m of None \<Rightarrow> [] | Some b \<Rightarrow> b) els)
      | _ \<Rightarrow> (Inr (Some \<lparr>el_event_id = m_eventId m, el_body = Some (body_text surf m)\<rparr>), els))"

record older_frame =
  f_roomId :: room_id
  prevScrollHeight :: int
  prevScrollTop :: int

record page =
  p_messages :: "message list"
  p_canLoadMore :: bool

text \<open>
  \<open>MatrixManager.loadOlderMessages(roomId, limit)\<close> (matrix.js), which produces the page:
  after paginating backwards it classifies every event of the live timeline whose type is
  one of those shown, one message per event.  \<open>paginated\<close> is the outcome of
  \<open>paginateEventTimeline\<close> (a rejection, or whether more history exists) and \<open>timeline\<close>
  the events of the timeline after it; a missing room or a rejection gives the empty page
  with \<open>canLoadMore\<close> false.
\<close>

definition shown_type :: "string \<Rightarrow> bool" where
  "shown_type t =
     (t = ''m.room.message'' \<or> t = ''m.room.encrypted'' \<or> t = ''m.reaction'' \<or>
      take 7 t = ''m.call.'' \<or> t = ''m.room.member'' \<or> t = ''m.room.name'' \<or>
      t = ''m.room.topic'')"

fun format_events ::
  "crypto_env \<Rightarrow> room \<Rightarrow> mx_event list \<Rightarrow> manager \<Rightarrow> message list \<times> manager" where
  "format_events cenv rm [] s = ([], s)"
| "format_events cenv rm (event # events) s =
     (if shown_type (e_type event)
      then (case formatEventToMessage cenv rm event s of
              (m, s1) \<Rightarrow> (case format_events cenv rm events s1 of (ms, s2) \<Rightarrow> (m # ms, s2)))
      else format_events cenv rm events s)"

definition MatrixManager_loadOlderMessages ::
  "crypto_env \<Rightarrow> room option \<Rightarrow> js_error + bool \<Rightarrow> mx_event list \<Rightarrow> manager
   \<Rightarrow> page \<times> manager" where
  "MatrixManager_loadOlderMessages cenv rm paginated timeline s =
     (case rm of
        None \<Rightarrow> (\<lparr>p_messages = [], p_canLoadMore = False\<rparr>, s)
      | Some r \<Rightarrow>
          (case paginated of
             Inl error \<Rightarrow> (\<lparr>p_messages = [], p_canLoadMore = False\<rparr>, s)
           | Inr hasMore \<Rightarrow>
               (case format_events cenv r timeline s of
                  (ms, s1) \<Rightarrow> (\<lparr>p_messages = ms, p_canLoadMore = hasMore\<rparr>, s1))))"

text \<open>
  \<open>createMessageElement\<close> is an \<open>async\<close> function: everything above runs when it is
  called, and the caller, which awaits the result, goes on later, when the promise has
  settled with the element or \<open>null\<close>, or has rejected.  In between other handlers run.
\<close>

type_synonym element_promise = "js_error + msg_el option"

text \<open>
  An activation of \<open>loadOlderMessages\<close> that is suspended in its insertion loop, at
  \<open>await createMessageElement(message)\<close>: the two values read at the start of the call, the
  sentinel found by \<open>getElementById\<close> before the loop (\<open>None\<close> for \<open>null\<close>), the promise
  awaited and the messages still to come.
\<close>

record insertion =
  i_frame :: older_frame
  i_topSentinel :: "nat option"
  i_awaited :: element_promise
  i_rest :: "message list"

text \<open>An activation of \<open>loadMessages\<close> that is suspended in its loop in the same way.\<close>

record load_loop =
  ld_roomId :: room_id
  ld_awaited :: element_promise
  ld_rest :: "message list"

text \<open>
  The state of the page: the two module-level flags, \<open>currentRoomId\<close>, the container
  (\<open>None\<close> when the element is missing), the rooms of the observers that watch the
  sentinel now in the container, the calls of \<open>matrixClient.loadOlderMessages\<close> made so
  far, and the activations that are suspended at an \<open>await\<close>, oldest first:
  those of \<open>loadOlderMessages\<close> waiting for their page (\<open>suspended\<close>) and those in their
  insertion loop (\<open>inserting\<close>), those of \<open>addMessageToUI\<close> waiting for their element
  (\<open>rendering\<close>), those of \<open>loadMessages\<close> waiting for \<open>getRoomMessages\<close> (\<open>fetching\<close>) and
  those in their loop (\<open>loading\<close>).
\<close>

record app =
  isLoadingOlder :: bool
  canLoadMore :: bool
  appRoomId :: "room_id option"
  box :: "container option"
  observers :: "room_id list"
  requests :: "(room_id \<times> nat) list"
  suspended :: "older_frame list"
  inserting :: "insertion list"
  rendering :: "element_promise list"
  fetching :: "room_id list"
  loading :: "load_loop list"

text \<open>The \<open>n\<close>-th of the suspended activations in a list, and the others.\<close>

definition take_out :: "nat \<Rightarrow> 'a list \<Rightarrow> ('a \<times> 'a list) option" where
  "take_out n xs = (if n < length xs then Some (xs ! n, take n xs @ drop (Suc n) xs) else None)"

text \<open>
  A call of \<open>createMessageElement(message)\<close> on the page: the part that runs at once
  (with the edit it may make to an element of the document), and the promise returned.
\<close>

definition document_els :: "app \<Rightarrow> msg_el list" where
  "document_els s = (case box s of None \<Rightarrow> [] | Some c \<Rightarrow> children c)"

definition set_document_els :: "msg_el list \<Rightarrow> app \<Rightarrow> app" where
  "set_document_els els s =
     (case box s of None \<Rightarrow> s | Some c \<Rightarrow> s\<lparr>box := Some (c\<lparr>children := els\<rparr>)\<rparr>)"

definition call_createMessageElement :: "surface \<Rightarrow> message \<Rightarrow> app \<Rightarrow> element_promise \<times> app" where
  "call_createMessageElement surf m s =
     (case createMessageElement surf m (document_els s) of
        (r, els) \<Rightarrow> (r, set_document_els els s))"

datatype begin_outcome = ReturnedAtOnce | ThrewAtOnce | Awaiting

text \<open>
  \<open>loadOlderMessages(roomId)\<close> up to its first \<open>await\<close>: the guard, the flag, the two
  values read from the container (a missing container throws before the \<open>try\<close>, leaving
  the flag set), and the request.
\<close>

definition loadOlderMessages_begin :: "surface \<Rightarrow> room_id \<Rightarrow> app \<Rightarrow> begin_outcome \<times> app" where
  "loadOlderMessages_begin surf roomId s =
     (if isLoadingOlder s \<or> \<not> canLoadMore s then (ReturnedAtOnce, s)
      else
        let s1 = s\<lparr>isLoadingOlder := True\<rparr>
        in case box s1 of
             None \<Rightarrow> (ThrewAtOnce, s1)
           | Some c \<Rightarrow>
               (Awaiting,
                s1\<lparr>requests := requests s1 @ [(roomId, 10)],
                    suspended := suspended s1 @
                      [\<lparr>f_roomId = roomId, prevScrollHeight = scrollHeight surf c,
                        prevScrollTop = scrollTop c\<rparr>]\<rparr>))"

text \<open>
  The end of \<open>loadOlderMessages\<close>, after the loop: the scroll offset is set from the two
  values read at the start of the call and the height the container has now, and the
  \<open>finally\<close> block resets the flag.
\<close>

definition loadOlderMessages_finish :: "surface \<Rightarrow> older_frame \<Rightarrow> app \<Rightarrow> app" where
  "loadOlderMessages_finish surf frame s =
     (case box s of
        None \<Rightarrow> s\<lparr>isLoadingOlder := False\<rparr>
      | Some c \<Rightarrow>
          (let newScrollHeight = scrollHeight surf c;
               c1 = set_scrollTop surf
                      (prevScrollTop frame + (newScrollHeight - prevScrollHeight frame)) c
           in s\<lparr>box := Some c1, isLoadingOlder := False\<rparr>))"

text \<open>
  The head of the insertion loop with the messages \<open>ms\<close> still to insert: when none is
  left the call ends, otherwise \<open>createMessageElement\<close> is called for the first and the
  activation is suspended until its promise settles.
\<close>

definition loadOlderMessages_loop ::
  "surface \<Rightarrow> older_frame \<Rightarrow> nat option \<Rightarrow> message list \<Rightarrow> app \<Rightarrow> app" where
  "loadOlderMessages_loop surf frame topSentinel ms s =
     (case ms of
        [] \<Rightarrow> loadOlderMessages_finish surf frame s
      | m # rest \<Rightarrow>
          (case call_createMessageElement surf m s of
             (r, s1) \<Rightarrow>
               s1\<lparr>inserting := inserting s1 @
                     [\<lparr>i_frame = frame, i_topSentinel = topSentinel, i_awaited = r,
                       i_rest = rest\<rparr>]\<rparr>))"

text \<open>
  \<open>const newMessages = result.messages.filter(m => !existingIds.has(m.eventId))\<close>, where
  \<open>existingIds\<close> are the ids of the elements in the container at that moment.
\<close>

definition new_messages :: "page \<Rightarrow> container \<Rightarrow> message list" where
  "new_messages result c =
     filter (\<lambda>m. m_eventId m \<notin> set (map el_event_id (children c))) (p_messages result)"

text \<open>
  \<open>loadOlderMessages\<close> from the moment its request has resolved with \<open>result\<close> up to its
  next \<open>await\<close>: \<open>canLoadMore\<close> is assigned, the ids in the container are collected, the
  page is filtered, the sentinel is looked up and the loop is entered.  (A missing
  container ends the call in the \<open>catch\<close> and \<open>finally\<close> blocks.)
\<close>

definition loadOlderMessages_resume :: "surface \<Rightarrow> older_frame \<Rightarrow> page \<Rightarrow> app \<Rightarrow> app" where
  "loadOlderMessages_resume surf frame result s =
     (let s1 = s\<lparr>canLoadMore := p_canLoadMore result\<rparr>
      in case box s1 of
           None \<Rightarrow> s1\<lparr>isLoadingOlder := False\<rparr>
         | Some c \<Rightarrow> loadOlderMessages_loop surf frame (sentinel c) (new_messages result c) s1)"

text \<open>The request of the oldest activation waiting for its page resolves.\<close>

definition page_arrives :: "surface \<Rightarrow> page \<Rightarrow> app \<Rightarrow> app" where
  "page_arrives surf result s =
     (case suspended s of
        [] \<Rightarrow> s
      | frame # rest \<Rightarrow> loadOlderMessages_resume surf frame result (s\<lparr>suspended := rest\<rparr>))"

text \<open>
  \<open>messagesContainer.insertBefore(messageElement, topSentinel.nextSibling)\<close>: a \<open>null\<close>
  sentinel throws; the sentinel that is in the container has the first message element
  (or nothing) as its next sibling, so the new element goes in front of the others; a
  sentinel that has been removed from the container has no next sibling, and
  \<open>insertBefore(element, null)\<close> appends at the end.
\<close>

definition insert_after_sentinel :: "nat option \<Rightarrow> msg_el \<Rightarrow> container \<Rightarrow> container option" where
  "insert_after_sentinel topSentinel el c =
     (case topSentinel of
        None \<Rightarrow> None
      | Some g \<Rightarrow>
          Some (if sentinel c = Some g then c\<lparr>children := el # children c\<rparr>
                else c\<lparr>children := children c @ [el]\<rparr>))"

text \<open>
  The loop goes on when the awaited promise has settled: a rejection, or an exception of
  the insertion, ends the call through the \<open>catch\<close> and \<open>finally\<close> blocks; \<open>null\<close> is
  skipped; an element is inserted; then the next message is taken.
\<close>

definition loadOlderMessages_continue :: "surface \<Rightarrow> insertion \<Rightarrow> app \<Rightarrow> app" where
  "loadOlderMessages_continue surf i s =
     (case i_awaited i of
        Inl error \<Rightarrow> s\<lparr>isLoadingOlder := False\<rparr>
      | Inr None \<Rightarrow> loadOlderMessages_loop surf (i_frame i) (i_topSentinel i) (i_rest i) s
      | Inr (Some el) \<Rightarrow>
          (case box s of
             None \<Rightarrow> s\<lparr>isLoadingOlder := False\<rparr>
           | Some c \<Rightarrow>
               (case insert_after_sentinel (i_topSentinel i) el c of
                  None \<Rightarrow> s\<lparr>isLoadingOlder := False\<rparr>
                | Some c1 \<Rightarrow>
                    loadOlderMessages_loop surf (i_frame i) (i_topSentinel i) (i_rest i)
                      (s\<lparr>box := Some c1\<rparr>))))"

text \<open>The promise awaited by the oldest activation in its insertion loop settles.\<close>

definition insertion_resumes :: "surface \<Rightarrow> app \<Rightarrow> app" where
  "insertion_resumes surf s =
     (case inserting s of
        [] \<Rightarrow> s
      | i # rest \<Rightarrow> loadOlderMessages_continue surf i (s\<lparr>inserting := rest\<rparr>))"

text \<open>
  A call of \<open>loadOlderMessages\<close> that nothing interrupts: the page arrives and the loop
  runs through, one resumption for each message of the page at most.
\<close>

fun run_insertion :: "surface \<Rightarrow> nat \<Rightarrow> app \<Rightarrow> app" where
  "run_insertion surf 0 s = s"
| "run_insertion surf (Suc n) s = run_insertion surf n (insertion_resumes surf s)"

definition loadOlderMessages :: "surface \<Rightarrow> room_id \<Rightarrow> page \<Rightarrow> app \<Rightarrow> app" where
  "loadOlderMessages surf roomId result s =
     (case loadOlderMessages_begin surf roomId s of
        (Awaiting, s1) \<Rightarrow>
          run_insertion surf (length (p_messages result)) (page_arrives surf result s1)
      | (_, s1) \<Rightarrow> s1)"

text \<open>
  What the insertion loop of such a call does to the message elements, the sentinel being
  in the container: each element that is not \<open>null\<close> goes in front of those already
  there, and an exception leaves the loop.
\<close>

fun insert_new :: "surface \<Rightarrow> message list \<Rightarrow> msg_el list \<Rightarrow> js_error option \<times> msg_el list" where
  "insert_new surf [] els = (None, els)"
| "insert_new surf (m # ms) els =
     (case createMessageElement surf m els of
        (Inl e, els') \<Rightarrow> (Some e, els')
      | (Inr None, els') \<Rightarrow> insert_new surf ms els'
      | (Inr (Some el), els') \<Rightarrow> insert_new surf ms (el # els'))"

definition scrollToBottom :: "surface \<Rightarrow> container \<Rightarrow> container" where
  "scrollToBottom surf c = set_scrollTop surf (scrollHeight surf c) c"

text \<open>
  \<open>loadMessages(roomId)\<close> up to its \<open>await\<close> of \<open>getRoomMessages\<close>.  It reads and writes
  neither flag, here or later.
\<close>

definition loadMessages_begin :: "room_id \<Rightarrow> app \<Rightarrow> app" where
  "loadMessages_begin roomId s = (if roomId = [] then s else s\<lparr>fetching := fetching s @ [roomId]\<rparr>)"

text \<open>
  The end of \<open>loadMessages\<close>: \<open>scrollToBottom()\<close> and \<open>setupInfiniteScroll(roomId)\<close>, which
  puts a new observer on the sentinel that is in the container.
\<close>

definition loadMessages_finish :: "surface \<Rightarrow> room_id \<Rightarrow> app \<Rightarrow> app" where
  "loadMessages_finish surf roomId s =
     (case box s of
        None \<Rightarrow> s
      | Some c \<Rightarrow>
          s\<lparr>box := Some (scrollToBottom surf c),
            observers := (case sentinel c of None \<Rightarrow> observers s
                          | Some g \<Rightarrow> observers s @ [roomId])\<rparr>)"

definition loadMessages_loop :: "surface \<Rightarrow> room_id \<Rightarrow> message list \<Rightarrow> app \<Rightarrow> app" where
  "loadMessages_loop surf roomId ms s =
     (case ms of
        [] \<Rightarrow> loadMessages_finish surf roomId s
      | m # rest \<Rightarrow>
          (case call_createMessageElement surf m s of
             (r, s1) \<Rightarrow>
               s1\<lparr>loading := loading s1 @
                     [\<lparr>ld_roomId = roomId, ld_awaited = r, ld_rest = rest\<rparr>]\<rparr>))"

text \<open>
  \<open>loadMessages\<close> from the moment \<open>getRoomMessages\<close> has resolved with \<open>messages\<close>: the
  container is emptied and gets a new sentinel, one pixel high (the observers of the old
  one see nothing any more); the scroll offset cannot stay beyond what is left to scroll.
  Without messages the placeholder is added, which builds the sentinel anew, and the
  call returns; otherwise the loop is entered.
\<close>

definition next_sentinel :: "container \<Rightarrow> nat" where
  "next_sentinel c = (case sentinel c of None \<Rightarrow> 0 | Some g \<Rightarrow> Suc g)"

definition reflow :: "surface \<Rightarrow> container \<Rightarrow> container" where
  "reflow surf c = set_scrollTop surf (scrollTop c) c"

definition loadMessages_resume :: "surface \<Rightarrow> room_id \<Rightarrow> message list \<Rightarrow> app \<Rightarrow> app" where
  "loadMessages_resume surf roomId messages s =
     (case box s of
        None \<Rightarrow> s
      | Some c \<Rightarrow>
          (let g = next_sentinel c;
               c1 = c\<lparr>children := [], chrome := 1, sentinel := Some g\<rparr>;
               s1 = s\<lparr>observers := []\<rparr>
           in if messages = []
              then s1\<lparr>box := Some (reflow surf
                                     (c1\<lparr>chrome := 1 + placeholder_height surf,
                                          sentinel := Some (Suc g)\<rparr>))\<rparr>
              else loadMessages_loop surf roomId messages (s1\<lparr>box := Some (reflow surf c1)\<rparr>)))"

definition messages_arrive :: "surface \<Rightarrow> nat \<Rightarrow> message list \<Rightarrow> app \<Rightarrow> app" where
  "messages_arrive surf n messages s =
     (case take_out n (fetching s) of
        None \<Rightarrow> s
      | Some (roomId, rest) \<Rightarrow> loadMessages_resume surf roomId messages (s\<lparr>fetching := rest\<rparr>))"

text \<open>
  The loop of \<open>loadMessages\<close> goes on when the awaited promise has settled: a rejection
  ends the call in its \<open>catch\<close> block, \<open>null\<close> is skipped, an element is appended.
\<close>

definition append_element :: "msg_el \<Rightarrow> app \<Rightarrow> app" where
  "append_element el s =
     (case box s of
        None \<Rightarrow> s
      | Some c \<Rightarrow> s\<lparr>box := Some (c\<lparr>children := children c @ [el]\<rparr>)\<rparr>)"

definition loadMessages_continue :: "surface \<Rightarrow> load_loop \<Rightarrow> app \<Rightarrow> app" where
  "loadMessages_continue surf l s =
     (case ld_awaited l of
        Inl error \<Rightarrow> s
      | Inr None \<Rightarrow> loadMessages_loop surf (ld_roomId l) (ld_rest l) s
      | Inr (Some el) \<Rightarrow> loadMessages_loop surf (ld_roomId l) (ld_rest l) (append_element el s))"

definition load_resumes :: "surface \<Rightarrow> nat \<Rightarrow> app \<Rightarrow> app" where
  "load_resumes surf n s =
     (case take_out n (loading s) of
        None \<Rightarrow> s
      | Some (l, rest) \<Rightarrow> loadMessages_continue surf l (s\<lparr>loading := rest\<rparr>))"

text \<open>
  \<open>openConversation(roomId)\<close> up to the same \<open>await\<close> (the client being there); both
  device acknowledgements swallow their errors.
\<close>

definition openConversation :: "room_id \<Rightarrow> app \<Rightarrow> app" where
  "openConversation roomId s =
     (if roomId = [] then s else loadMessages_begin roomId (s\<lparr>appRoomId := Some roomId\<rparr>))"

text \<open>
  \<open>addMessageToUI\<close> for a live message \<open>m\<close>, from the moment the event has been
  classified: it calls \<open>createMessageElement\<close> and awaits the element; when the promise
  has settled, the element goes to the end of the container, whatever the container
  holds by then, and the list scrolls to the bottom.  \<open>appendChild(null)\<close> throws, as a
  rejected promise does, and nothing is appended.
\<close>

definition addMessageToUI_begin :: "surface \<Rightarrow> message \<Rightarrow> app \<Rightarrow> app" where
  "addMessageToUI_begin surf m s =
     (case box s of
        None \<Rightarrow> s
      | Some c \<Rightarrow>
          (case call_createMessageElement surf m s of
             (r, s1) \<Rightarrow> s1\<lparr>rendering := rendering s1 @ [r]\<rparr>))"

definition addMessageToUI_continue :: "surface \<Rightarrow> element_promise \<Rightarrow> app \<Rightarrow> app" where
  "addMessageToUI_continue surf r s =
     (case r of
        Inr (Some el) \<Rightarrow>
          (case box s of
             None \<Rightarrow> s
           | Some c \<Rightarrow> s\<lparr>box := Some (scrollToBottom surf (c\<lparr>children := children c @ [el]\<rparr>))\<rparr>)
      | _ \<Rightarrow> s)"

definition live_resumes :: "surface \<Rightarrow> nat \<Rightarrow> app \<Rightarrow> app" where
  "live_resumes surf n s =
     (case take_out n (rendering s) of
        None \<Rightarrow> s
      | Some (r, rest) \<Rightarrow> addMessageToUI_continue surf r (s\<lparr>rendering := rest\<rparr>))"

text \<open>
  The callback of an observer made by \<open>setupInfiniteScroll(roomId)\<close>, for an entry that is
  intersecting.
\<close>

definition observer_callback :: "surface \<Rightarrow> room_id \<Rightarrow> app \<Rightarrow> app" where
  "observer_callback surf roomId s =
     (if canLoadMore s \<and> \<not> isLoadingOlder s
      then snd (loadOlderMessages_begin surf roomId s) else s)"

text \<open>
  What can happen to the page, one event at a time: a conversation is opened;
  \<open>loadMessages\<close> is called (the retry button); the messages asked for by the \<open>n\<close>-th
  waiting \<open>loadMessages\<close> arrive; the \<open>n\<close>-th \<open>loadMessages\<close> loop gets its element; the
  top sentinel scrolls into view (the callbacks of its observers run); \<open>loadOlderMessages\<close>
  is called for a room; the page asked for arrives; the insertion loop gets its element;
  a live message is handed to \<open>addMessageToUI\<close>; the \<open>n\<close>-th waiting \<open>addMessageToUI\<close>
  gets its element; the user scrolls.
\<close>

datatype app_event =
    OpenConversation room_id
  | CallLoadMessages room_id
  | MessagesArrive nat "message list"
  | LoadResumes nat
  | SentinelVisible
  | CallLoadOlder room_id
  | PageArrives page
  | InsertionResumes
  | LiveMessage message
  | LiveResumes nat
  | UserScroll int

fun app_step :: "surface \<Rightarrow> app_event \<Rightarrow> app \<Rightarrow> app" where
  "app_step surf (OpenConversation roomId) s = openConversation roomId s"
| "app_step surf (CallLoadMessages roomId) s = loadMessages_begin roomId s"
| "app_step surf (MessagesArrive n messages) s = messages_arrive surf n messages s"
| "app_step surf (LoadResumes n) s = load_resumes surf n s"
| "app_step surf SentinelVisible s = fold (observer_callback surf) (observers s) s"
| "app_step surf (CallLoadOlder roomId) s = snd (loadOlderMessages_begin surf roomId s)"
| "app_step surf (PageArrives result) s = page_arrives surf result s"
| "app_step surf InsertionResumes s = insertion_resumes surf s"
| "app_step surf (LiveMessage m) s = addMessageToUI_begin surf m s"
| "app_step surf (LiveResumes n) s = live_resumes surf n s"
| "app_step surf (UserScroll v) s =
     (case box s of None \<Rightarrow> s | Some c \<Rightarrow> s\<lparr>box := Some (set_scrollTop surf v c)\<rparr>)"

text \<open>The events with which a suspended \<open>loadOlderMessages\<close> goes on.\<close>

fun resumes_older :: "app_event \<Rightarrow> bool" where
  "resumes_older (PageArrives p) = True"
| "resumes_older InsertionResumes = True"
| "resumes_older _ = False"

fun app_run :: "surface \<Rightarrow> app_event list \<Rightarrow> app \<Rightarrow> app" where
  "app_run surf [] s = s"
| "app_run surf (ev # evs) s = app_run surf evs (app_step surf ev s)"

text \<open>
  At most one activation of \<open>loadOlderMessages\<close> is suspended; while one is, the flag
  \<open>isLoadingOlder\<close> is set, and while it waits for its page \<open>canLoadMore\<close> is set too.
\<close>

definition app_inv :: "app \<Rightarrow> bool" where
  "app_inv s =
     (length (suspended s) + length (inserting s) \<le> 1 \<and>
      (suspended s \<noteq> [] \<longrightarrow> isLoadingOlder s \<and> canLoadMore s) \<and>
      (inserting s \<noteq> [] \<longrightarrow> isLoadingOlder s))"

text \<open>
  The part of the state that belongs to \<open>loadOlderMessages\<close>: the two flags, the
  requests made and the suspended activations.
\<close>

definition pagination ::
  "app \<Rightarrow> bool \<times> bool \<times> (room_id \<times> nat) list \<times> older_frame list \<times> insertion list" where
  "pagination s = (isLoadingOlder s, canLoadMore s, requests s, suspended s, inserting s)"

text \<open>
  The element that \<open>createMessageElement\<close> builds for a message when it does not throw,
  and the total rendered height of the elements built for a list of messages.
\<close>

definition element_of :: "surface \<Rightarrow> message \<Rightarrow> msg_el option" where
  "element_of surf m = (case fst (createMessageElement surf m []) of Inl e \<Rightarrow> None | Inr el \<Rightarrow> el)"

definition inserted_height :: "surface \<Rightarrow> message list \<Rightarrow> int" where
  "inserted_height surf ms =
     (\<Sum>m\<leftarrow>ms. case element_of surf m of None \<Rightarrow> 0 | Some el \<Rightarrow> int (layout surf el))"

text \<open>The ids of the message elements in the container.\<close>

definition materialized :: "app \<Rightarrow> event_id list" where
  "materialized s = (case box s of None \<Rightarrow> [] | Some c \<Rightarrow> map el_event_id (children c))"

text \<open>Concrete values used to run the code.\<close>

definition surface0 :: surface where
  "surface0 = \<lparr>render_fails = (\<lambda>m. False), body_text = m_content, layout = (\<lambda>e. 40),
               placeholder_height = 80\<rparr>"

definition text_message :: "event_id \<Rightarrow> message" where
  "text_message eid =
     \<lparr>m_eventId = eid, m_kind = KText, m_type = ''m.text'', m_mediaType = [],
      m_content = ''hello'', m_html = None,
      m_senderId = ''@bob:hs'', m_senderName = ''Bob'', m_timestamp = 0, m_isOwn = False,
      m_isDecryptionFailure = False, m_targetEventId = None, m_newBody = None, m_key = None,
      m_url = None, m_file = None\<rparr>"

text \<open>An image message, whose element is ready once its media have been fetched.\<close>

definition image_message :: "event_id \<Rightarrow> message" where
  "image_message eid =
     (text_message eid)\<lparr>m_kind := KMedia, m_type := [], m_mediaType := ''m.image'',
                         m_content := ''photo.png'', m_url := Some ''mxc://hs/abc''\<rparr>"

definition el_hello :: "event_id \<Rightarrow> msg_el" where
  "el_hello eid = \<lparr>el_event_id = eid, el_body = Some ''hello''\<rparr>"

text \<open>The page as the script leaves it when loaded, with an empty container 100 pixels high.\<close>

definition app0 :: app where
  "app0 = \<lparr>isLoadingOlder = False, canLoadMore = True, appRoomId = None,
           box = Some \<lparr>children = [], chrome = 0, scrollTop = 0, clientHeight = 100,
                       sentinel = None\<rparr>,
           observers = [], requests = [], suspended = [], inserting = [], rendering = [],
           fetching = [], loading = []\<rparr>"

text \<open>
  Room A is opened and its three messages \<open>$m10\<close>, \<open>$m11\<close>, \<open>$m12\<close> are rendered one after
  the other; the user then scrolls to the top.
\<close>

definition open_roomA :: "app_event list" where
  "open_roomA =
     [OpenConversation ''!A'',
      MessagesArrive 0 [text_message ''$m10'', text_message ''$m11'', text_message ''$m12''],
      LoadResumes 0, LoadResumes 0, LoadResumes 0, UserScroll 0]"

definition app_roomA :: app where
  "app_roomA = app_run surface0 open_roomA app0"

definition box_roomA :: container where
  "box_roomA = \<lparr>children = [el_hello ''$m10'', el_hello ''$m11'', el_hello ''$m12''],
                 chrome = 1, scrollTop = 0, clientHeight = 100, sentinel = Some 0\<rparr>"

text \<open>
  A page that brings the older messages \<open>$m08\<close> and \<open>$m09\<close>; made of the whole timeline,
  it holds the three messages shown as well.
\<close>

definition page_overlap :: page where
  "page_overlap =
     \<lparr>p_messages = [text_message ''$m08'', text_message ''$m09'', text_message ''$m10'',
                    text_message ''$m11'', text_message ''$m12''],
      p_canLoadMore = True\<rparr>"

definition page_last :: page where
  "page_last = \<lparr>p_messages = [], p_canLoadMore = False\<rparr>"

text \<open>
  Room A while its first \<open>loadOlderMessages\<close> is waiting for the page, after the page
  \<open>page_overlap\<close> has been inserted without interruption, and after the page \<open>page_last\<close>
  has arrived instead.
\<close>

definition app_inflight :: app where
  "app_inflight = snd (loadOlderMessages_begin surface0 ''!A'' app_roomA)"

definition app_after :: app where
  "app_after = loadOlderMessages surface0 ''!A'' page_overlap app_roomA"

definition app_exhausted :: app where
  "app_exhausted = page_arrives surface0 page_last app_inflight"

definition box_after :: container where
  "box_after = \<lparr>children = [el_hello ''$m09'', el_hello ''$m08'', el_hello ''$m10'',
                             el_hello ''$m11'', el_hello ''$m12''],
                 chrome = 1, scrollTop = 80, clientHeight = 100, sentinel = Some 0\<rparr>"

text \<open>
  What happens while the page is awaited (the sentinel is seen again, a live message is
  rendered, the user scrolls), how the first call gets into its insertion loop, and what
  happens after the history is exhausted.
\<close>

definition events_between :: "app_event list" where
  "events_between =
     [SentinelVisible, LiveMessage (text_message ''$m13''), LiveResumes 0, UserScroll 20]"

definition events_into_loop :: "app_event list" where
  "events_into_loop = [PageArrives page_overlap, SentinelVisible, InsertionResumes]"

definition events_later :: "app_event list" where
  "events_later =
     [OpenConversation ''!B'', MessagesArrive 0 [text_message ''$b1''], LoadResumes 0,
      SentinelVisible, CallLoadOlder ''!B'']"

text \<open>
  The page \<open>page_overlap\<close> arrives and the loop inserts its two new messages, one
  resumption each.
\<close>

definition events_insert_page :: "app_event list" where
  "events_insert_page = [PageArrives page_overlap, InsertionResumes, InsertionResumes]"

text \<open>
  Room A when the user has scrolled down by 20 pixels while the page is awaited, and when
  instead a live message \<open>$m13\<close> has been rendered while the page is awaited.
\<close>

definition app_scrolled :: app where
  "app_scrolled = app_run surface0 [UserScroll 20] app_inflight"

definition app_live_shown :: app where
  "app_live_shown =
     app_run surface0 [LiveMessage (text_message ''$m13''), LiveResumes 0] app_inflight"

text \<open>The page that arrives in the second case: the timeline then holds \<open>$m13\<close> too.\<close>

definition page_overlap_live :: page where
  "page_overlap_live =
     page_overlap\<lparr>p_messages := p_messages page_overlap @ [text_message ''$m13'']\<rparr>"

definition events_insert_page_live :: "app_event list" where
  "events_insert_page_live = [PageArrives page_overlap_live, InsertionResumes, InsertionResumes]"

definition box_live_shown :: container where
  "box_live_shown = box_roomA\<lparr>children := children box_roomA @ [el_hello ''$m13''],
                              scrollTop := 61\<rparr>"

definition box_live_after :: container where
  "box_live_after = box_after\<lparr>children := children box_after @ [el_hello ''$m13''],
                              scrollTop := 120\<rparr>"

text \<open>
  Room A when a live image message \<open>$m13\<close> is being rendered while the page is awaited:
  \<open>addMessageToUI\<close> waits for the element, whose media are being fetched.
\<close>

definition app_live_pending :: app where
  "app_live_pending = app_run surface0 [LiveMessage (image_message ''$m13'')] app_inflight"

text \<open>
  The page then arrives.  It is made, as \<open>MatrixManager.loadOlderMessages\<close> makes it, of
  the whole timeline, which holds \<open>$m13\<close> already: the older \<open>$m09\<close>, the three messages
  shown, and \<open>$m13\<close>.  The loop inserts \<open>$m09\<close>; the element of the live message is ready
  and appended while the loop waits for the media of its own \<open>$m13\<close>; the loop inserts
  that one too and the call ends.
\<close>

definition page_timeline :: page where
  "page_timeline =
     \<lparr>p_messages = [text_message ''$m09'', text_message ''$m10'', text_message ''$m11'',
                    text_message ''$m12'', image_message ''$m13''],
      p_canLoadMore = True\<rparr>"

definition events_live_race :: "app_event list" where
  "events_live_race =
     [PageArrives page_timeline, InsertionResumes, LiveResumes 0, InsertionResumes]"

definition el_photo :: "event_id \<Rightarrow> msg_el" where
  "el_photo eid = \<lparr>el_event_id = eid, el_body = Some ''photo.png''\<rparr>"

section \<open>Resolving media (matrix.js and app.js)\<close>

text \<open>
  Locators and URLs are JavaScript strings, on which the code slices, matches and
  concatenates.
\<close>

definition slash :: code_unit where
  "slash = 0x2F"

text \<open>
  \<open>parseMxc(mxcUrl)\<close>: the server name and the media id of an \<open>mxc://\<close> locator, or
  \<open>null\<close>.
\<close>

definition parseMxc :: "js_string option \<Rightarrow> (js_string \<times> js_string) option" where
  "parseMxc mxcUrl =
     (case mxcUrl of
        None \<Rightarrow> None
      | Some u \<Rightarrow>
          if take 6 u \<noteq> js ''mxc://'' then None
          else
            let rest = drop 6 u in
            if slash \<notin> set rest then None
            else Some (takeWhile (\<lambda>c. c \<noteq> slash) rest,
                       drop 1 (dropWhile (\<lambda>c. c \<noteq> slash) rest)))"

text \<open>\<open>url.replace(/\/$/, '')\<close>: one trailing slash removed.\<close>

definition strip_slash :: "js_string \<Rightarrow> js_string" where
  "strip_slash b = (if b \<noteq> [] \<and> last b = slash then butlast b else b)"

text \<open>
  What \<open>fetch\<close> does with a URL: it rejects, or it resolves with a response that is
  \<open>ok\<close> (and whose body can be read) or not.
\<close>

datatype fetch_outcome = FetchThrows | FetchStatus bool

text \<open>
  The collaborators of media resolution: the homeserver URL, \<open>encodeURIComponent\<close> (which
  throws a \<open>URIError\<close> on a string with a lone surrogate), the network, the protocol
  client's \<open>mxcUrlToHttp\<close> (given the locator and, for a thumbnail, a width and a height;
  it may return \<open>null\<close>) and its \<open>downloadEncryptedContent\<close> (given the \<open>file\<close> object of the
  message, here a name; whether it resolves).
\<close>

record media_env =
  homeserverUrl :: js_string
  encodeURIComponent :: "js_string \<Rightarrow> js_error + js_string"
  fetch :: "js_string \<Rightarrow> fetch_outcome"
  mxcUrlToHttp :: "js_string \<Rightarrow> (nat \<times> nat) option \<Rightarrow> js_string option"
  downloadEncryptedContent :: "js_string \<Rightarrow> bool"

text \<open>The requests made, in order.\<close>

datatype attempt = Fetched js_string | Decrypted js_string

text \<open>
  The two download URLs, given the encoded server name and media id:
  \<open>${base}/_matrix/media/v3/download/${...}/${...}?allow_redirect=true\<close> and
  \<open>${base}/_matrix/media/r0/download/${...}/${...}\<close>.
\<close>

definition v3_url :: "media_env \<Rightarrow> js_string \<Rightarrow> js_string \<Rightarrow> js_string" where
  "v3_url env encServer encMedia =
     strip_slash (homeserverUrl env) @ js ''/_matrix/media/v3/download/''
       @ encServer @ js ''/'' @ encMedia @ js ''?allow_redirect=true''"

definition r0_url :: "media_env \<Rightarrow> js_string \<Rightarrow> js_string \<Rightarrow> js_string" where
  "r0_url env encServer encMedia =
     strip_slash (homeserverUrl env) @ js ''/_matrix/media/r0/download/''
       @ encServer @ js ''/'' @ encMedia"

text \<open>
  The two calls of \<open>encodeURIComponent\<close> in such a template, server name first; the
  first that throws ends the evaluation.
\<close>

definition encode_parts ::
  "media_env \<Rightarrow> js_string \<Rightarrow> js_string \<Rightarrow> js_error + js_string \<times> js_string" where
  "encode_parts env serverName mediaId =
     (case encodeURIComponent env serverName of
        Inl e \<Rightarrow> Inl e
      | Inr encServer \<Rightarrow>
          (case encodeURIComponent env mediaId of
             Inl e \<Rightarrow> Inl e
           | Inr encMedia \<Rightarrow> Inr (encServer, encMedia)))"

datatype js_url = Url js_string | JsNull | JsUndefined

text \<open>
  \<open>MatrixManager.resolveMxcDownloadUrl(mxcUrl)\<close>; \<open>Inl e\<close> is a promise rejected with
  \<open>e\<close>.  Both URLs are built before the \<open>try\<close>.  The only request is the one to the v3
  URL.  The \<open>return r0\<close> stands inside the \<open>catch\<close> block, so a response that is not \<open>ok\<close>
  falls off the end of the function.
\<close>

definition resolveMxcDownloadUrl ::
  "media_env \<Rightarrow> js_string option \<Rightarrow> attempt list \<Rightarrow> (js_error + js_url) \<times> attempt list" where
  "resolveMxcDownloadUrl env mxcUrl log =
     (case parseMxc mxcUrl of
        None \<Rightarrow> (Inr JsNull, log)
      | Some (serverName, mediaId) \<Rightarrow>
          (case encode_parts env serverName mediaId of
             Inl e \<Rightarrow> (Inl e, log)
           | Inr (encServer, encMedia) \<Rightarrow>
               (let v3 = v3_url env encServer encMedia;
                    r0 = r0_url env encServer encMedia
                in case fetch env v3 of
                     FetchStatus True \<Rightarrow> (Inr (Url v3), log @ [Fetched v3])
                   | FetchStatus False \<Rightarrow> (Inr JsUndefined, log @ [Fetched v3])
                   | FetchThrows \<Rightarrow> (Inr (Url r0), log @ [Fetched v3]))))"

text \<open>
  \<open>mxcToHttp(client, mxcUrl, thumbnail)\<close>: the locator has to match
  \<open>/^mxc:\/\/([^/]+)\/(.+)$/\<close>, that is: \<open>mxc://\<close>, then code units other than the
  slash, at least one, then a slash, then code units other than the line terminators
  (LF, CR, U+2028, U+2029), at least one, up to the end.  The URL itself comes from the
  protocol client.
\<close>

definition line_terminator :: "code_unit \<Rightarrow> bool" where
  "line_terminator c = (c \<in> set [0x0A, 0x0D, 0x2028, 0x2029])"

definition mxc_regex_matches :: "js_string \<Rightarrow> bool" where
  "mxc_regex_matches u =
     (take 6 u = js ''mxc://'' \<and>
      (let rest = drop 6 u;
           server = takeWhile (\<lambda>c. c \<noteq> slash) rest;
           tail = dropWhile (\<lambda>c. c \<noteq> slash) rest
       in server \<noteq> [] \<and> tail \<noteq> [] \<and> drop 1 tail \<noteq> [] \<and>
          list_all (\<lambda>c. \<not> line_terminator c) (drop 1 tail)))"

definition mxcToHttp :: "media_env \<Rightarrow> js_string \<Rightarrow> (nat \<times> nat) option \<Rightarrow> js_string option" where
  "mxcToHttp env mxcUrl thumbnail =
     (if mxc_regex_matches mxcUrl then mxcUrlToHttp env mxcUrl thumbnail else None)"

text \<open>
  The handle that media resolution yields: an object URL for the blob obtained from a
  source, or \<open>null\<close>.
\<close>

datatype media_handle = Blob js_string | NoHandle

text \<open>
  \<open>getMediaUrl(client, baseUrl, url, file, thumbnail)\<close>, the resolution that
  \<open>createMediaElement\<close> uses.  Every failure inside ends in the \<open>catch\<close> block, which
  returns \<open>null\<close>.
\<close>

definition getMediaUrl ::
  "media_env \<Rightarrow> js_string option \<Rightarrow> js_string option \<Rightarrow> (nat \<times> nat) option \<Rightarrow> attempt list
   \<Rightarrow> media_handle \<times> attempt list" where
  "getMediaUrl env url file thumbnail log =
     (case file of
        Some f \<Rightarrow>
          (if downloadEncryptedContent env f then (Blob f, log @ [Decrypted f])
           else (NoHandle, log @ [Decrypted f]))
      | None \<Rightarrow>
          (case url of
             None \<Rightarrow> (NoHandle, log)
           | Some u \<Rightarrow>
               if u = [] then (NoHandle, log)
               else case mxcToHttp env u thumbnail of
                      None \<Rightarrow> (NoHandle, log)
                    | Some httpUrl \<Rightarrow>
                        if httpUrl = [] then (NoHandle, log)
                        else (case fetch env httpUrl of
                                FetchStatus True \<Rightarrow> (Blob httpUrl, log @ [Fetched httpUrl])
                              | _ \<Rightarrow> (NoHandle, log @ [Fetched httpUrl]))))"

text \<open>What the image case of \<open>formatMessageContent\<close> returns.\<close>

datatype image_markup =
    FailedToDecryptImage
  | InvalidImageUrl
  | ImageUnavailable
  | ImageShown js_string

text \<open>\<open>fetchToBlob(url)\<close>: it throws unless the response is \<open>ok\<close>.\<close>

definition fetchToBlob :: "media_env \<Rightarrow> js_string \<Rightarrow> attempt list \<Rightarrow> bool \<times> attempt list" where
  "fetchToBlob env url log = (fetch env url = FetchStatus True, log @ [Fetched url])"

text \<open>
  The URL that the image case tries first (the constant \<open>v3Download\<close> of the source): the
  one the protocol client builds for a 1200 by 1200 thumbnail; a \<open>null\<close> is fetched as the
  text \<open>null\<close>.
\<close>

definition image_v3Download :: "media_env \<Rightarrow> js_string \<Rightarrow> js_string" where
  "image_v3Download env u =
     (case mxcUrlToHttp env u (Some (1200, 1200)) of None \<Rightarrow> js ''null'' | Some h \<Rightarrow> h)"

text \<open>
  The case \<open>m.image\<close> of \<open>formatMessageContent(message)\<close>, given the message's \<open>file\<close> and
  \<open>url\<close>; \<open>Inl e\<close> is a promise rejected with \<open>e\<close>.  The r0 download URL is built first,
  outside the \<open>try\<close> blocks; it is the second URL tried.
\<close>

definition formatMessageContent_image ::
  "media_env \<Rightarrow> js_string option \<Rightarrow> js_string option \<Rightarrow> attempt list
   \<Rightarrow> (js_error + image_markup) \<times> attempt list" where
  "formatMessageContent_image env url file log =
     (case file of
        Some f \<Rightarrow>
          (if downloadEncryptedContent env f then (Inr (ImageShown f), log @ [Decrypted f])
           else (Inr FailedToDecryptImage, log @ [Decrypted f]))
      | None \<Rightarrow>
          (case url of
             None \<Rightarrow> (Inr ImageUnavailable, log)
           | Some u \<Rightarrow>
               if u = [] then (Inr ImageUnavailable, log)
               else case parseMxc (Some u) of
                      None \<Rightarrow> (Inr InvalidImageUrl, log)
                    | Some (serverName, mediaId) \<Rightarrow>
                        (case encode_parts env serverName mediaId of
                           Inl e \<Rightarrow> (Inl e, log)
                         | Inr (encServer, encMedia) \<Rightarrow>
                             (let r0Download = r0_url env encServer encMedia;
                                  v3Download = image_v3Download env u
                              in case fetchToBlob env v3Download log of
                                   (True, log1) \<Rightarrow> (Inr (ImageShown v3Download), log1)
                                 | (False, log1) \<Rightarrow>
                                     (case fetchToBlob env r0Download log1 of
                                        (True, log2) \<Rightarrow> (Inr (ImageShown r0Download), log2)
                                      | (False, log2) \<Rightarrow> (Inr ImageUnavailable, log2))))))"

text \<open>Concrete values used to run the code.\<close>

definition sdk_url :: "js_string \<Rightarrow> (nat \<times> nat) option \<Rightarrow> js_string option" where
  "sdk_url u thumbnail =
     (case thumbnail of
        None \<Rightarrow> Some (js ''https://hs/_matrix/client/v1/media/download/'' @ drop 6 u)
      | Some wh \<Rightarrow> Some (js ''https://hs/_matrix/client/v1/media/thumbnail/'' @ drop 6 u))"

definition uri_error :: js_error where
  "uri_error = \<lparr>err_name = ''URIError'', err_message = ''URI malformed'', err_devices = []\<rparr>"

text \<open>
  An \<open>encodeURIComponent\<close> for the examples: it leaves letters and digits as they are
  and throws on a surrogate (the examples hold no other code unit).
\<close>

definition encode_plain :: "js_string \<Rightarrow> js_error + js_string" where
  "encode_plain s = (if list_ex (\<lambda>c. 0xD800 \<le> c \<and> c \<le> 0xDFFF) s then Inl uri_error else Inr s)"

text \<open>A homeserver on which every request is rejected.\<close>

definition media_env_down :: media_env where
  "media_env_down = \<lparr>homeserverUrl = js ''https://hs/'', encodeURIComponent = encode_plain,
                     fetch = (\<lambda>u. FetchThrows), mxcUrlToHttp = sdk_url,
                     downloadEncryptedContent = (\<lambda>f. False)\<rparr>"

text \<open>A homeserver that serves media on the r0 endpoint only.\<close>

definition media_env_r0_only :: media_env where
  "media_env_r0_only =
     media_env_down\<lparr>fetch := (\<lambda>u. if u = js ''https://hs/_matrix/media/r0/download/hs/abc''
                                    then FetchStatus True else FetchStatus False)\<rparr>"

text \<open>A homeserver that answers every request.\<close>

definition media_env_up :: media_env where
  "media_env_up = media_env_down\<lparr>fetch := (\<lambda>u. FetchStatus True)\<rparr>"

definition mxc1 :: js_string where
  "mxc1 = js ''mxc://hs/abc''"

text \<open>A locator whose media id is a lone high surrogate.\<close>

definition mxc_surrogate :: js_string where
  "mxc_surrogate = js ''mxc://hs/'' @ [0xD800]"
section \<open>Properties of sending and echo suppression\<close>

lemma ack_loop_all_resolve:
  "(\<forall>(u, d) \<in> set ps. setDeviceKnown env u d = None) \<Longrightarrow>
   ack_loop env ps s = (None, s\<lparr>calls := calls s @ map (\<lambda>(u, d). SetDeviceKnown u d) ps\<rparr>)"
  by (induction ps arbitrary: s) (auto simp: Let_def)

lemma sends_made_append:
  "sends_made (s\<lparr>calls := calls s @ cs\<rparr>) = sends_made s + length (filter is_send cs)"
  by (simp add: sends_made_def)

lemma filter_is_send_acks [simp]:
  "filter is_send (map (\<lambda>(u, d). SetDeviceKnown u d) ps) = []"
  by (induction ps) auto

lemma mgr_sent_eq:
  "mgr_sent = mgr0\<lparr>calls := [SendText ''!room'' (js ''hi'')], pendingEchos := {''$e1''}, timers := [(5000, ''$e1'')]\<rparr>"
  by (simp add: mgr_sent_def sendMessage_def mgr0_def env_ok_def do_send_def sends_made_def
      register_echo_def js_trim_def js_space_def js_def Let_def)

lemma handler_keeps_echos:
  "pendingEchos (handleRoomTimelineEvent event roomId s) = pendingEchos s"
  by (simp add: handleRoomTimelineEvent_def Let_def)

lemma ack_loop_frame:
  "ack_loop env ps s = (r, s') \<Longrightarrow> \<exists>cs. s' = s\<lparr>calls := calls s @ cs\<rparr> \<and> filter is_send cs = []"
proof (induction ps arbitrary: s)
  case Nil
  then show ?case by (auto intro: exI[of _ "[]"])
next
  case (Cons p ps)
  obtain u d where p: "p = (u, d)" by (cases p)
  show ?case
  proof (cases "setDeviceKnown env u d")
    case None
    with Cons.prems p have "ack_loop env ps (s\<lparr>calls := calls s @ [SetDeviceKnown u d]\<rparr>) = (r, s')"
      by (simp add: Let_def)
    from Cons.IH[OF this] obtain cs where
      "s' = s\<lparr>calls := calls s @ [SetDeviceKnown u d] @ cs\<rparr>" "filter is_send cs = []"
      by auto
    then show ?thesis
      by (intro exI[of _ "SetDeviceKnown u d # cs"]) simp
  next
    case (Some e)
    with Cons.prems p have "s' = s\<lparr>calls := calls s @ [SetDeviceKnown u d]\<rparr>"
      by (simp add: Let_def)
    then show ?thesis
      by (intro exI[of _ "[SetDeviceKnown u d]"]) simp
  qed
qed

lemma ack_loop_some_reject:
  "\<exists>(u, d) \<in> set ps. setDeviceKnown env u d \<noteq> None \<Longrightarrow> \<exists>e. fst (ack_loop env ps s) = Some e"
proof (induction ps arbitrary: s)
  case Nil
  then show ?case by simp
next
  case (Cons p ps)
  obtain u d where p: "p = (u, d)" by (cases p)
  show ?case
  proof (cases "setDeviceKnown env u d")
    case None
    with Cons.prems p have "\<exists>(u, d) \<in> set ps. setDeviceKnown env u d \<noteq> None" by auto
    from Cons.IH[OF this] show ?thesis using None p by (simp add: Let_def)
  next
    case (Some e)
    then show ?thesis using p by (simp add: Let_def)
  qed
qed

lemma sendMessage_registers:
  assumes "sendMessage env roomId message s0 = (res, s)"
    and "eid \<in> pendingEchos s" and "eid \<notin> pendingEchos s0"
  shows "(clock s0 + 5000, eid) \<in> set (timers s) \<and> clock s = clock s0"
  using assms
  by (auto simp: sendMessage_def do_send_def register_echo_def acknowledgeUnknownDevicesInRoom_def
      Let_def split: if_splits send_outcome.splits option.splits prod.splits
      dest!: ack_loop_frame)

lemma advance_fires:
  "(t, eid) \<in> set (timers s) \<Longrightarrow> t \<le> clock s + ms \<Longrightarrow> eid \<notin> pendingEchos (advance ms s)"
  by (force simp: advance_def Let_def)

lemma sendMessage_timers:
  assumes "sendMessage env roomId message s0 = (res, s)"
  shows "clock s = clock s0 \<and> pendingEchos s0 \<subseteq> pendingEchos s \<and>
         (\<forall>(t, e) \<in> set (timers s). (t, e) \<in> set (timers s0) \<or> t = clock s0 + 5000)"
  using assms
  by (auto simp: sendMessage_def do_send_def register_echo_def acknowledgeUnknownDevicesInRoom_def
      Let_def split: if_splits send_outcome.splits option.splits prod.splits
      dest!: ack_loop_frame)

lemma advance_keeps:
  "eid \<in> pendingEchos s \<Longrightarrow> \<forall>(t, e) \<in> set (timers s). e = eid \<longrightarrow> clock s + ms < t \<Longrightarrow>
   eid \<in> pendingEchos (advance ms s)"
  by (auto simp: advance_def Let_def)

lemma registration_lasts:
  assumes "sendMessage env roomId message s0 = (res, s)" and "eid \<in> pendingEchos s"
    and "\<forall>(t, e) \<in> set (timers s0). e \<noteq> eid" and "ms < 5000"
  shows "eid \<in> pendingEchos (advance ms s)"
proof -
  from sendMessage_timers[OF assms(1)] assms(3,4)
  have "\<forall>(t, e) \<in> set (timers s). e = eid \<longrightarrow> clock s + ms < t" by fastforce
  with assms(2) show ?thesis by (rule advance_keeps)
qed

subsection \<open>Echo suppression\<close>

text \<open>
  Claim C1, as the code has it: an inbound timeline event whose id is registered in
  \<open>pendingEchos\<close> is dropped by \<open>handleRoomTimelineEvent\<close>, which returns the manager
  unchanged; no call of the handler, whatever the event, removes a registration, so every
  further inbound event with that id is dropped as well while the id stays registered.  The
  registration made by \<open>sendMessage\<close> is removed by its timer and by nothing else: it is
  still there as long as less than 5000 ms have passed since the send (no older timer for
  the same id being pending), and it is gone once 5000 ms or more have passed.
\<close>

theorem echo_suppressed_until_timer:
  assumes "eid \<in> pendingEchos s" and "te_id event = eid"
  shows "handleRoomTimelineEvent event room s = s \<and>
         (\<forall>ev r. pendingEchos (handleRoomTimelineEvent ev r s) = pendingEchos s) \<and>
         (\<forall>env roomId message s0 res (ms::nat).
            sendMessage env roomId message s0 = (res, s) \<and> eid \<notin> pendingEchos s0 \<and> 5000 \<le> ms
            \<longrightarrow> eid \<notin> pendingEchos (advance ms s)) \<and>
         (\<forall>env roomId message s0 res (ms::nat).
            sendMessage env roomId message s0 = (res, s) \<and>
            (\<forall>(t, e) \<in> set (timers s0). e \<noteq> eid) \<and> ms < 5000
            \<longrightarrow> eid \<in> pendingEchos (advance ms s))"
proof (intro conjI allI impI)
  show "handleRoomTimelineEvent event room s = s"
    using assms by (simp add: handleRoomTimelineEvent_def)
next
  fix ev r show "pendingEchos (handleRoomTimelineEvent ev r s) = pendingEchos s"
    by (rule handler_keeps_echos)
next
  fix env roomId message s0 res and ms :: nat
  assume h: "sendMessage env roomId message s0 = (res, s) \<and> eid \<notin> pendingEchos s0 \<and> 5000 \<le> ms"
  then have "(clock s0 + 5000, eid) \<in> set (timers s) \<and> clock s = clock s0"
    using sendMessage_registers assms(1) by blast
  then show "eid \<notin> pendingEchos (advance ms s)"
    using h advance_fires[of "clock s0 + 5000" eid s ms] by simp
next
  fix env roomId message s0 res and ms :: nat
  assume h: "sendMessage env roomId message s0 = (res, s) \<and>
            (\<forall>(t, e) \<in> set (timers s0). e \<noteq> eid) \<and> ms < 5000"
  then show "eid \<in> pendingEchos (advance ms s)"
    using registration_lasts[of env roomId message s0 res s eid ms] assms(1) by blast
qed

text \<open>
  Claim C1, the theorem run on a send answered with \<open>$e1\<close> followed by its echo.
\<close>

theorem echo_suppressed_until_timer_witness:
  "''$e1'' \<in> pendingEchos mgr_sent \<and> te_id echo1 = ''$e1'' \<and>
   handleRoomTimelineEvent echo1 ''!room'' mgr_sent = mgr_sent \<and>
   ''$e1'' \<in> pendingEchos (advance 4999 mgr_sent) \<and>
   ''$e1'' \<notin> pendingEchos (advance 5000 mgr_sent)"
proof -
  have a: "''$e1'' \<in> pendingEchos mgr_sent" by (simp add: mgr_sent_eq)
  have b: "te_id echo1 = ''$e1''" by (simp add: echo1_def)
  have c: "sendMessage env_ok ''!room'' (Some (js ''hi'')) mgr0 = (Inr (), mgr_sent)"
    by (simp add: mgr_sent_def sendMessage_def mgr0_def env_ok_def do_send_def Let_def
        js_trim_def js_space_def js_def split: prod.splits)
  have d: "''$e1'' \<notin> pendingEchos mgr0" "\<forall>(t, e) \<in> set (timers mgr0). e \<noteq> ''$e1''"
    by (simp_all add: mgr0_def)
  have e: "(4999::nat) < 5000" "(5000::nat) \<le> 5000" by simp_all
  from echo_suppressed_until_timer[OF a b, of "''!room''"] a b c d e show ?thesis by blast
qed

text \<open>
  Claim C1 as written fails: after \<open>$e1\<close> has been sent and its echo dropped once, the
  id is still registered, and a second inbound event with the same id is dropped too
  (nothing has been handed to \<open>addMessageToUI\<close> after both).
\<close>

theorem echo_not_removed_on_match:
  "''$e1'' \<in> pendingEchos (handleRoomTimelineEvent echo1 ''!room'' mgr_sent) \<and>
   uiInserted (handleRoomTimelineEvent echo1 ''!room'' (handleRoomTimelineEvent echo1 ''!room'' mgr_sent)) = []"
  by (simp add: mgr_sent_eq handleRoomTimelineEvent_def echo1_def mgr0_def)

subsection \<open>Retry after an unknown-device failure\<close>

lemma ack_loop_first_rejection:
  "(\<forall>(u', d') \<in> set ps1. setDeviceKnown env u' d' = None) \<Longrightarrow> setDeviceKnown env u d = Some e \<Longrightarrow>
   ack_loop env (ps1 @ (u, d) # ps2) s =
     (Some e, s\<lparr>calls := calls s @ map (\<lambda>(u, d). SetDeviceKnown u d) (ps1 @ [(u, d)])\<rparr>)"
  by (induction ps1 arbitrary: s) (auto simp: Let_def)

text \<open>
  Claim C3, as the code has it.  Let the first \<open>sendTextMessage\<close> of a \<open>sendMessage\<close>
  call fail with an error named \<open>UnknownDeviceError\<close>.  If every \<open>setDeviceKnown\<close> for the
  devices reported in the error resolves, the client sees exactly: the first send, one
  \<open>setDeviceKnown\<close> per reported device in order, the sweep of the room, and one retry of
  the same send; the promise resolves if the retry resolves and rejects with the retry's
  error otherwise.  If some \<open>setDeviceKnown\<close> rejects, no retry is made and the promise
  rejects; more precisely, when the first rejecting call is the one for the device \<open>d\<close>
  of \<open>u\<close> and it rejects with \<open>e\<close>, the promise rejects with that very \<open>e\<close>, and the
  client has seen the first send and the acknowledgements up to and including the
  rejected one, and nothing else.  In every case at most two sends are made.
\<close>

theorem unknown_device_retry:
  assumes guard: "hasClient s" "roomId \<noteq> []" "js_trim m \<noteq> []"
    and first: "sendTextMessage env (sends_made s) = SendFail err"
    and unknown: "err_name err = ''UnknownDeviceError''"
  shows "((\<forall>(u, d) \<in> set (reported_devices err). setDeviceKnown env u d = None) \<longrightarrow>
            calls (snd (sendMessage env roomId (Some m) s)) =
              calls s @ [SendText roomId (js_trim m)]
                @ map (\<lambda>(u, d). SetDeviceKnown u d) (reported_devices err)
                @ [AckSweep roomId, SendText roomId (js_trim m)]
            \<and> fst (sendMessage env roomId (Some m) s) =
                (case sendTextMessage env (sends_made s + 1) of
                   SendOk resp \<Rightarrow> Inr () | SendFail e2 \<Rightarrow> Inl e2))
       \<and> ((\<exists>(u, d) \<in> set (reported_devices err). setDeviceKnown env u d \<noteq> None) \<longrightarrow>
            sends_made (snd (sendMessage env roomId (Some m) s)) = sends_made s + 1
            \<and> (\<exists>e. fst (sendMessage env roomId (Some m) s) = Inl e))
       \<and> (reported_devices err = ps1 @ (u, d) # ps2 \<and>
            (\<forall>(u', d') \<in> set ps1. setDeviceKnown env u' d' = None) \<and>
            setDeviceKnown env u d = Some e \<longrightarrow>
            fst (sendMessage env roomId (Some m) s) = Inl e
            \<and> calls (snd (sendMessage env roomId (Some m) s)) =
                calls s @ [SendText roomId (js_trim m)]
                  @ map (\<lambda>(u, d). SetDeviceKnown u d) (ps1 @ [(u, d)]))
       \<and> sends_made (snd (sendMessage env roomId (Some m) s)) \<le> sends_made s + 2"
proof -
  let ?s1 = "s\<lparr>calls := calls s @ [SendText roomId (js_trim m)]\<rparr>"
  let ?ps = "reported_devices err"
  have unfold: "sendMessage env roomId (Some m) s =
      (case ack_loop env ?ps ?s1 of
         (Some e2, s2) \<Rightarrow> (Inl e2, s2)
       | (None, s2) \<Rightarrow>
           let s3 = acknowledgeUnknownDevicesInRoom roomId s2;
               (r2, s4) = do_send env roomId (js_trim m) s3
           in (case r2 of
                 SendOk resp \<Rightarrow> (Inr (), register_echo resp s4)
               | SendFail e2 \<Rightarrow> (Inl e2, s4)))"
    using guard first unknown by (simp add: sendMessage_def do_send_def Let_def)
  have s1_sends: "sends_made ?s1 = sends_made s + 1"
    by (simp add: sends_made_def)
  have A: "calls (snd (sendMessage env roomId (Some m) s)) =
              calls s @ [SendText roomId (js_trim m)]
                @ map (\<lambda>(u, d). SetDeviceKnown u d) ?ps
                @ [AckSweep roomId, SendText roomId (js_trim m)]
            \<and> fst (sendMessage env roomId (Some m) s) =
                (case sendTextMessage env (sends_made s + 1) of
                   SendOk resp \<Rightarrow> Inr () | SendFail e2 \<Rightarrow> Inl e2)"
    if ok: "\<forall>(u, d) \<in> set ?ps. setDeviceKnown env u d = None"
  proof -
    have "ack_loop env ?ps ?s1 =
        (None, ?s1\<lparr>calls := calls ?s1 @ map (\<lambda>(u, d). SetDeviceKnown u d) ?ps\<rparr>)"
      using ok by (rule ack_loop_all_resolve)
    then show ?thesis
      unfolding unfold
      by (simp add: acknowledgeUnknownDevicesInRoom_def do_send_def sends_made_def
          register_echo_def Let_def split: send_outcome.splits option.splits)
  qed
  have B: "sends_made (snd (sendMessage env roomId (Some m) s)) = sends_made s + 1
            \<and> (\<exists>e. fst (sendMessage env roomId (Some m) s) = Inl e)"
    if bad: "\<exists>(u, d) \<in> set ?ps. setDeviceKnown env u d \<noteq> None"
  proof -
    from ack_loop_some_reject[OF bad] obtain e s2 where r: "ack_loop env ?ps ?s1 = (Some e, s2)"
      by (metis prod.collapse)
    from ack_loop_frame[OF r] obtain cs where
      s2: "s2 = ?s1\<lparr>calls := calls ?s1 @ cs\<rparr>" "filter is_send cs = []" by blast
    have "sends_made s2 = sends_made s + 1"
      using s2 by (simp add: sends_made_def)
    then show ?thesis unfolding unfold r by simp
  qed
  have B': "fst (sendMessage env roomId (Some m) s) = Inl e
            \<and> calls (snd (sendMessage env roomId (Some m) s)) =
                calls s @ [SendText roomId (js_trim m)]
                  @ map (\<lambda>(u, d). SetDeviceKnown u d) (ps1 @ [(u, d)])"
    if h: "?ps = ps1 @ (u, d) # ps2 \<and>
            (\<forall>(u', d') \<in> set ps1. setDeviceKnown env u' d' = None) \<and>
            setDeviceKnown env u d = Some e"
  proof -
    from h have ok1: "\<forall>(u', d') \<in> set ps1. setDeviceKnown env u' d' = None"
      and rej: "setDeviceKnown env u d = Some e" and ps: "?ps = ps1 @ (u, d) # ps2" by simp_all
    have "ack_loop env ?ps ?s1 =
        (Some e, ?s1\<lparr>calls := calls ?s1 @ map (\<lambda>(u, d). SetDeviceKnown u d) (ps1 @ [(u, d)])\<rparr>)"
      unfolding ps using ok1 rej by (rule ack_loop_first_rejection)
    then show ?thesis unfolding unfold by simp
  qed
  have C: "sends_made (snd (sendMessage env roomId (Some m) s)) \<le> sends_made s + 2"
  proof (cases "\<forall>(u, d) \<in> set ?ps. setDeviceKnown env u d = None")
    case True
    from A[OF True] show ?thesis by (simp add: sends_made_def)
  next
    case False
    then have "\<exists>(u, d) \<in> set ?ps. setDeviceKnown env u d \<noteq> None" by auto
    from B[OF this] show ?thesis by simp
  qed
  from A B B' C show ?thesis by blast
qed

text \<open>
  Claim C3, the theorem run on a client whose first send fails on the unknown device
  \<open>DEV1\<close> of \<open>@bob:hs\<close> and whose retry fails with a connection error (the promise
  rejects with the error of the retry), and on a client that rejects the acknowledgement
  of that device with a connection error (the promise rejects with that error, not with
  the \<open>UnknownDeviceError\<close> of the send, after one send and one acknowledgement).
\<close>

theorem unknown_device_retry_witness:
  "hasClient mgr0 \<and> js_trim (js '' hi '') = js ''hi'' \<and> js ''hi'' \<noteq> [] \<and>
   sendTextMessage env_retry_fails (sends_made mgr0) = SendFail unknown_device_error \<and>
   err_name unknown_device_error = ''UnknownDeviceError'' \<and>
   reported_devices unknown_device_error = [(''@bob:hs'', ''DEV1'')] \<and>
   setDeviceKnown env_retry_fails ''@bob:hs'' ''DEV1'' = None \<and>
   calls (snd (sendMessage env_retry_fails ''!room'' (Some (js '' hi '')) mgr0)) =
     [SendText ''!room'' (js ''hi''), SetDeviceKnown ''@bob:hs'' ''DEV1'', AckSweep ''!room'',
      SendText ''!room'' (js ''hi'')] \<and>
   fst (sendMessage env_retry_fails ''!room'' (Some (js '' hi '')) mgr0) = Inl network_error \<and>
   sendTextMessage env_ack_fails (sends_made mgr0) = SendFail unknown_device_error \<and>
   setDeviceKnown env_ack_fails ''@bob:hs'' ''DEV1'' = Some network_error \<and>
   network_error \<noteq> unknown_device_error \<and>
   fst (sendMessage env_ack_fails ''!room'' (Some (js '' hi '')) mgr0) = Inl network_error \<and>
   calls (snd (sendMessage env_ack_fails ''!room'' (Some (js '' hi '')) mgr0)) =
     [SendText ''!room'' (js ''hi''), SetDeviceKnown ''@bob:hs'' ''DEV1''] \<and>
   sends_made (snd (sendMessage env_ack_fails ''!room'' (Some (js '' hi '')) mgr0)) = 1"
proof -
  have g: "hasClient mgr0" "''!room'' \<noteq> []" "calls mgr0 = []" "sends_made mgr0 = 0"
    by (simp_all add: mgr0_def sends_made_def)
  have t: "js_trim (js '' hi '') = js ''hi''" "js ''hi'' \<noteq> []"
    by (simp_all add: js_trim_def js_space_def js_def)
  then have t': "js_trim (js '' hi '') \<noteq> []" by simp
  have f1: "sendTextMessage env_retry_fails (sends_made mgr0) = SendFail unknown_device_error"
    "sendTextMessage env_retry_fails (sends_made mgr0 + 1) = SendFail network_error"
    "setDeviceKnown env_retry_fails ''@bob:hs'' ''DEV1'' = None"
    by (simp_all add: env_retry_fails_def g)
  have f2: "sendTextMessage env_ack_fails (sends_made mgr0) = SendFail unknown_device_error"
    "setDeviceKnown env_ack_fails ''@bob:hs'' ''DEV1'' = Some network_error"
    by (simp_all add: env_ack_fails_def)
  have u: "err_name unknown_device_error = ''UnknownDeviceError''"
    "reported_devices unknown_device_error = [(''@bob:hs'', ''DEV1'')]"
    "network_error \<noteq> unknown_device_error"
    by (simp_all add: unknown_device_error_def network_error_def reported_devices_def)
  from unknown_device_retry[OF g(1,2) t' f1(1) u(1), of "[]" "''@bob:hs''" "''DEV1''" "[]" network_error]
    unknown_device_retry[OF g(1,2) t' f2(1) u(1), of "[]" "''@bob:hs''" "''DEV1''" "[]" network_error]
    g t f1 f2 u
  show ?thesis by simp
qed

text \<open>
  Claim C3 as written fails: when the first send fails with \<open>UnknownDeviceError\<close> and
  acknowledging the reported device is rejected, \<open>sendMessage\<close> makes one send only (no
  retry) and rejects with the error of the acknowledgement.
\<close>

theorem no_retry_when_acknowledgement_rejects:
  "sendTextMessage env_ack_fails (sends_made mgr0) = SendFail unknown_device_error \<and>
   err_name unknown_device_error = ''UnknownDeviceError'' \<and>
   sends_made (snd (sendMessage env_ack_fails ''!room'' (Some (js ''hi'')) mgr0)) = 1 \<and>
   fst (sendMessage env_ack_fails ''!room'' (Some (js ''hi'')) mgr0) = Inl network_error"
  by (simp add: sendMessage_def mgr0_def env_ack_fails_def do_send_def sends_made_def
      unknown_device_error_def reported_devices_def js_trim_def js_space_def js_def Let_def)

section \<open>Properties of the call session\<close>

lemma released_cleanup: "released (cleanup s)"
  by (simp add: released_def cleanup_def Let_def split: option.splits)

lemma stoppedTracks_cleanup: "stoppedTracks (cleanup s) = stoppedTracks s @ local_tracks s"
  by (simp add: cleanup_def local_tracks_def Let_def split: option.splits)

lemma released_effect [simp]: "released (effect e s) = released s"
  by (simp add: released_def effect_def)

lemma stoppedTracks_effect [simp]: "stoppedTracks (effect e s) = stoppedTracks s"
  by (simp add: effect_def)

lemma local_tracks_effect [simp]: "local_tracks (effect e s) = local_tracks s"
  by (simp add: effect_def local_tracks_def)

lemma released_showCallError [simp]: "released (showCallError m s) = released s"
  by (simp add: showCallError_def)

lemma stoppedTracks_showCallError [simp]: "stoppedTracks (showCallError m s) = stoppedTracks s"
  by (simp add: showCallError_def)

lemma local_tracks_showCallError [simp]: "local_tracks (showCallError m s) = local_tracks s"
  by (simp add: showCallError_def)

lemma hangup_releases:
  "released (hangup env s) \<and> stoppedTracks (hangup env s) = stoppedTracks s @ local_tracks s"
  by (simp add: hangup_def released_cleanup stoppedTracks_cleanup Let_def
      split: option.splits)

lemma ended_releases:
  "released (handleCallEnded s) \<and> stoppedTracks (handleCallEnded s) = stoppedTracks s @ local_tracks s"
  by (simp add: handleCallEnded_def released_cleanup stoppedTracks_cleanup)

lemma makeCall_failure_releases:
  assumes "makeCall_resume env roomId v s = (False, s')"
  shows "released s' \<and>
         stoppedTracks s' = stoppedTracks s @
           (case getUserMediaResult env v of MediaOk st \<Rightarrow> tracks st | _ \<Rightarrow> local_tracks s)"
proof (cases "getUserMediaResult env v")
  case (MediaOk st)
  with assms show ?thesis
    by (auto simp: makeCall_resume_def makeCall_catch_def getUserMedia_def released_cleanup
        stoppedTracks_cleanup Let_def local_tracks_def setupLocalVideo_def effect_def
        split: option.splits if_splits)
next
  case MediaNull
  with assms show ?thesis
    by (auto simp: makeCall_resume_def makeCall_catch_def getUserMedia_def released_cleanup
        stoppedTracks_cleanup Let_def)
next
  case (MediaFail e)
  with assms show ?thesis
    by (auto simp: makeCall_resume_def makeCall_catch_def getUserMedia_def released_cleanup
        stoppedTracks_cleanup Let_def)
qed

lemma incoming_failure_releases:
  assumes "(\<exists>st. getUserMediaResult env (call_type call = ''video'') = MediaOk st) \<longrightarrow>
           answerResult env (call_id call) \<noteq> None"
  shows "released (handleIncomingCall_resume env call True s) \<and>
         stoppedTracks (handleIncomingCall_resume env call True s) = stoppedTracks s @
           (case getUserMediaResult env (call_type call = ''video'') of
              MediaOk st \<Rightarrow> tracks st | _ \<Rightarrow> local_tracks s)"
proof (cases "getUserMediaResult env (call_type call = ''video'')")
  case (MediaOk st)
  with assms show ?thesis
    by (auto simp: handleIncomingCall_resume_def getUserMedia_def released_cleanup
        stoppedTracks_cleanup Let_def local_tracks_def setupLocalVideo_def effect_def
        split: option.splits if_splits)
next
  case MediaNull
  with assms show ?thesis
    by (auto simp: handleIncomingCall_resume_def getUserMedia_def released_cleanup
        stoppedTracks_cleanup local_tracks_def effect_def Let_def)
next
  case (MediaFail e)
  with assms show ?thesis
    by (auto simp: handleIncomingCall_resume_def getUserMedia_def released_cleanup
        stoppedTracks_cleanup local_tracks_def effect_def showCallError_def Let_def)
qed

lemma makeCall_while_in_call: "isInCall s \<Longrightarrow> makeCall env roomId v s = (False, s)"
  by (simp add: makeCall_def makeCall_begin_def)

lemma incoming_while_in_call:
  "isInCall s \<Longrightarrow> rejectResult env (call_id call) = None \<Longrightarrow>
   handleIncomingCall env call s = effect (RejectCall (call_id call)) s"
  by (simp add: handleIncomingCall_def handleIncomingCall_begin_def Let_def)

subsection \<open>One call at a time\<close>

lemma rtc_in_call4_eq:
  "rtc_in_call4 =
     \<lparr>currentCall = Some 4, localStream = Some (MediaStream [30, 31]), remoteStream = None,
      isVideo = True, isInCall = True, localVideoSrc = Some (MediaStream [30, 31]),
      remoteVideoSrc = None, stoppedTracks = [],
      effects = [ShowDialog 2, ShowDialog 4, GetUserMedia True, AttachHandlers 4,
                 AnswerCall 4 True, UpdateCallUI True True]\<rparr>"
  by (simp add: rtc_in_call4_def rtc_ringing24_def rtc_ringing2_def handleIncomingCall_begin_def
      handleIncomingCall_resume_def getUserMedia_def setupLocalVideo_def effect_def
      rtc_env_ok_def rtc_idle_def incoming2_def incoming4_def Let_def)

text \<open>
  Claim C4, the code run where it departs from the claim.

  First, two calls come in while the manager is idle.  Call 2 opens its dialog; call 4
  arrives while call 2 is ringing and is not rejected, because \<open>isInCall\<close> is set only
  once a call is accepted: it opens a second dialog.  The user accepts call 4, which is
  answered and becomes the active session (\<open>isInCall\<close> true, local tracks 30 and 31).  The
  user then accepts call 2 in the dialog that is still open: the guard is not looked at
  again, call 2 is answered as well, and \<open>currentCall\<close>, \<open>localStream\<close> and \<open>isVideo\<close> of
  the active session are overwritten.  Both calls have been answered, neither has been
  hung up, and the tracks 30 and 31 of the first session are never stopped.

  Second, a call is up (call object 1, local tracks 10 and 11) and a further call comes
  in whose \<open>reject()\<close> throws.  The \<open>catch\<close> block of \<open>handleIncomingCall\<close> then runs
  \<open>cleanup()\<close> on the active session: its local tracks are stopped and \<open>currentCall\<close>,
  \<open>localStream\<close>, \<open>remoteStream\<close>, \<open>isVideo\<close> and \<open>isInCall\<close> are reset.

  (With \<open>isInCall\<close> set and a \<open>reject()\<close> that returns, \<open>incoming_while_in_call\<close> above
  shows the state untouched, and \<open>makeCall_while_in_call\<close> shows the outgoing attempt
  refused.)
\<close>

theorem active_call_not_protected:
  "fst (handleIncomingCall_begin rtc_env_ok incoming4 rtc_ringing2) = DialogOpen \<and>
   isInCall rtc_in_call4 \<and> currentCall rtc_in_call4 = Some 4 \<and>
   localStream rtc_in_call4 = Some (MediaStream [30, 31]) \<and>
   rtc_both_answered =
     rtc_in_call4\<lparr>currentCall := Some 2, localStream := Some (MediaStream [40]),
                   isVideo := False,
                   effects := effects rtc_in_call4 @
                     [GetUserMedia False, AttachHandlers 2, AnswerCall 2 False,
                      UpdateCallUI True False]\<rparr> \<and>
   stoppedTracks rtc_both_answered = [] \<and>
   isInCall rtc_busy \<and>
   handleIncomingCall rtc_env_reject_throws incoming2 rtc_busy =
     rtc_idle\<lparr>stoppedTracks := [10, 11], effects := [RejectCall 2]\<rparr>"
proof -
  have a: "fst (handleIncomingCall_begin rtc_env_ok incoming4 rtc_ringing2) = DialogOpen"
    by (simp add: rtc_ringing2_def handleIncomingCall_begin_def effect_def rtc_idle_def Let_def)
  have b: "rtc_both_answered =
     rtc_in_call4\<lparr>currentCall := Some 2, localStream := Some (MediaStream [40]),
                   isVideo := False,
                   effects := effects rtc_in_call4 @
                     [GetUserMedia False, AttachHandlers 2, AnswerCall 2 False,
                      UpdateCallUI True False]\<rparr>"
    by (simp add: rtc_both_answered_def rtc_in_call4_eq handleIncomingCall_resume_def
        getUserMedia_def effect_def rtc_env_ok_def incoming2_def Let_def)
  have c: "handleIncomingCall rtc_env_reject_throws incoming2 rtc_busy =
     rtc_idle\<lparr>stoppedTracks := [10, 11], effects := [RejectCall 2]\<rparr>"
    by (simp add: handleIncomingCall_def handleIncomingCall_begin_def rtc_busy_def rtc_idle_def
        rtc_env_reject_throws_def rtc_env_ok_def incoming2_def cleanup_def effect_def Let_def)
  have d: "isInCall rtc_busy" by (simp add: rtc_busy_def)
  have e: "stoppedTracks rtc_both_answered = []"
    by (simp add: b rtc_in_call4_eq)
  have f: "isInCall rtc_in_call4" "currentCall rtc_in_call4 = Some 4"
    "localStream rtc_in_call4 = Some (MediaStream [30, 31])"
    by (simp_all add: rtc_in_call4_eq)
  show ?thesis by (intro conjI a b c d e f)
qed

subsection \<open>Release of media on exit\<close>

text \<open>
  The exits that run \<open>cleanup()\<close>: a local \<open>hangup()\<close> (whether or not the call object's
  \<open>hangup()\<close> throws), the \<open>hangup\<close> event, the state \<open>ended\<close>, a \<open>makeCall\<close> that fails
  during setup (its second part returning \<open>false\<close>) and an accepted incoming call whose
  media capture or \<open>answer\<close> fails.  After each of them \<open>localStream\<close>, \<open>remoteStream\<close> and
  \<open>currentCall\<close> are \<open>null\<close>, \<open>isInCall\<close> is false, both video elements are cleared, and
  \<open>stop()\<close> has been called on every track of the local stream that the manager held when
  \<open>cleanup()\<close> ran (the stream just captured, or else the one held before).
\<close>

lemma exits_through_cleanup_release:
  "(released (hangup env s) \<and>
      stoppedTracks (hangup env s) = stoppedTracks s @ local_tracks s)
   \<and> (released (on_call_event HangupEvent s) \<and>
      stoppedTracks (on_call_event HangupEvent s) = stoppedTracks s @ local_tracks s)
   \<and> (released (on_call_event (StateEvent ''ended'') s) \<and>
      stoppedTracks (on_call_event (StateEvent ''ended'') s) = stoppedTracks s @ local_tracks s)
   \<and> (fst (makeCall_resume env roomId v s) = False \<longrightarrow>
      released (snd (makeCall_resume env roomId v s)) \<and>
      stoppedTracks (snd (makeCall_resume env roomId v s)) = stoppedTracks s @
        (case getUserMediaResult env v of MediaOk st \<Rightarrow> tracks st | _ \<Rightarrow> local_tracks s))
   \<and> (((\<exists>st. getUserMediaResult env (call_type call = ''video'') = MediaOk st) \<longrightarrow>
           answerResult env (call_id call) \<noteq> None) \<longrightarrow>
      released (handleIncomingCall_resume env call True s) \<and>
      stoppedTracks (handleIncomingCall_resume env call True s) = stoppedTracks s @
        (case getUserMediaResult env (call_type call = ''video'') of
           MediaOk st \<Rightarrow> tracks st | _ \<Rightarrow> local_tracks s))"
proof (intro conjI impI)
  show "released (hangup env s)"
    and "stoppedTracks (hangup env s) = stoppedTracks s @ local_tracks s"
    using hangup_releases by blast+
next
  show "released (on_call_event HangupEvent s)"
    and "stoppedTracks (on_call_event HangupEvent s) = stoppedTracks s @ local_tracks s"
    using ended_releases by (simp_all add: handleCallHangup_def)
next
  show "released (on_call_event (StateEvent ''ended'') s)"
    and "stoppedTracks (on_call_event (StateEvent ''ended'') s) = stoppedTracks s @ local_tracks s"
    using ended_releases by (simp_all add: handleCallStateChange_def)
next
  assume h: "fst (makeCall_resume env roomId v s) = False"
  then have m: "makeCall_resume env roomId v s = (False, snd (makeCall_resume env roomId v s))"
    by (metis prod.collapse)
  from makeCall_failure_releases[OF m]
  show "released (snd (makeCall_resume env roomId v s))"
    and "stoppedTracks (snd (makeCall_resume env roomId v s)) = stoppedTracks s @
        (case getUserMediaResult env v of MediaOk st \<Rightarrow> tracks st | _ \<Rightarrow> local_tracks s)"
    by blast+
next
  assume h: "(\<exists>st. getUserMediaResult env (call_type call = ''video'') = MediaOk st) \<longrightarrow>
           answerResult env (call_id call) \<noteq> None"
  from incoming_failure_releases[OF h]
  show "released (handleIncomingCall_resume env call True s)"
    and "stoppedTracks (handleIncomingCall_resume env call True s) = stoppedTracks s @
        (case getUserMediaResult env (call_type call = ''video'') of
           MediaOk st \<Rightarrow> tracks st | _ \<Rightarrow> local_tracks s)"
    by blast+
qed

text \<open>
  The handler of a call's \<open>error\<close> event, in any state and for any error, shows a message
  and does nothing else.
\<close>

lemma error_event_only_reports:
  "on_call_event (ErrorEvent err) s = s\<lparr>effects := effects s @ [ShowCallError (''Call error: '' @ error_text err)]\<rparr>"
  by (simp add: showCallError_def effect_def)

lemma rtc_both_answered_eq:
  "rtc_both_answered =
     \<lparr>currentCall = Some 2, localStream = Some (MediaStream [40]), remoteStream = None,
      isVideo = False, isInCall = True, localVideoSrc = Some (MediaStream [30, 31]),
      remoteVideoSrc = None, stoppedTracks = [],
      effects = [ShowDialog 2, ShowDialog 4, GetUserMedia True, AttachHandlers 4,
                 AnswerCall 4 True, UpdateCallUI True True, GetUserMedia False,
                 AttachHandlers 2, AnswerCall 2 False, UpdateCallUI True False]\<rparr>"
  by (simp add: rtc_both_answered_def rtc_in_call4_eq handleIncomingCall_resume_def
      getUserMedia_def effect_def rtc_env_ok_def incoming2_def Let_def)

text \<open>
  Claim C5, the code run where it departs from the claim.

  First, the call-error exit.  A video call is up (call object 1, local tracks 10 and 11,
  remote tracks 20 and 21) and the call object emits \<open>error\<close> (here an ICE failure).  The
  handler registered by \<open>setupCallEventHandlers\<close> shows the message and returns:
  \<open>isInCall\<close> is still true, \<open>currentCall\<close>, \<open>localStream\<close> and \<open>remoteStream\<close> are still
  held, both video elements still show their streams and no track has been stopped.  The
  \<open>hangup\<close> event and the state \<open>ended\<close>, handled right beside it, release everything on
  the same state and stop the tracks 10 and 11.

  Second, an exit that does reach \<open>cleanup()\<close> and still leaves tracks running.  After
  the two incoming calls 4 and 2 have both been accepted (the run of Claim C4, same
  defect), \<open>localStream\<close> holds the stream of call 2 (track 40) and the stream captured
  for call 4 (tracks 30 and 31) is referenced by nothing but the local video element.  A
  local \<open>hangup()\<close> then hangs up call 2 only, resets every field and stops track 40: the
  camera and microphone tracks 30 and 31 are never stopped.
\<close>

theorem call_error_exit_holds_media:
  "on_call_event (ErrorEvent ice_error) rtc_busy =
     rtc_busy\<lparr>effects := [ShowCallError ''Call error: ICE failed'']\<rparr> \<and>
   isInCall (on_call_event (ErrorEvent ice_error) rtc_busy) \<and>
   currentCall (on_call_event (ErrorEvent ice_error) rtc_busy) = Some 1 \<and>
   localStream (on_call_event (ErrorEvent ice_error) rtc_busy) = Some (MediaStream [10, 11]) \<and>
   remoteStream (on_call_event (ErrorEvent ice_error) rtc_busy) = Some (MediaStream [20, 21]) \<and>
   stoppedTracks (on_call_event (ErrorEvent ice_error) rtc_busy) = [] \<and>
   \<not> released (on_call_event (ErrorEvent ice_error) rtc_busy) \<and>
   released (on_call_event HangupEvent rtc_busy) \<and>
   stoppedTracks (on_call_event HangupEvent rtc_busy) = [10, 11] \<and>
   released (on_call_event (StateEvent ''ended'') rtc_busy) \<and>
   stoppedTracks (on_call_event (StateEvent ''ended'') rtc_busy) = [10, 11] \<and>
   local_tracks rtc_in_call4 = [30, 31] \<and>
   local_tracks rtc_both_answered = [40] \<and>
   stoppedTracks rtc_both_answered = [] \<and>
   released (hangup rtc_env_ok rtc_both_answered) \<and>
   stoppedTracks (hangup rtc_env_ok rtc_both_answered) = [40] \<and>
   effects (hangup rtc_env_ok rtc_both_answered) = effects rtc_both_answered @ [HangupCall 2]"
proof -
  have a: "on_call_event (ErrorEvent ice_error) rtc_busy =
     rtc_busy\<lparr>effects := [ShowCallError ''Call error: ICE failed'']\<rparr>"
    by (simp add: rtc_busy_def showCallError_def effect_def error_text_def ice_error_def)
  have b: "isInCall (on_call_event (ErrorEvent ice_error) rtc_busy)"
    "currentCall (on_call_event (ErrorEvent ice_error) rtc_busy) = Some 1"
    "localStream (on_call_event (ErrorEvent ice_error) rtc_busy) = Some (MediaStream [10, 11])"
    "remoteStream (on_call_event (ErrorEvent ice_error) rtc_busy) = Some (MediaStream [20, 21])"
    "stoppedTracks (on_call_event (ErrorEvent ice_error) rtc_busy) = []"
    "\<not> released (on_call_event (ErrorEvent ice_error) rtc_busy)"
    unfolding a by (simp_all add: rtc_busy_def released_def)
  have c: "released (on_call_event HangupEvent rtc_busy)"
    "stoppedTracks (on_call_event HangupEvent rtc_busy) = [10, 11]"
    "released (on_call_event (StateEvent ''ended'') rtc_busy)"
    "stoppedTracks (on_call_event (StateEvent ''ended'') rtc_busy) = [10, 11]"
    by (simp_all add: handleCallHangup_def handleCallStateChange_def ended_releases)
       (simp_all add: rtc_busy_def local_tracks_def)
  have d: "local_tracks rtc_in_call4 = [30, 31]" "local_tracks rtc_both_answered = [40]"
    "stoppedTracks rtc_both_answered = []"
    by (simp_all add: rtc_in_call4_eq rtc_both_answered_eq local_tracks_def)
  have e: "released (hangup rtc_env_ok rtc_both_answered)"
    "stoppedTracks (hangup rtc_env_ok rtc_both_answered) = [40]"
    by (simp_all add: hangup_releases d)
  have f: "effects (hangup rtc_env_ok rtc_both_answered) = effects rtc_both_answered @ [HangupCall 2]"
    by (simp add: rtc_both_answered_eq hangup_def rtc_env_ok_def cleanup_def effect_def Let_def)
  show ?thesis by (intro conjI a b c d e f)
qed

section \<open>Properties of the classifier\<close>

lemma or_else_nonempty: "b \<noteq> [] \<Longrightarrow> or_else a b \<noteq> []"
  by (simp add: or_else_def split: option.splits)

text \<open>
  Claim C9, as the code has it.  For an encrypted event whose decryption has failed,
  \<open>formatEventToMessage\<close> returns a message of kind \<open>error\<close> for that event, with
  \<open>isDecryptionFailure\<close> set and a text made of the lock sign and a reason that is not
  empty; the message does not depend on how the key request ends, so a rejected request
  is absorbed.  When the crypto collaborator offers one of the two key-request
  primitives the code probes for, exactly one key request for the event is issued; when
  it offers neither, none is issued and nothing else changes.
\<close>

theorem decryption_failure_classified:
  assumes "e_encrypted event" and "e_decryption_failure event"
  shows "m_kind (fst (formatEventToMessage cenv rm event s)) = KError
       \<and> m_isDecryptionFailure (fst (formatEventToMessage cenv rm event s))
       \<and> m_eventId (fst (formatEventToMessage cenv rm event s)) = e_id event
       \<and> (\<exists>reason. reason \<noteq> [] \<and>
             m_content (fst (formatEventToMessage cenv rm event s)) = lock_sign @ '' '' @ reason)
       \<and> fst (formatEventToMessage (cenv\<lparr>requestRoomKeyResult := outcome\<rparr>) rm event s)
           = fst (formatEventToMessage cenv rm event s)
       \<and> (keyApi cenv \<noteq> NoKeyRequestApi \<longrightarrow>
             snd (formatEventToMessage cenv rm event s)
               = s\<lparr>calls := calls s @ [RequestRoomKey (e_id event)]\<rparr>)
       \<and> (keyApi cenv = NoKeyRequestApi \<longrightarrow> snd (formatEventToMessage cenv rm event s) = s)"
proof -
  let ?reason = "or_else (e_unsigned_error event)
                   (or_else (e_failure_reason event) ''Unable to decrypt: keys not available.'')"
  have r: "?reason \<noteq> []" by (intro or_else_nonempty) simp
  have m: "fst (formatEventToMessage cenv rm event s) =
           (base_message s rm event)\<lparr>m_kind := KError, m_type := ''m.notice'',
              m_content := lock_sign @ '' '' @ ?reason, m_isDecryptionFailure := True\<rparr>" for cenv
    using assms by (simp add: formatEventToMessage_def Let_def)
  have k: "snd (formatEventToMessage cenv rm event s) = snd (request_key cenv event s)"
    using assms by (simp add: formatEventToMessage_def Let_def)
  show ?thesis
    using r unfolding m k
    by (auto simp: base_message_def request_key_def split: key_api.splits)
qed

text \<open>
  Claim C9, the theorem run on an undecryptable event of \<open>@bob:hs\<close>, once with a
  collaborator whose key request is rejected and once with one that has no key-request
  primitive.
\<close>

theorem decryption_failure_classified_witness:
  "e_encrypted undecryptable \<and> e_decryption_failure undecryptable \<and>
   keyApi crypto_rejecting \<noteq> NoKeyRequestApi \<and>
   requestRoomKeyResult crypto_rejecting (e_id undecryptable) = Some network_error \<and>
   m_kind (fst (formatEventToMessage crypto_rejecting room0 undecryptable mgr0)) = KError \<and>
   m_isDecryptionFailure (fst (formatEventToMessage crypto_rejecting room0 undecryptable mgr0)) \<and>
   m_content (fst (formatEventToMessage crypto_rejecting room0 undecryptable mgr0))
     = lock_sign @ '' Unable to decrypt: keys not available.'' \<and>
   calls (snd (formatEventToMessage crypto_rejecting room0 undecryptable mgr0)) = [RequestRoomKey ''$enc1''] \<and>
   keyApi crypto_without_api = NoKeyRequestApi \<and>
   snd (formatEventToMessage crypto_without_api room0 undecryptable mgr0) = mgr0"
proof -
  have a: "e_encrypted undecryptable" "e_decryption_failure undecryptable"
    by (simp_all add: undecryptable_def)
  have b: "keyApi crypto_rejecting \<noteq> NoKeyRequestApi"
    "requestRoomKeyResult crypto_rejecting (e_id undecryptable) = Some network_error"
    "keyApi crypto_without_api = NoKeyRequestApi"
    by (simp_all add: crypto_rejecting_def crypto_without_api_def)
  have c: "m_content (fst (formatEventToMessage crypto_rejecting room0 undecryptable mgr0))
     = lock_sign @ '' Unable to decrypt: keys not available.''"
    by (simp add: formatEventToMessage_def undecryptable_def or_else_def Let_def)
  have d: "calls mgr0 = []" "e_id undecryptable = ''$enc1''"
    by (simp_all add: mgr0_def undecryptable_def)
  from decryption_failure_classified[OF a, of crypto_rejecting room0 mgr0]
    decryption_failure_classified[OF a, of crypto_without_api room0 mgr0] a b c d
  show ?thesis by simp
qed

text \<open>
  Claim C9 as written fails: with a crypto collaborator that offers neither
  \<open>getCrypto().requestRoomKey\<close> nor \<open>requestRoomKeyForEvent\<close>, classifying an
  undecryptable event issues no key request.
\<close>

theorem no_key_request_without_primitive:
  "e_encrypted undecryptable \<and> e_decryption_failure undecryptable \<and>
   calls (snd (formatEventToMessage crypto_without_api room0 undecryptable mgr0)) = []"
  by (simp add: formatEventToMessage_def request_key_def crypto_without_api_def undecryptable_def
      mgr0_def Let_def)

section \<open>Properties of backward pagination\<close>

subsection \<open>The flags\<close>

lemma pagination_simps [simp]:
  "pagination (s\<lparr>box := b\<rparr>) = pagination s"
  "pagination (s\<lparr>observers := ob\<rparr>) = pagination s"
  "pagination (s\<lparr>rendering := r\<rparr>) = pagination s"
  "pagination (s\<lparr>fetching := f\<rparr>) = pagination s"
  "pagination (s\<lparr>loading := l\<rparr>) = pagination s"
  "pagination (s\<lparr>appRoomId := a\<rparr>) = pagination s"
  by (simp_all add: pagination_def)

lemma call_createMessageElement_pagination:
  "call_createMessageElement surf m s = (r, s1) \<Longrightarrow> pagination s1 = pagination s"
  by (auto simp: call_createMessageElement_def set_document_els_def
      split: prod.splits option.splits)

lemma call_createMessageElement_box:
  "call_createMessageElement surf m s = (r, s1) \<Longrightarrow> (box s1 = None) = (box s = None)"
  by (auto simp: call_createMessageElement_def set_document_els_def
      split: prod.splits option.splits)

lemma loadMessages_loop_pagination:
  "pagination (loadMessages_loop surf r ms s) = pagination s"
proof (cases ms)
  case Nil
  then show ?thesis
    by (simp add: loadMessages_loop_def loadMessages_finish_def split: option.splits)
next
  case (Cons m rest)
  obtain p s1 where c: "call_createMessageElement surf m s = (p, s1)"
    by (cases "call_createMessageElement surf m s")
  with Cons call_createMessageElement_pagination[OF c] show ?thesis
    by (simp add: loadMessages_loop_def)
qed

lemma messages_arrive_pagination:
  "pagination (messages_arrive surf n ms s) = pagination s"
  by (simp add: messages_arrive_def loadMessages_resume_def loadMessages_loop_pagination Let_def
      split: option.splits prod.splits)

lemma load_resumes_pagination:
  "pagination (load_resumes surf n s) = pagination s"
  by (simp add: load_resumes_def loadMessages_continue_def loadMessages_loop_pagination
      append_element_def split: option.splits prod.splits sum.splits)

lemma openConversation_pagination:
  "pagination (openConversation r s) = pagination s"
  "pagination (loadMessages_begin r s) = pagination s"
  by (simp_all add: openConversation_def loadMessages_begin_def)

lemma addMessageToUI_begin_pagination:
  "pagination (addMessageToUI_begin surf m s) = pagination s"
proof -
  obtain p s1 where c: "call_createMessageElement surf m s = (p, s1)"
    by (cases "call_createMessageElement surf m s")
  with call_createMessageElement_pagination[OF c] show ?thesis
    by (simp add: addMessageToUI_begin_def split: option.splits)
qed

lemma live_resumes_pagination:
  "pagination (live_resumes surf n s) = pagination s"
  by (simp add: live_resumes_def addMessageToUI_continue_def
      split: option.splits prod.splits sum.splits)

lemma scroll_pagination:
  "pagination (app_step surf (UserScroll v) s) = pagination s"
  by (simp split: option.splits)

lemma begin_rejected:
  "isLoadingOlder s \<or> \<not> canLoadMore s \<Longrightarrow> loadOlderMessages_begin surf r s = (ReturnedAtOnce, s)"
  by (simp add: loadOlderMessages_begin_def)

lemma observers_rejected:
  "isLoadingOlder s \<or> \<not> canLoadMore s \<Longrightarrow> fold (observer_callback surf) obs s = s"
  by (induction obs) (auto simp: observer_callback_def)

lemma begin_awaiting:
  "loadOlderMessages_begin surf r s = (Awaiting, s1) \<Longrightarrow>
   isLoadingOlder s1 \<and> canLoadMore s1 \<and> \<not> isLoadingOlder s \<and>
   requests s1 = requests s @ [(r, 10)] \<and> length (suspended s1) = Suc (length (suspended s)) \<and>
   inserting s1 = inserting s"
  by (auto simp: loadOlderMessages_begin_def Let_def split: if_splits option.splits)

text \<open>
  While \<open>isLoadingOlder\<close> is set, no event other than the resumption of a suspended
  \<open>loadOlderMessages\<close> changes a flag, adds a request or touches an activation.
\<close>

lemma step_busy:
  assumes "isLoadingOlder s" and "\<not> resumes_older ev"
  shows "pagination (app_step surf ev s) = pagination s"
proof (cases ev)
  case (OpenConversation r)
  then show ?thesis by (simp add: openConversation_pagination)
next
  case (CallLoadMessages r)
  then show ?thesis by (simp add: openConversation_pagination)
next
  case (MessagesArrive n ms)
  then show ?thesis by (simp add: messages_arrive_pagination)
next
  case (LoadResumes n)
  then show ?thesis by (simp add: load_resumes_pagination)
next
  case SentinelVisible
  with assms show ?thesis by (simp add: observers_rejected)
next
  case (CallLoadOlder r)
  with assms show ?thesis by (simp add: begin_rejected)
next
  case (PageArrives p)
  with assms show ?thesis by simp
next
  case InsertionResumes
  with assms show ?thesis by simp
next
  case (LiveMessage m)
  then show ?thesis by (simp add: addMessageToUI_begin_pagination)
next
  case (LiveResumes n)
  then show ?thesis by (simp add: live_resumes_pagination)
next
  case (UserScroll v)
  then show ?thesis using scroll_pagination by simp
qed

lemma run_busy:
  assumes "isLoadingOlder s" and "\<forall>ev \<in> set evs. \<not> resumes_older ev"
  shows "pagination (app_run surf evs s) = pagination s"
  using assms
proof (induction evs arbitrary: s)
  case Nil
  then show ?case by simp
next
  case (Cons ev evs)
  then have n: "\<not> resumes_older ev" and rest: "\<forall>ev \<in> set evs. \<not> resumes_older ev" by simp_all
  from step_busy[OF Cons.prems(1) n, of surf]
  have p: "pagination (app_step surf ev s) = pagination s" .
  with Cons.prems(1) have l: "isLoadingOlder (app_step surf ev s)" by (simp add: pagination_def)
  from Cons.IH[OF l rest] p show ?case by simp
qed

subsection \<open>One activation at a time\<close>

lemma loop_pagination:
  "pagination (loadOlderMessages_loop surf f t ms s) =
     (if ms = [] then (False, canLoadMore s, requests s, suspended s, inserting s)
      else (isLoadingOlder s, canLoadMore s, requests s, suspended s,
            inserting s @ [\<lparr>i_frame = f, i_topSentinel = t,
                             i_awaited = fst (call_createMessageElement surf (hd ms) s),
                             i_rest = tl ms\<rparr>]))"
proof (cases ms)
  case Nil
  then show ?thesis
    by (simp add: loadOlderMessages_loop_def loadOlderMessages_finish_def pagination_def Let_def
        split: option.splits)
next
  case (Cons m rest)
  obtain p s1 where c: "call_createMessageElement surf m s = (p, s1)"
    by (cases "call_createMessageElement surf m s")
  from call_createMessageElement_pagination[OF c] Cons c show ?thesis
    by (simp add: loadOlderMessages_loop_def pagination_def)
qed

lemma resume_pagination:
  "pagination (loadOlderMessages_resume surf f p s) =
     (case box s of
        None \<Rightarrow> (False, p_canLoadMore p, requests s, suspended s, inserting s)
      | Some c \<Rightarrow>
          pagination (loadOlderMessages_loop surf f (sentinel c) (new_messages p c)
                        (s\<lparr>canLoadMore := p_canLoadMore p\<rparr>)))"
  by (simp add: loadOlderMessages_resume_def Let_def pagination_def split: option.splits)

lemma begin_inv: "app_inv s \<Longrightarrow> app_inv (snd (loadOlderMessages_begin surf r s))"
  by (auto simp: app_inv_def loadOlderMessages_begin_def Let_def split: option.splits)

lemma observer_callback_inv: "app_inv s \<Longrightarrow> app_inv (observer_callback surf r s)"
  by (simp add: observer_callback_def begin_inv)

lemma observers_inv: "app_inv s \<Longrightarrow> app_inv (fold (observer_callback surf) obs s)"
  by (induction obs arbitrary: s) (simp_all add: observer_callback_inv)

lemma app_inv_pagination: "pagination s' = pagination s \<Longrightarrow> app_inv s \<Longrightarrow> app_inv s'"
  by (simp add: pagination_def app_inv_def)

lemma loop_inv:
  assumes "suspended s = []" and "inserting s = []" and "isLoadingOlder s"
  shows "app_inv (loadOlderMessages_loop surf f t ms s)"
  using loop_pagination[of surf f t ms s] assms
  by (auto simp: pagination_def app_inv_def split: if_splits)

lemma page_arrives_inv: "app_inv s \<Longrightarrow> app_inv (page_arrives surf p s)"
proof (cases "suspended s")
  case Nil
  assume "app_inv s"
  with Nil show ?thesis by (simp add: page_arrives_def)
next
  case (Cons f rest)
  assume i: "app_inv s"
  with Cons have e: "rest = []" "inserting s = []" "isLoadingOlder s"
    by (auto simp: app_inv_def)
  let ?s = "s\<lparr>suspended := rest\<rparr>"
  show ?thesis
  proof (cases "box s")
    case None
    with Cons e show ?thesis
      by (simp add: page_arrives_def loadOlderMessages_resume_def app_inv_def Let_def)
  next
    case (Some c)
    have "app_inv (loadOlderMessages_loop surf f (sentinel c) (new_messages p c)
                     (?s\<lparr>canLoadMore := p_canLoadMore p\<rparr>))"
      using e by (intro loop_inv) simp_all
    with Cons Some show ?thesis
      by (simp add: page_arrives_def loadOlderMessages_resume_def Let_def)
  qed
qed

lemma insertion_resumes_inv: "app_inv s \<Longrightarrow> app_inv (insertion_resumes surf s)"
proof (cases "inserting s")
  case Nil
  assume "app_inv s"
  with Nil show ?thesis by (simp add: insertion_resumes_def)
next
  case (Cons i rest)
  assume inv: "app_inv s"
  with Cons have e: "rest = []" "suspended s = []" "isLoadingOlder s"
    by (auto simp: app_inv_def)
  let ?s = "s\<lparr>inserting := rest\<rparr>"
  have stop: "app_inv (?s\<lparr>isLoadingOlder := False\<rparr>)"
    using e by (simp add: app_inv_def)
  have go: "app_inv (loadOlderMessages_loop surf (i_frame i) (i_topSentinel i) (i_rest i) (?s\<lparr>box := b\<rparr>))" for b
    using e by (intro loop_inv) simp_all
  have go': "app_inv (loadOlderMessages_loop surf (i_frame i) (i_topSentinel i) (i_rest i) ?s)"
    using e by (intro loop_inv) simp_all
  from Cons stop go go' show ?thesis
    by (simp add: insertion_resumes_def loadOlderMessages_continue_def
        split: sum.splits option.splits)
qed

lemma app_step_inv: "app_inv s \<Longrightarrow> app_inv (app_step surf ev s)"
proof (cases ev)
  case (OpenConversation r)
  assume "app_inv s"
  then show ?thesis using OpenConversation app_inv_pagination[OF openConversation_pagination(1)]
    by simp
next
  case (CallLoadMessages r)
  assume "app_inv s"
  then show ?thesis using CallLoadMessages app_inv_pagination[OF openConversation_pagination(2)]
    by simp
next
  case (MessagesArrive n ms)
  assume "app_inv s"
  then show ?thesis using MessagesArrive app_inv_pagination[OF messages_arrive_pagination]
    by simp
next
  case (LoadResumes n)
  assume "app_inv s"
  then show ?thesis using LoadResumes app_inv_pagination[OF load_resumes_pagination]
    by simp
next
  case SentinelVisible
  assume "app_inv s"
  then show ?thesis using SentinelVisible by (simp add: observers_inv)
next
  case (CallLoadOlder r)
  assume "app_inv s"
  then show ?thesis using CallLoadOlder by (simp add: begin_inv)
next
  case (PageArrives p)
  assume "app_inv s"
  then show ?thesis using PageArrives by (simp add: page_arrives_inv)
next
  case InsertionResumes
  assume "app_inv s"
  then show ?thesis using InsertionResumes by (simp add: insertion_resumes_inv)
next
  case (LiveMessage m)
  assume "app_inv s"
  then show ?thesis using LiveMessage app_inv_pagination[OF addMessageToUI_begin_pagination]
    by simp
next
  case (LiveResumes n)
  assume "app_inv s"
  then show ?thesis using LiveResumes app_inv_pagination[OF live_resumes_pagination]
    by simp
next
  case (UserScroll v)
  assume "app_inv s"
  then show ?thesis using UserScroll app_inv_pagination[OF scroll_pagination]
    by simp
qed

lemma app_run_inv: "app_inv s \<Longrightarrow> app_inv (app_run surf evs s)"
  by (induction evs arbitrary: s) (simp_all add: app_step_inv)

lemma app0_inv: "app_inv app0"
  by (simp add: app_inv_def app0_def)

lemma pending_is_loading:
  "app_inv s \<Longrightarrow> suspended s \<noteq> [] \<or> inserting s \<noteq> [] \<Longrightarrow> isLoadingOlder s"
  by (auto simp: app_inv_def)

subsection \<open>Once the history is exhausted\<close>

lemma insertion_resumes_keeps:
  "canLoadMore (insertion_resumes surf s) = canLoadMore s \<and>
   requests (insertion_resumes surf s) = requests s \<and>
   suspended (insertion_resumes surf s) = suspended s"
proof (cases "inserting s")
  case Nil
  then show ?thesis by (simp add: insertion_resumes_def)
next
  case (Cons i rest)
  have l: "canLoadMore (loadOlderMessages_loop surf f t ms s') = canLoadMore s' \<and>
           requests (loadOlderMessages_loop surf f t ms s') = requests s' \<and>
           suspended (loadOlderMessages_loop surf f t ms s') = suspended s'" for f t ms s'
    using loop_pagination[of surf f t ms s'] by (simp add: pagination_def split: if_splits)
  from Cons show ?thesis
    by (simp add: insertion_resumes_def loadOlderMessages_continue_def l
        split: sum.splits option.splits)
qed

lemma step_exhausted:
  assumes "\<not> canLoadMore s" and "suspended s = []"
  shows "\<not> canLoadMore (app_step surf ev s) \<and> suspended (app_step surf ev s) = [] \<and>
         requests (app_step surf ev s) = requests s"
proof -
  have keep: "\<not> canLoadMore s' \<and> suspended s' = [] \<and> requests s' = requests s"
    if "pagination s' = pagination s" for s'
    using that assms by (simp add: pagination_def)
  show ?thesis
  proof (cases ev)
    case (OpenConversation r)
    then show ?thesis using keep[OF openConversation_pagination(1)] by simp
  next
    case (CallLoadMessages r)
    then show ?thesis using keep[OF openConversation_pagination(2)] by simp
  next
    case (MessagesArrive n ms)
    then show ?thesis using keep[OF messages_arrive_pagination] by simp
  next
    case (LoadResumes n)
    then show ?thesis using keep[OF load_resumes_pagination] by simp
  next
    case SentinelVisible
    with assms show ?thesis by (simp add: observers_rejected)
  next
    case (CallLoadOlder r)
    with assms show ?thesis by (simp add: begin_rejected)
  next
    case (PageArrives p)
    with assms show ?thesis by (simp add: page_arrives_def)
  next
    case InsertionResumes
    with assms insertion_resumes_keeps[of surf s] show ?thesis by simp
  next
    case (LiveMessage m)
    then show ?thesis using keep[OF addMessageToUI_begin_pagination] by simp
  next
    case (LiveResumes n)
    then show ?thesis using keep[OF live_resumes_pagination] by simp
  next
    case (UserScroll v)
    then show ?thesis using keep[OF scroll_pagination] by simp
  qed
qed

lemma run_exhausted:
  assumes "\<not> canLoadMore s" and "suspended s = []"
  shows "\<not> canLoadMore (app_run surf evs s) \<and> requests (app_run surf evs s) = requests s"
  using assms
proof (induction evs arbitrary: s)
  case Nil
  then show ?case by simp
next
  case (Cons ev evs)
  from step_exhausted[OF Cons.prems, of surf ev] Cons.IH[of "app_step surf ev s"]
  show ?case by simp
qed

subsection \<open>A call that nothing interrupts\<close>

text \<open>
  When nothing else runs between the arrival of the page and the end of the insertion
  loop, and the sentinel is in the container, the loop does to the container what
  \<open>insert_new\<close> says, one resumption for each message.
\<close>

lemma run_insertion_idle: "inserting s = [] \<Longrightarrow> run_insertion surf n s = s"
  by (induction n) (simp_all add: insertion_resumes_def)

lemma finish_inserting [simp]: "inserting (loadOlderMessages_finish surf f s) = inserting s"
  by (simp add: loadOlderMessages_finish_def Let_def split: option.splits)

lemma run_insertion_loop:
  assumes "box s = Some c" and "sentinel c = Some g" and "inserting s = []" and "length ms \<le> n"
  shows "run_insertion surf n (loadOlderMessages_loop surf f (Some g) ms s) =
     (case insert_new surf ms (children c) of
        (Some e, els) \<Rightarrow> s\<lparr>box := Some (c\<lparr>children := els\<rparr>), isLoadingOlder := False\<rparr>
      | (None, els) \<Rightarrow> loadOlderMessages_finish surf f (s\<lparr>box := Some (c\<lparr>children := els\<rparr>)\<rparr>))"
  using assms
proof (induction ms arbitrary: s c n)
  case Nil
  then have eq: "s\<lparr>box := Some c\<rparr> = s" by simp
  have "inserting (loadOlderMessages_finish surf f s) = []" using Nil by simp
  from run_insertion_idle[OF this] show ?case
    by (simp add: loadOlderMessages_loop_def eq)
next
  case (Cons m ms)
  from Cons.prems(4) obtain k where n: "n = Suc k" and k: "length ms \<le> k"
    by (cases n) simp_all
  obtain r els where cr: "createMessageElement surf m (children c) = (r, els)"
    by (cases "createMessageElement surf m (children c)")
  let ?c1 = "c\<lparr>children := els\<rparr>"
  let ?s1 = "s\<lparr>box := Some ?c1\<rparr>"
  have call: "call_createMessageElement surf m s = (r, ?s1)"
    using Cons.prems(1) cr
    by (simp add: call_createMessageElement_def document_els_def set_document_els_def)
  have idle: "s\<lparr>inserting := []\<rparr> = s" using Cons.prems(3) by simp
  have idle1: "?s1\<lparr>inserting := []\<rparr> = ?s1" using Cons.prems(3) by simp
  have step: "insertion_resumes surf (loadOlderMessages_loop surf f (Some g) (m # ms) s) =
        loadOlderMessages_continue surf
          \<lparr>i_frame = f, i_topSentinel = Some g, i_awaited = r, i_rest = ms\<rparr> ?s1"
    using call Cons.prems(3)
    by (simp add: loadOlderMessages_loop_def insertion_resumes_def idle1)
  show ?case
  proof (cases r)
    case (Inl e)
    have "inserting (?s1\<lparr>isLoadingOlder := False\<rparr>) = []" using Cons.prems(3) by simp
    from run_insertion_idle[OF this, of surf k] Inl cr n step show ?thesis
      by (simp add: loadOlderMessages_continue_def)
  next
    case (Inr o1)
    show ?thesis
    proof (cases o1)
      case None
      have b: "box ?s1 = Some ?c1" "sentinel ?c1 = Some g" "inserting ?s1 = []"
        using Cons.prems by simp_all
      from Cons.IH[OF b k] Inr None cr n step show ?thesis
        by (simp add: loadOlderMessages_continue_def split: prod.splits option.splits)
    next
      case (Some el)
      let ?c2 = "?c1\<lparr>children := el # children ?c1\<rparr>"
      let ?s2 = "?s1\<lparr>box := Some ?c2\<rparr>"
      have b: "box ?s2 = Some ?c2" "sentinel ?c2 = Some g" "inserting ?s2 = []"
        using Cons.prems by simp_all
      from Cons.IH[OF b k] Inr Some cr n step Cons.prems(2) show ?thesis
        by (simp add: loadOlderMessages_continue_def insert_after_sentinel_def
            split: prod.splits option.splits)
    qed
  qed
qed

lemma uninterrupted_loadOlder:
  assumes inv: "app_inv s" and box: "box s = Some c" and sen: "sentinel c = Some g"
    and begun: "loadOlderMessages_begin surf roomId s = (Awaiting, s1)"
  shows "loadOlderMessages surf roomId result s =
     (case insert_new surf (new_messages result c) (children c) of
        (Some e, els) \<Rightarrow>
          s\<lparr>requests := requests s @ [(roomId, 10)], canLoadMore := p_canLoadMore result,
            box := Some (c\<lparr>children := els\<rparr>), isLoadingOlder := False\<rparr>
      | (None, els) \<Rightarrow>
          s\<lparr>requests := requests s @ [(roomId, 10)], canLoadMore := p_canLoadMore result,
            box := Some (set_scrollTop surf
                           (scrollTop c + (scrollHeight surf (c\<lparr>children := els\<rparr>) - scrollHeight surf c))
                           (c\<lparr>children := els\<rparr>)),
            isLoadingOlder := False\<rparr>)"
proof -
  let ?f = "\<lparr>f_roomId = roomId, prevScrollHeight = scrollHeight surf c, prevScrollTop = scrollTop c\<rparr>"
  from begin_awaiting[OF begun] have nl: "\<not> isLoadingOlder s" by simp
  with inv have e: "suspended s = []" "inserting s = []" by (auto simp: app_inv_def)
  have s1: "s1 = s\<lparr>isLoadingOlder := True, requests := requests s @ [(roomId, 10)],
                    suspended := [?f]\<rparr>"
    using begun box e by (auto simp: loadOlderMessages_begin_def Let_def split: if_splits)
  let ?s2 = "s\<lparr>isLoadingOlder := True, requests := requests s @ [(roomId, 10)],
               suspended := [], canLoadMore := p_canLoadMore result\<rparr>"
  have idle: "s\<lparr>suspended := []\<rparr> = s" using e by simp
  have arr: "page_arrives surf result s1 =
        loadOlderMessages_loop surf ?f (Some g) (new_messages result c) ?s2"
    using box sen by (simp add: s1 page_arrives_def loadOlderMessages_resume_def Let_def)
  have b: "box ?s2 = Some c" "inserting ?s2 = []" using box e by simp_all
  have len: "length (new_messages result c) \<le> length (p_messages result)"
    by (simp add: new_messages_def)
  have same: "?s2\<lparr>isLoadingOlder := False\<rparr> =
        s\<lparr>requests := requests s @ [(roomId, 10)], canLoadMore := p_canLoadMore result,
          isLoadingOlder := False\<rparr>"
    using e by simp
  from run_insertion_loop[OF b(1) sen b(2) len, of surf ?f] arr begun
  show ?thesis
    using e
    by (simp add: loadOlderMessages_def loadOlderMessages_finish_def Let_def
        split: prod.splits option.splits)
qed

text \<open>
  Then the ids of the container afterwards are the ids before, preceded by ids of the
  page that were not there: if the container held no id twice and the page names no event
  twice, the container holds no id twice afterwards.
\<close>

lemma edit_first_ids [simp]: "map el_event_id (edit_first t b els) = map el_event_id els"
  by (induction els) (auto split: option.splits)

lemma createMessageElement_ids:
  "createMessageElement surf m els = (r, els') \<Longrightarrow>
   map el_event_id els' = map el_event_id els \<and>
   (\<forall>el. r = Inr (Some el) \<longrightarrow> el_event_id el = m_eventId m)"
  by (auto simp: createMessageElement_def split: if_splits msg_kind.splits option.splits)

lemma insert_new_ids:
  "\<exists>new. map el_event_id (snd (insert_new surf ms els)) = new @ map el_event_id els \<and>
         set new \<subseteq> set (map m_eventId ms) \<and>
         (distinct (map m_eventId ms) \<longrightarrow> distinct new)"
proof (induction ms arbitrary: els)
  case Nil
  show ?case by simp
next
  case (Cons m ms)
  obtain r els' where c: "createMessageElement surf m els = (r, els')"
    by (cases "createMessageElement surf m els")
  note ids = createMessageElement_ids[OF c]
  show ?case
  proof (cases r)
    case (Inl e)
    with c ids show ?thesis by simp
  next
    case (Inr o1)
    show ?thesis
    proof (cases o1)
      case None
      from Cons.IH[of els'] obtain new where
        n: "map el_event_id (snd (insert_new surf ms els')) = new @ map el_event_id els'"
           "set new \<subseteq> set (map m_eventId ms)"
           "distinct (map m_eventId ms) \<longrightarrow> distinct new" by blast
      with c ids Inr None show ?thesis by (intro exI[of _ new]) auto
    next
      case (Some el)
      from Cons.IH[of "el # els'"] obtain new where
        n: "map el_event_id (snd (insert_new surf ms (el # els'))) = new @ map el_event_id (el # els')"
           "set new \<subseteq> set (map m_eventId ms)"
           "distinct (map m_eventId ms) \<longrightarrow> distinct new" by blast
      from ids Inr Some have eid: "el_event_id el = m_eventId m" by simp
      with c ids Inr Some n show ?thesis
        by (intro exI[of _ "new @ [m_eventId m]"]) auto
    qed
  qed
qed

lemma new_messages_ids:
  "set (map m_eventId (new_messages p c)) \<subseteq> set (map m_eventId (p_messages p)) - set (map el_event_id (children c))"
  by (auto simp: new_messages_def)

lemma new_messages_distinct:
  "distinct (map m_eventId (p_messages p)) \<Longrightarrow> distinct (map m_eventId (new_messages p c))"
  by (simp add: new_messages_def distinct_map_filter)

lemma uninterrupted_no_duplicates:
  assumes inv: "app_inv s" and box: "box s = Some c" and sen: "sentinel c = Some g"
    and begun: "loadOlderMessages_begin surf roomId s = (Awaiting, s1)"
    and before: "distinct (materialized s)"
    and page: "distinct (map m_eventId (p_messages result))"
  shows "distinct (materialized (loadOlderMessages surf roomId result s)) \<and>
         (\<exists>new. materialized (loadOlderMessages surf roomId result s) = new @ materialized s \<and>
                set new \<subseteq> set (map m_eventId (p_messages result)) - set (materialized s))"
proof -
  from insert_new_ids[of surf "new_messages result c" "children c"] obtain new where
    n: "map el_event_id (snd (insert_new surf (new_messages result c) (children c)))
          = new @ map el_event_id (children c)"
       "set new \<subseteq> set (map m_eventId (new_messages result c))"
       "distinct (map m_eventId (new_messages result c)) \<longrightarrow> distinct new" by blast
  have m: "materialized (loadOlderMessages surf roomId result s) =
           map el_event_id (snd (insert_new surf (new_messages result c) (children c)))"
    unfolding uninterrupted_loadOlder[OF inv box sen begun]
    by (simp add: materialized_def set_scrollTop_def split: prod.splits option.splits)
  have ms: "materialized s = map el_event_id (children c)"
    using box by (simp add: materialized_def)
  from n new_messages_ids[of result c] new_messages_distinct[OF page, of c] before m ms
  have "distinct (new @ materialized s)" by auto
  with n new_messages_ids[of result c] m ms show ?thesis
    by (intro conjI exI[of _ new]) auto
qed

text \<open>
  And the scroll offset follows the height: if the call starts with the offset inside the
  scrollable range and every new message renders, then whenever the height after the
  insertion is the height before plus \<open>H\<close>, the offset after it is the offset before plus
  \<open>H\<close>; when the content fills the viewport and the page brings no edit, \<open>H\<close> is the total
  rendered height of the inserted elements.
\<close>

lemma insert_new_no_failure:
  "\<forall>m \<in> set ms. \<not> render_fails surf m \<Longrightarrow> fst (insert_new surf ms els) = None"
proof (induction ms arbitrary: els)
  case Nil
  show ?case by simp
next
  case (Cons m ms)
  then have nf: "\<not> render_fails surf m" and rest: "\<forall>m \<in> set ms. \<not> render_fails surf m"
    by simp_all
  obtain r els' where c: "createMessageElement surf m els = (r, els')"
    by (cases "createMessageElement surf m els")
  with nf have "r \<noteq> Inl e" for e
    by (auto simp: createMessageElement_def split: msg_kind.splits)
  with c Cons.IH[OF rest] show ?case
    by (cases r) (auto split: option.splits)
qed

lemma scrollHeight_scrollTop [simp]: "scrollHeight surf (c\<lparr>scrollTop := v\<rparr>) = scrollHeight surf c"
  by (simp add: scrollHeight_def content_height_def)

lemma set_scrollTop_exact:
  "0 \<le> v \<Longrightarrow> v \<le> scrollHeight surf c - clientHeight c \<Longrightarrow> scrollTop (set_scrollTop surf v c) = v"
  by (simp add: set_scrollTop_def)

lemma set_scrollTop_fields [simp]:
  "clientHeight (set_scrollTop surf v c) = clientHeight c"
  "children (set_scrollTop surf v c) = children c"
  "chrome (set_scrollTop surf v c) = chrome c"
  by (simp_all add: set_scrollTop_def)

lemma insert_new_height:
  "\<forall>m \<in> set ms. \<not> render_fails surf m \<and> m_kind m \<noteq> KEdit \<Longrightarrow>
   (\<Sum>e\<leftarrow>snd (insert_new surf ms els). int (layout surf e))
     = inserted_height surf ms + (\<Sum>e\<leftarrow>els. int (layout surf e))"
proof (induction ms arbitrary: els)
  case Nil
  show ?case by (simp add: inserted_height_def)
next
  case (Cons m ms)
  then have m: "\<not> render_fails surf m" "m_kind m \<noteq> KEdit"
    and rest: "\<forall>m \<in> set ms. \<not> render_fails surf m \<and> m_kind m \<noteq> KEdit" by simp_all
  have ih: "inserted_height surf (m # ms) =
      (case element_of surf m of None \<Rightarrow> 0 | Some el \<Rightarrow> int (layout surf el)) + inserted_height surf ms"
    by (simp add: inserted_height_def)
  from m have c: "createMessageElement surf m els = (Inr (element_of surf m), els)"
    by (cases "m_kind m") (simp_all add: createMessageElement_def element_of_def)
  show ?case
  proof (cases "element_of surf m")
    case None
    with c Cons.IH[OF rest, of els] ih show ?thesis by simp
  next
    case (Some el)
    with c Cons.IH[OF rest, of "el # els"] ih show ?thesis by simp
  qed
qed

lemma inserted_height_nonneg: "0 \<le> inserted_height surf ms"
  by (induction ms) (simp_all add: inserted_height_def split: option.splits)

lemma uninterrupted_scroll_anchor:
  assumes inv: "app_inv s" and box: "box s = Some c" and sen: "sentinel c = Some g"
    and begun: "loadOlderMessages_begin surf roomId s = (Awaiting, s1)"
    and range: "scroll_in_range surf c"
    and rendered: "\<forall>m \<in> set (new_messages result c). \<not> render_fails surf m"
    and after: "box (loadOlderMessages surf roomId result s) = Some c'"
  shows "(\<forall>H. 0 \<le> H \<and> scrollHeight surf c' = scrollHeight surf c + H \<longrightarrow>
             scrollTop c' = scrollTop c + H)
       \<and> (clientHeight c \<le> content_height surf c \<and>
            (\<forall>m \<in> set (new_messages result c). m_kind m \<noteq> KEdit) \<longrightarrow>
             scrollHeight surf c' = scrollHeight surf c + inserted_height surf (new_messages result c)
             \<and> scrollTop c' = scrollTop c + inserted_height surf (new_messages result c))"
proof -
  let ?ms = "new_messages result c"
  obtain els where ins: "insert_new surf ?ms (children c) = (None, els)"
    using insert_new_no_failure[OF rendered, of "children c"] by (metis prod.collapse)
  let ?c1 = "c\<lparr>children := els\<rparr>"
  let ?v = "scrollTop c + (scrollHeight surf ?c1 - scrollHeight surf c)"
  have c': "c' = set_scrollTop surf ?v ?c1"
    using after unfolding uninterrupted_loadOlder[OF inv box sen begun] ins by simp
  then have sh: "scrollHeight surf c' = scrollHeight surf ?c1"
    by (simp add: set_scrollTop_def)
  have law: "scrollTop c' = scrollTop c + H"
    if grew: "0 \<le> H \<and> scrollHeight surf c' = scrollHeight surf c + H" for H
  proof -
    from grew sh have v: "?v = scrollTop c + H" by simp
    have "0 \<le> ?v" using v grew range by (simp add: scroll_in_range_def)
    moreover have "?v \<le> scrollHeight surf ?c1 - clientHeight ?c1"
      using v grew sh range by (simp add: scroll_in_range_def)
    ultimately have "scrollTop (set_scrollTop surf ?v ?c1) = ?v"
      by (rule set_scrollTop_exact)
    with c' v show ?thesis by simp
  qed
  have special: "scrollHeight surf c' = scrollHeight surf c + inserted_height surf ?ms
             \<and> scrollTop c' = scrollTop c + inserted_height surf ?ms"
    if h: "clientHeight c \<le> content_height surf c \<and> (\<forall>m \<in> set ?ms. m_kind m \<noteq> KEdit)"
  proof -
    have pl: "\<forall>m \<in> set ?ms. \<not> render_fails surf m \<and> m_kind m \<noteq> KEdit"
      using rendered h by simp
    from insert_new_height[OF pl, of "children c"] ins
    have "content_height surf ?c1 = content_height surf c + inserted_height surf ?ms"
      by (simp add: content_height_def)
    with h sh inserted_height_nonneg[of surf ?ms]
    have g: "scrollHeight surf c' = scrollHeight surf c + inserted_height surf ?ms"
      by (simp add: scrollHeight_def)
    with law inserted_height_nonneg[of surf ?ms] show ?thesis by blast
  qed
  from law special show ?thesis by blast
qed

subsection \<open>Running the code on room A\<close>

lemmas page_defs =
  openConversation_def loadMessages_begin_def messages_arrive_def loadMessages_resume_def
  loadMessages_loop_def loadMessages_finish_def load_resumes_def loadMessages_continue_def
  append_element_def take_out_def call_createMessageElement_def document_els_def
  set_document_els_def createMessageElement_def next_sentinel_def reflow_def
  scrollToBottom_def set_scrollTop_def scrollHeight_def content_height_def
  observer_callback_def loadOlderMessages_begin_def page_arrives_def
  loadOlderMessages_resume_def loadOlderMessages_loop_def loadOlderMessages_finish_def
  new_messages_def insertion_resumes_def loadOlderMessages_continue_def
  insert_after_sentinel_def addMessageToUI_begin_def live_resumes_def
  addMessageToUI_continue_def text_message_def image_message_def surface0_def el_hello_def
  el_photo_def Let_def

lemma app_roomA_eq:
  "app_roomA = \<lparr>isLoadingOlder = False, canLoadMore = True, appRoomId = Some ''!A'',
                box = Some box_roomA, observers = [''!A''], requests = [], suspended = [],
                inserting = [], rendering = [], fetching = [], loading = []\<rparr>"
  by (simp add: app_roomA_def open_roomA_def app0_def box_roomA_def page_defs)

lemma begin_roomA:
  "loadOlderMessages_begin surface0 ''!A'' app_roomA = (Awaiting, app_inflight)"
  by (simp add: app_inflight_def loadOlderMessages_begin_def app_roomA_eq Let_def)

lemma app_inflight_eq:
  "app_inflight = \<lparr>isLoadingOlder = True, canLoadMore = True, appRoomId = Some ''!A'',
                   box = Some box_roomA, observers = [''!A''], requests = [(''!A'', 10)],
                   suspended = [\<lparr>f_roomId = ''!A'', prevScrollHeight = 121, prevScrollTop = 0\<rparr>],
                   inserting = [], rendering = [], fetching = [], loading = []\<rparr>"
  by (simp add: app_inflight_def app_roomA_eq box_roomA_def page_defs)

lemma app_after_eq:
  "app_after = \<lparr>isLoadingOlder = False, canLoadMore = True, appRoomId = Some ''!A'',
                box = Some box_after, observers = [''!A''], requests = [(''!A'', 10)],
                suspended = [], inserting = [], rendering = [], fetching = [], loading = []\<rparr>"
proof -
  have "app_after = run_insertion surface0 (Suc (Suc (Suc (Suc (Suc 0))))) (page_arrives surface0 page_overlap app_inflight)"
    by (simp add: app_after_def loadOlderMessages_def begin_roomA page_overlap_def)
  then show ?thesis
    by (simp add: app_inflight_eq page_overlap_def box_roomA_def box_after_def page_defs)
qed

lemma app_exhausted_eq:
  "app_exhausted = \<lparr>isLoadingOlder = False, canLoadMore = False, appRoomId = Some ''!A'',
                    box = Some box_roomA, observers = [''!A''], requests = [(''!A'', 10)],
                    suspended = [], inserting = [], rendering = [], fetching = [], loading = []\<rparr>"
  by (simp add: app_exhausted_def app_inflight_eq page_last_def box_roomA_def page_defs)

lemma app_scrolled_eq:
  "app_scrolled = app_inflight\<lparr>box := Some (box_roomA\<lparr>scrollTop := 20\<rparr>)\<rparr>"
  by (simp add: app_scrolled_def app_inflight_eq box_roomA_def page_defs)

lemma app_live_shown_eq:
  "app_live_shown =
     app_inflight\<lparr>box := Some box_live_shown\<rparr>"
  by (simp add: app_live_shown_def app_inflight_eq box_roomA_def box_live_shown_def page_defs)

lemma app_live_pending_eq:
  "app_live_pending = app_inflight\<lparr>rendering := [Inr (Some (el_photo ''$m13''))]\<rparr>"
  by (simp add: app_live_pending_def app_inflight_eq box_roomA_def page_defs)

lemma scroll_race_eq:
  "app_run surface0 events_insert_page app_scrolled = app_after"
  by (simp add: events_insert_page_def app_scrolled_eq app_inflight_eq app_after_eq
      page_overlap_def box_roomA_def box_after_def page_defs)

lemma live_shown_race_eq:
  "app_run surface0 events_insert_page_live app_live_shown =
     app_after\<lparr>box := Some box_live_after\<rparr>"
  by (simp add: events_insert_page_live_def page_overlap_live_def app_live_shown_eq app_inflight_eq app_after_eq
      page_overlap_def box_roomA_def box_after_def box_live_shown_def box_live_after_def page_defs)

lemma live_race_eq:
  "app_run surface0 events_live_race app_live_pending =
     app_after\<lparr>box := Some (box_roomA\<lparr>children :=
                     [el_photo ''$m13'', el_hello ''$m09'', el_hello ''$m10'', el_hello ''$m11'',
                      el_hello ''$m12'', el_photo ''$m13''],
                   scrollTop := 120\<rparr>)\<rparr>"
  by (simp add: events_live_race_def app_live_pending_eq app_inflight_eq app_after_eq
      page_timeline_def box_roomA_def box_after_def page_defs)

subsection \<open>Single flight\<close>

text \<open>
  Claim C6.  Let a call of \<open>loadOlderMessages\<close> have issued its request.  Whatever
  happens on the page before that call goes on (conversations opened and their messages
  rendered, the sentinel seen again, live messages, scrolling, further calls), a second
  call of \<open>loadOlderMessages\<close>, for any room, returns at once and leaves the whole state
  as it is: no request is added to the one of the first call and the flags and the
  suspended first call are untouched, so the first call resumes exactly as it would have
  without the second.  The same holds as long as the first call has not ended: from a
  state in which at most one call is under way, whatever has happened since, a call made
  while some \<open>loadOlderMessages\<close> waits for its page or is in its insertion loop returns
  at once and leaves the state as it is.
\<close>

theorem second_loadOlder_rejected:
  assumes first: "loadOlderMessages_begin surf r1 s = (Awaiting, s1)"
    and between: "\<forall>ev \<in> set evs. \<not> resumes_older ev"
  shows "loadOlderMessages_begin surf r2 (app_run surf evs s1) = (ReturnedAtOnce, app_run surf evs s1)
         \<and> requests (app_run surf evs s1) = requests s @ [(r1, 10)]
         \<and> suspended (app_run surf evs s1) = suspended s1
         \<and> inserting (app_run surf evs s1) = inserting s1
         \<and> page_arrives surf result (snd (loadOlderMessages_begin surf r2 (app_run surf evs s1)))
             = page_arrives surf result (app_run surf evs s1)
         \<and> (app_inv s \<longrightarrow>
              (\<forall>evs'. suspended (app_run surf evs' s1) \<noteq> [] \<or> inserting (app_run surf evs' s1) \<noteq> []
                 \<longrightarrow> loadOlderMessages_begin surf r2 (app_run surf evs' s1)
                       = (ReturnedAtOnce, app_run surf evs' s1)))"
proof -
  from begin_awaiting[OF first] have l: "isLoadingOlder s1" and rq: "requests s1 = requests s @ [(r1, 10)]"
    by simp_all
  from run_busy[OF l between, of surf]
  have p: "pagination (app_run surf evs s1) = pagination s1" .
  with l have l2: "isLoadingOlder (app_run surf evs s1)" by (simp add: pagination_def)
  have rej: "loadOlderMessages_begin surf r2 (app_run surf evs s1) = (ReturnedAtOnce, app_run surf evs s1)"
    using begin_rejected l2 by blast
  have later: "loadOlderMessages_begin surf r2 (app_run surf evs' s1) = (ReturnedAtOnce, app_run surf evs' s1)"
    if i: "app_inv s"
      and pend: "suspended (app_run surf evs' s1) \<noteq> [] \<or> inserting (app_run surf evs' s1) \<noteq> []"
    for evs'
  proof -
    from begin_inv[OF i, of surf r1] first have "app_inv s1" by simp
    then have "app_inv (app_run surf evs' s1)" by (rule app_run_inv)
    from pending_is_loading[OF this pend] show ?thesis using begin_rejected by blast
  qed
  from p rq rej later show ?thesis by (simp add: pagination_def)
qed

text \<open>
  Claim C6, the theorem run on room A.  While the first request is pending, the sentinel
  is seen again, a live message is rendered and the user scrolls; a second call is
  refused and the only request made is the first one.  When the page has arrived and the
  first call is in its insertion loop, with one of its two messages inserted, a call for
  room B is refused as well.
\<close>

theorem second_loadOlder_rejected_witness:
  "loadOlderMessages_begin surface0 ''!A'' app_roomA = (Awaiting, app_inflight) \<and>
   \<not> resumes_older SentinelVisible \<and> \<not> resumes_older (LiveMessage (text_message ''$m13'')) \<and>
   \<not> resumes_older (LiveResumes 0) \<and> \<not> resumes_older (UserScroll 20) \<and>
   loadOlderMessages_begin surface0 ''!A'' (app_run surface0 events_between app_inflight)
     = (ReturnedAtOnce, app_run surface0 events_between app_inflight) \<and>
   requests (app_run surface0 events_between app_inflight) = [(''!A'', 10)] \<and>
   app_inv app_roomA \<and>
   length (inserting (app_run surface0 events_into_loop app_inflight)) = 1 \<and>
   materialized (app_run surface0 events_into_loop app_inflight)
     = [''$m08'', ''$m10'', ''$m11'', ''$m12''] \<and>
   loadOlderMessages_begin surface0 ''!B'' (app_run surface0 events_into_loop app_inflight)
     = (ReturnedAtOnce, app_run surface0 events_into_loop app_inflight)"
proof -
  have b: "\<forall>ev \<in> set events_between. \<not> resumes_older ev"
    by (simp add: events_between_def)
  have r: "requests app_roomA = []" and i: "app_inv app_roomA"
    by (simp_all add: app_roomA_eq app_inv_def)
  have loop: "length (inserting (app_run surface0 events_into_loop app_inflight)) = 1"
    "materialized (app_run surface0 events_into_loop app_inflight)
       = [''$m08'', ''$m10'', ''$m11'', ''$m12'']"
    by (simp_all add: events_into_loop_def app_inflight_eq page_overlap_def box_roomA_def
        materialized_def page_defs)
  then have pend: "suspended (app_run surface0 events_into_loop app_inflight) \<noteq> [] \<or>
                   inserting (app_run surface0 events_into_loop app_inflight) \<noteq> []"
    by auto
  from second_loadOlder_rejected[OF begin_roomA b, of "''!A''"] begin_roomA r
  have one: "loadOlderMessages_begin surface0 ''!A'' (app_run surface0 events_between app_inflight)
     = (ReturnedAtOnce, app_run surface0 events_between app_inflight) \<and>
     requests (app_run surface0 events_between app_inflight) = [(''!A'', 10)]"
    by simp
  from second_loadOlder_rejected[OF begin_roomA b, of "''!B''"] i pend
  have two: "loadOlderMessages_begin surface0 ''!B'' (app_run surface0 events_into_loop app_inflight)
     = (ReturnedAtOnce, app_run surface0 events_into_loop app_inflight)"
    by blast
  from one two begin_roomA i loop show ?thesis by simp
qed

subsection \<open>Duplicates\<close>

text \<open>
  Claim C7, the code run where it departs from the claim.

  Room A shows \<open>$m10\<close>, \<open>$m11\<close>, \<open>$m12\<close> and a \<open>loadOlderMessages\<close> call waits for its
  page.  A live image message \<open>$m13\<close> comes in; \<open>addMessageToUI\<close> has called
  \<open>createMessageElement\<close> and waits for the element.  The page arrives; like every page it
  is made of the whole timeline, which holds \<open>$m13\<close>.  The ids collected from the
  container are those of the three messages shown, so the filter keeps \<open>$m09\<close> and
  \<open>$m13\<close>.  The loop inserts \<open>$m09\<close> and waits for the element of \<open>$m13\<close>; the live
  message's element is appended in the meantime; the loop, which does not look at the
  container again, inserts its own \<open>$m13\<close> and the call ends.  The container, which held
  no id twice before and was given a page that names no event twice, now holds \<open>$m13\<close>
  twice.  (When nothing happens while the call runs, no id is inserted twice, as
  \<open>uninterrupted_no_duplicates\<close> above shows; the last line runs such a call, which
  inserts the two new messages of the page \<open>page_overlap\<close> and leaves out the three shown.)
\<close>

theorem loadOlder_inserts_duplicate:
  "materialized app_live_pending = [''$m10'', ''$m11'', ''$m12''] \<and>
   distinct (materialized app_live_pending) \<and>
   distinct (map m_eventId (p_messages page_timeline)) \<and>
   rendering app_live_pending = [Inr (Some (el_photo ''$m13''))] \<and>
   map m_eventId (new_messages page_timeline box_roomA) = [''$m09'', ''$m13''] \<and>
   materialized (app_run surface0 [PageArrives page_timeline, InsertionResumes, LiveResumes 0]
                   app_live_pending)
     = [''$m09'', ''$m10'', ''$m11'', ''$m12'', ''$m13''] \<and>
   materialized (app_run surface0 events_live_race app_live_pending)
     = [''$m13'', ''$m09'', ''$m10'', ''$m11'', ''$m12'', ''$m13''] \<and>
   \<not> distinct (materialized (app_run surface0 events_live_race app_live_pending)) \<and>
   \<not> isLoadingOlder (app_run surface0 events_live_race app_live_pending) \<and>
   suspended (app_run surface0 events_live_race app_live_pending) = [] \<and>
   inserting (app_run surface0 events_live_race app_live_pending) = [] \<and>
   rendering (app_run surface0 events_live_race app_live_pending) = [] \<and>
   materialized (loadOlderMessages surface0 ''!A'' page_overlap app_roomA)
     = [''$m09'', ''$m08'', ''$m10'', ''$m11'', ''$m12'']"
proof -
  have a: "materialized app_live_pending = [''$m10'', ''$m11'', ''$m12'']"
    "rendering app_live_pending = [Inr (Some (el_photo ''$m13''))]"
    by (simp_all add: app_live_pending_eq app_inflight_eq materialized_def box_roomA_def
        el_hello_def)
  then have a': "distinct (materialized app_live_pending)" by simp
  have b: "distinct (map m_eventId (p_messages page_timeline))"
    "map m_eventId (new_messages page_timeline box_roomA) = [''$m09'', ''$m13'']"
    by (simp_all add: page_timeline_def new_messages_def box_roomA_def text_message_def
        image_message_def el_hello_def)
  have c: "materialized (app_run surface0 [PageArrives page_timeline, InsertionResumes, LiveResumes 0]
                   app_live_pending)
     = [''$m09'', ''$m10'', ''$m11'', ''$m12'', ''$m13'']"
    by (simp add: app_live_pending_eq app_inflight_eq page_timeline_def box_roomA_def
        materialized_def page_defs)
  have d: "materialized (app_run surface0 events_live_race app_live_pending)
     = [''$m13'', ''$m09'', ''$m10'', ''$m11'', ''$m12'', ''$m13'']"
    "\<not> isLoadingOlder (app_run surface0 events_live_race app_live_pending)"
    "suspended (app_run surface0 events_live_race app_live_pending) = []"
    "inserting (app_run surface0 events_live_race app_live_pending) = []"
    "rendering (app_run surface0 events_live_race app_live_pending) = []"
    unfolding live_race_eq
    by (simp_all add: app_after_eq materialized_def box_roomA_def el_hello_def el_photo_def)
  then have d': "\<not> distinct (materialized (app_run surface0 events_live_race app_live_pending))"
    by simp
  have e: "materialized (loadOlderMessages surface0 ''!A'' page_overlap app_roomA)
     = [''$m09'', ''$m08'', ''$m10'', ''$m11'', ''$m12'']"
    using app_after_eq by (simp add: app_after_def materialized_def box_after_def el_hello_def)
  show ?thesis by (intro conjI a a' b c d d' e)
qed

subsection \<open>The scroll anchor\<close>

text \<open>
  Claim C8, the code run where it departs from the claim.

  \<open>loadOlderMessages\<close> reads \<open>scrollTop\<close> and \<open>scrollHeight\<close> when it is called, before it
  awaits the page, and sets the offset, after the insertion, to the offset read then plus
  the growth of the height since then.  Room A shows three messages of 40 pixels in a
  viewport of 100 pixels (height 121) and is scrolled to the top when its sentinel is seen
  and the call is made.

  First, the user scrolls down by 20 pixels while the page is awaited.  Before the
  insertion the offset is 20 and the height 121.  The two new messages of the page,
  together 80 pixels high, are inserted, the height grows by exactly 80 to 201, and the
  offset is set to 80, not to 100 (which the container could hold): what the user was
  looking at has moved by 20 pixels.

  Second, a live message is rendered, instead, while the page is awaited, and the list
  scrolls to the bottom: before the insertion the offset is 61 and the height 161.  The
  same two messages are inserted, the height grows by 80 to 241, and the offset is set to
  120, not to 141.

  (When nothing happens between the call and the end of the insertion, the offset grows
  by what the height grows, as \<open>uninterrupted_scroll_anchor\<close> above shows; in the last
  line it goes from 0 to 80 as the height goes from 121 to 201.)
\<close>

theorem loadOlder_scroll_anchor_lost:
  "box app_roomA = Some box_roomA \<and> scrollTop box_roomA = 0 \<and>
   scrollHeight surface0 box_roomA = 121 \<and>
   app_step surface0 SentinelVisible app_roomA = app_inflight \<and>
   box app_scrolled = Some (box_roomA\<lparr>scrollTop := 20\<rparr>) \<and>
   scroll_in_range surface0 (box_roomA\<lparr>scrollTop := 20\<rparr>) \<and>
   scrollHeight surface0 (box_roomA\<lparr>scrollTop := 20\<rparr>) = 121 \<and>
   new_messages page_overlap (box_roomA\<lparr>scrollTop := 20\<rparr>)
     = [text_message ''$m08'', text_message ''$m09''] \<and>
   inserted_height surface0 [text_message ''$m08'', text_message ''$m09''] = 80 \<and>
   box (app_run surface0 events_insert_page app_scrolled) = Some box_after \<and>
   \<not> isLoadingOlder (app_run surface0 events_insert_page app_scrolled) \<and>
   scrollHeight surface0 box_after = 121 + 80 \<and>
   scrollTop box_after = 80 \<and>
   scrollTop box_after \<noteq> 20 + 80 \<and>
   scroll_in_range surface0 (box_after\<lparr>scrollTop := 20 + 80\<rparr>) \<and>
   box app_live_shown = Some box_live_shown \<and>
   scrollTop box_live_shown = 61 \<and> scrollHeight surface0 box_live_shown = 161 \<and>
   scroll_in_range surface0 box_live_shown \<and>
   new_messages page_overlap_live box_live_shown = [text_message ''$m08'', text_message ''$m09''] \<and>
   box (app_run surface0 events_insert_page_live app_live_shown) = Some box_live_after \<and>
   scrollHeight surface0 box_live_after = 161 + 80 \<and>
   scrollTop box_live_after = 120 \<and>
   scrollTop box_live_after \<noteq> 61 + 80 \<and>
   scroll_in_range surface0 (box_live_after\<lparr>scrollTop := 61 + 80\<rparr>) \<and>
   box (loadOlderMessages surface0 ''!A'' page_overlap app_roomA) = Some box_after"
proof -
  have a: "box app_roomA = Some box_roomA" "scrollTop box_roomA = 0"
    "scrollHeight surface0 box_roomA = 121"
    by (simp_all add: app_roomA_eq box_roomA_def scrollHeight_def content_height_def surface0_def)
  have b: "box app_scrolled = Some (box_roomA\<lparr>scrollTop := 20\<rparr>)"
    "scroll_in_range surface0 (box_roomA\<lparr>scrollTop := 20\<rparr>)"
    "scrollHeight surface0 (box_roomA\<lparr>scrollTop := 20\<rparr>) = 121"
    "new_messages page_overlap (box_roomA\<lparr>scrollTop := 20\<rparr>)
       = [text_message ''$m08'', text_message ''$m09'']"
    by (simp_all add: app_scrolled_eq scroll_in_range_def scrollHeight_def content_height_def
        box_roomA_def surface0_def new_messages_def page_overlap_def text_message_def el_hello_def)
  have c: "inserted_height surface0 [text_message ''$m08'', text_message ''$m09''] = 80"
    by (simp add: inserted_height_def element_of_def createMessageElement_def text_message_def
        surface0_def)
  have d: "box (app_run surface0 events_insert_page app_scrolled) = Some box_after"
    "\<not> isLoadingOlder (app_run surface0 events_insert_page app_scrolled)"
    unfolding scroll_race_eq by (simp_all add: app_after_eq)
  have e: "scrollHeight surface0 box_after = 121 + 80" "scrollTop box_after = 80"
    "scrollTop box_after \<noteq> 20 + 80"
    "scroll_in_range surface0 (box_after\<lparr>scrollTop := 20 + 80\<rparr>)"
    by (simp_all add: box_after_def scroll_in_range_def scrollHeight_def content_height_def
        surface0_def)
  have f: "box app_live_shown = Some box_live_shown"
    "scrollTop box_live_shown = 61" "scrollHeight surface0 box_live_shown = 161"
    "scroll_in_range surface0 box_live_shown"
    "new_messages page_overlap_live box_live_shown = [text_message ''$m08'', text_message ''$m09'']"
    by (simp_all add: app_live_shown_eq box_live_shown_def scroll_in_range_def scrollHeight_def
        content_height_def box_roomA_def surface0_def new_messages_def page_overlap_def
        page_overlap_live_def text_message_def el_hello_def)
  have g: "box (app_run surface0 events_insert_page_live app_live_shown) = Some box_live_after"
    "scrollHeight surface0 box_live_after = 161 + 80"
    "scrollTop box_live_after = 120" "scrollTop box_live_after \<noteq> 61 + 80"
    "scroll_in_range surface0 (box_live_after\<lparr>scrollTop := 61 + 80\<rparr>)"
    unfolding live_shown_race_eq
    by (simp_all add: box_live_after_def box_after_def scroll_in_range_def scrollHeight_def
        content_height_def surface0_def)
  have h: "box (loadOlderMessages surface0 ''!A'' page_overlap app_roomA) = Some box_after"
    using app_after_eq by (simp add: app_after_def)
  have s: "app_step surface0 SentinelVisible app_roomA = app_inflight"
    using begin_roomA by (simp add: app_roomA_eq observer_callback_def)
  show ?thesis by (intro conjI a b c d e f g h s)
qed

subsection \<open>The end of history is global\<close>

text \<open>
  Claim C10.  The page has one \<open>isLoadingOlder\<close> and one \<open>canLoadMore\<close> for all rooms,
  and neither \<open>openConversation\<close> nor any part of \<open>loadMessages\<close> changes them.  Once
  \<open>canLoadMore\<close> is false, it stays false through every later event (opening other
  conversations included), no pagination request is issued any more, and every
  \<open>loadOlderMessages\<close> call, for whichever room, returns at once.
\<close>

theorem exhausted_pagination_is_global_and_sticky:
  assumes "app_inv s" and "\<not> canLoadMore s"
  shows "\<not> canLoadMore (app_run surf evs s) \<and> requests (app_run surf evs s) = requests s \<and>
         loadOlderMessages_begin surf roomId (app_run surf evs s) = (ReturnedAtOnce, app_run surf evs s) \<and>
         canLoadMore (openConversation roomId s) = canLoadMore s \<and>
         isLoadingOlder (openConversation roomId s) = isLoadingOlder s \<and>
         canLoadMore (messages_arrive surf n messages s) = canLoadMore s \<and>
         isLoadingOlder (messages_arrive surf n messages s) = isLoadingOlder s \<and>
         canLoadMore (load_resumes surf n s) = canLoadMore s \<and>
         isLoadingOlder (load_resumes surf n s) = isLoadingOlder s"
proof -
  from assms have e: "suspended s = []" by (auto simp: app_inv_def)
  have f: "canLoadMore s' = canLoadMore s \<and> isLoadingOlder s' = isLoadingOlder s"
    if "pagination s' = pagination s" for s'
    using that by (simp add: pagination_def)
  from run_exhausted[OF assms(2) e, of surf evs] begin_rejected
    f[OF openConversation_pagination(1)] f[OF messages_arrive_pagination]
    f[OF load_resumes_pagination]
  show ?thesis by blast
qed

text \<open>
  Claim C10, the theorem run after room A's history has been reported exhausted: room B
  is opened and its message rendered, its sentinel is seen and \<open>loadOlderMessages\<close> is
  called for it; the only request ever made remains the one for room A.
\<close>

theorem exhausted_pagination_is_global_and_sticky_witness:
  "app_inv app_exhausted \<and> \<not> canLoadMore app_exhausted \<and>
   requests (app_run surface0 events_later app_exhausted) = [(''!A'', 10)] \<and>
   appRoomId (app_run surface0 events_later app_exhausted) = Some ''!B'' \<and>
   materialized (app_run surface0 events_later app_exhausted) = [''$b1''] \<and>
   observers (app_run surface0 events_later app_exhausted) = [''!B''] \<and>
   \<not> canLoadMore (app_run surface0 events_later app_exhausted) \<and>
   loadOlderMessages_begin surface0 ''!B'' (app_run surface0 events_later app_exhausted)
     = (ReturnedAtOnce, app_run surface0 events_later app_exhausted)"
proof -
  have i: "app_inv app_exhausted" "\<not> canLoadMore app_exhausted"
    by (simp_all add: app_exhausted_eq app_inv_def)
  have r: "requests app_exhausted = [(''!A'', 10)]" by (simp add: app_exhausted_eq)
  have o: "appRoomId (app_run surface0 events_later app_exhausted) = Some ''!B''"
    "materialized (app_run surface0 events_later app_exhausted) = [''$b1'']"
    "observers (app_run surface0 events_later app_exhausted) = [''!B'']"
    by (simp_all add: events_later_def app_exhausted_eq box_roomA_def materialized_def page_defs)
  from exhausted_pagination_is_global_and_sticky[OF i, of surface0 events_later "''!B''"] i r o
  show ?thesis by simp
qed

section \<open>Properties of media resolution\<close>

lemma parse_mxc1: "parseMxc (Some mxc1) = Some (js ''hs'', js ''abc'')"
  by (simp add: parseMxc_def mxc1_def slash_def js_def Let_def)

lemma parse_mxc_surrogate: "parseMxc (Some mxc_surrogate) = Some (js ''hs'', [0xD800])"
  by (simp add: parseMxc_def mxc_surrogate_def slash_def js_def Let_def)

text \<open>
  Claim C2, as the code has it, for a plaintext locator that parses.  \<open>getMediaUrl\<close>, the
  resolution the renderer uses, makes one attempt, on the URL the protocol client builds
  for the locator, and yields \<open>null\<close> when that attempt fails; it tries no legacy variant.
  The image case of \<open>formatMessageContent\<close> attempts its primary URL first and, whenever
  that fails, the legacy r0 download URL of the same media; when that fails too it yields
  the fixed notice "Image unavailable", which carries no locator.
  \<open>resolveMxcDownloadUrl\<close> requests the v3 download URL and nothing else; it returns the
  v3 URL when the answer is OK, and the r0 URL, without requesting it, when the request
  throws.  (The last two build their URLs with \<open>encodeURIComponent\<close>; when that throws,
  on the server name or on the media id, they reject with its error before any request is
  made.)
\<close>

theorem plaintext_media_resolution:
  assumes parsed: "parseMxc (Some u) = Some (serverName, mediaId)" and nonempty: "u \<noteq> []"
  shows "(\<forall>h. mxcToHttp env u thumbnail = Some h \<and> h \<noteq> [] \<longrightarrow>
            getMediaUrl env (Some u) None thumbnail log =
              (if fetch env h = FetchStatus True then Blob h else NoHandle, log @ [Fetched h]))
       \<and> (\<forall>es em. encodeURIComponent env serverName = Inr es \<and>
                   encodeURIComponent env mediaId = Inr em \<longrightarrow>
            formatMessageContent_image env (Some u) None log =
              (if fetch env (image_v3Download env u) = FetchStatus True
               then (Inr (ImageShown (image_v3Download env u)),
                     log @ [Fetched (image_v3Download env u)])
               else if fetch env (r0_url env es em) = FetchStatus True
               then (Inr (ImageShown (r0_url env es em)),
                     log @ [Fetched (image_v3Download env u), Fetched (r0_url env es em)])
               else (Inr ImageUnavailable,
                     log @ [Fetched (image_v3Download env u), Fetched (r0_url env es em)]))
            \<and> snd (resolveMxcDownloadUrl env (Some u) log) = log @ [Fetched (v3_url env es em)]
            \<and> (fetch env (v3_url env es em) = FetchStatus True \<longrightarrow>
                 fst (resolveMxcDownloadUrl env (Some u) log) = Inr (Url (v3_url env es em)))
            \<and> (fetch env (v3_url env es em) = FetchThrows \<longrightarrow>
                 fst (resolveMxcDownloadUrl env (Some u) log) = Inr (Url (r0_url env es em))))
       \<and> (\<forall>e. encode_parts env serverName mediaId = Inl e \<longrightarrow>
            formatMessageContent_image env (Some u) None log = (Inl e, log)
            \<and> resolveMxcDownloadUrl env (Some u) log = (Inl e, log))"
proof (intro conjI allI impI)
  fix h assume "mxcToHttp env u thumbnail = Some h \<and> h \<noteq> []"
  with nonempty show "getMediaUrl env (Some u) None thumbnail log =
      (if fetch env h = FetchStatus True then Blob h else NoHandle, log @ [Fetched h])"
    by (cases "fetch env h") (auto simp: getMediaUrl_def)
next
  fix es em
  assume enc: "encodeURIComponent env serverName = Inr es \<and> encodeURIComponent env mediaId = Inr em"
  then have parts: "encode_parts env serverName mediaId = Inr (es, em)"
    by (simp add: encode_parts_def)
  from parsed nonempty parts show "formatMessageContent_image env (Some u) None log =
              (if fetch env (image_v3Download env u) = FetchStatus True
               then (Inr (ImageShown (image_v3Download env u)),
                     log @ [Fetched (image_v3Download env u)])
               else if fetch env (r0_url env es em) = FetchStatus True
               then (Inr (ImageShown (r0_url env es em)),
                     log @ [Fetched (image_v3Download env u), Fetched (r0_url env es em)])
               else (Inr ImageUnavailable,
                     log @ [Fetched (image_v3Download env u), Fetched (r0_url env es em)]))"
    by (simp add: formatMessageContent_image_def fetchToBlob_def Let_def)
  from parsed parts show "snd (resolveMxcDownloadUrl env (Some u) log) = log @ [Fetched (v3_url env es em)]"
    by (simp add: resolveMxcDownloadUrl_def Let_def split: fetch_outcome.splits bool.splits)
  {
    assume "fetch env (v3_url env es em) = FetchStatus True"
    with parsed parts show "fst (resolveMxcDownloadUrl env (Some u) log) = Inr (Url (v3_url env es em))"
      by (simp add: resolveMxcDownloadUrl_def Let_def)
  }
  {
    assume "fetch env (v3_url env es em) = FetchThrows"
    with parsed parts show "fst (resolveMxcDownloadUrl env (Some u) log) = Inr (Url (r0_url env es em))"
      by (simp add: resolveMxcDownloadUrl_def Let_def)
  }
next
  fix e assume "encode_parts env serverName mediaId = Inl e"
  with parsed nonempty show "formatMessageContent_image env (Some u) None log = (Inl e, log)"
    and "resolveMxcDownloadUrl env (Some u) log = (Inl e, log)"
    by (simp_all add: formatMessageContent_image_def resolveMxcDownloadUrl_def)
qed

text \<open>
  Claim C2, the theorem run on the locator \<open>mxc://hs/abc\<close>: on a homeserver that serves
  the r0 endpoint only, on one that answers every request, and on one that rejects every
  request; and on a locator whose media id cannot be encoded.
\<close>

theorem plaintext_media_resolution_witness:
  "parseMxc (Some mxc1) = Some (js ''hs'', js ''abc'') \<and> mxc1 \<noteq> [] \<and>
   encodeURIComponent media_env_r0_only (js ''hs'') = Inr (js ''hs'') \<and>
   encodeURIComponent media_env_r0_only (js ''abc'') = Inr (js ''abc'') \<and>
   mxcToHttp media_env_r0_only mxc1 None = Some (js ''https://hs/_matrix/client/v1/media/download/hs/abc'') \<and>
   getMediaUrl media_env_r0_only (Some mxc1) None None [] =
     (NoHandle, [Fetched (js ''https://hs/_matrix/client/v1/media/download/hs/abc'')]) \<and>
   formatMessageContent_image media_env_r0_only (Some mxc1) None [] =
     (Inr (ImageShown (js ''https://hs/_matrix/media/r0/download/hs/abc'')),
      [Fetched (js ''https://hs/_matrix/client/v1/media/thumbnail/hs/abc''),
       Fetched (js ''https://hs/_matrix/media/r0/download/hs/abc'')]) \<and>
   fetch media_env_up (v3_url media_env_up (js ''hs'') (js ''abc'')) = FetchStatus True \<and>
   resolveMxcDownloadUrl media_env_up (Some mxc1) [] =
     (Inr (Url (js ''https://hs/_matrix/media/v3/download/hs/abc?allow_redirect=true'')),
      [Fetched (js ''https://hs/_matrix/media/v3/download/hs/abc?allow_redirect=true'')]) \<and>
   fetch media_env_down (v3_url media_env_down (js ''hs'') (js ''abc'')) = FetchThrows \<and>
   fst (resolveMxcDownloadUrl media_env_down (Some mxc1) []) =
     Inr (Url (js ''https://hs/_matrix/media/r0/download/hs/abc'')) \<and>
   parseMxc (Some mxc_surrogate) = Some (js ''hs'', [0xD800]) \<and> mxc_surrogate \<noteq> [] \<and>
   encode_parts media_env_up (js ''hs'') [0xD800] = Inl uri_error \<and>
   resolveMxcDownloadUrl media_env_up (Some mxc_surrogate) [] = (Inl uri_error, []) \<and>
   formatMessageContent_image media_env_up (Some mxc_surrogate) None [] = (Inl uri_error, [])"
proof -
  have n: "mxc1 \<noteq> []" "mxc_surrogate \<noteq> []" by (simp_all add: mxc1_def mxc_surrogate_def js_def)
  have enc: "encodeURIComponent media_env_r0_only (js ''hs'') = Inr (js ''hs'')"
    "encodeURIComponent media_env_r0_only (js ''abc'') = Inr (js ''abc'')"
    by (simp_all add: media_env_r0_only_def media_env_down_def encode_plain_def js_def)
  have enc_up: "encodeURIComponent media_env_up (js ''hs'') = Inr (js ''hs'')"
    "encodeURIComponent media_env_up (js ''abc'') = Inr (js ''abc'')"
    by (simp_all add: media_env_up_def media_env_down_def encode_plain_def js_def)
  have enc_down: "encodeURIComponent media_env_down (js ''hs'') = Inr (js ''hs'')"
    "encodeURIComponent media_env_down (js ''abc'') = Inr (js ''abc'')"
    by (simp_all add: media_env_down_def encode_plain_def js_def)
  have enc_fail: "encode_parts media_env_up (js ''hs'') [0xD800] = Inl uri_error"
    by (simp add: media_env_up_def media_env_down_def encode_plain_def encode_parts_def js_def)
  have h: "mxcToHttp media_env_r0_only mxc1 None = Some (js ''https://hs/_matrix/client/v1/media/download/hs/abc'')"
    by (simp add: mxcToHttp_def mxc_regex_matches_def line_terminator_def slash_def
        media_env_r0_only_def media_env_down_def sdk_url_def mxc1_def js_def Let_def)
  have hne: "js ''https://hs/_matrix/client/v1/media/download/hs/abc'' \<noteq> []"
    by (simp add: js_def)
  have urls:
    "image_v3Download media_env_r0_only mxc1 = js ''https://hs/_matrix/client/v1/media/thumbnail/hs/abc''"
    "r0_url media_env_r0_only (js ''hs'') (js ''abc'') = js ''https://hs/_matrix/media/r0/download/hs/abc''"
    "v3_url media_env_up (js ''hs'') (js ''abc'') = js ''https://hs/_matrix/media/v3/download/hs/abc?allow_redirect=true''"
    "v3_url media_env_down (js ''hs'') (js ''abc'') = js ''https://hs/_matrix/media/v3/download/hs/abc?allow_redirect=true''"
    "r0_url media_env_down (js ''hs'') (js ''abc'') = js ''https://hs/_matrix/media/r0/download/hs/abc''"
    by (simp_all add: image_v3Download_def r0_url_def v3_url_def strip_slash_def slash_def
        media_env_r0_only_def media_env_up_def media_env_down_def sdk_url_def mxc1_def js_def)
  have f: "fetch media_env_r0_only (js ''https://hs/_matrix/client/v1/media/download/hs/abc'') = FetchStatus False"
    "fetch media_env_r0_only (js ''https://hs/_matrix/client/v1/media/thumbnail/hs/abc'') = FetchStatus False"
    "fetch media_env_r0_only (js ''https://hs/_matrix/media/r0/download/hs/abc'') = FetchStatus True"
    by (simp_all add: media_env_r0_only_def media_env_down_def js_def)
  have f_up: "fetch media_env_up (v3_url media_env_up (js ''hs'') (js ''abc'')) = FetchStatus True"
    and f_down: "fetch media_env_down (v3_url media_env_down (js ''hs'') (js ''abc'')) = FetchThrows"
    by (simp_all add: media_env_up_def media_env_down_def)
  note r0_only = plaintext_media_resolution[OF parse_mxc1 n(1), of media_env_r0_only None "[]"]
  note up = plaintext_media_resolution[OF parse_mxc1 n(1), of media_env_up None "[]"]
  note down = plaintext_media_resolution[OF parse_mxc1 n(1), of media_env_down None "[]"]
  note bad = plaintext_media_resolution[OF parse_mxc_surrogate n(2), of media_env_up None "[]"]
  from r0_only[THEN conjunct1, rule_format, OF conjI[OF h hne]] f
  have g: "getMediaUrl media_env_r0_only (Some mxc1) None None [] =
     (NoHandle, [Fetched (js ''https://hs/_matrix/client/v1/media/download/hs/abc'')])"
    by simp
  from r0_only[THEN conjunct2, THEN conjunct1, rule_format, OF conjI[OF enc]]
  have i: "formatMessageContent_image media_env_r0_only (Some mxc1) None [] =
     (Inr (ImageShown (js ''https://hs/_matrix/media/r0/download/hs/abc'')),
      [Fetched (js ''https://hs/_matrix/client/v1/media/thumbnail/hs/abc''),
       Fetched (js ''https://hs/_matrix/media/r0/download/hs/abc'')])"
    by (simp add: urls f)
  from up[THEN conjunct2, THEN conjunct1, rule_format, OF conjI[OF enc_up]] f_up
  have r_up: "resolveMxcDownloadUrl media_env_up (Some mxc1) [] =
     (Inr (Url (js ''https://hs/_matrix/media/v3/download/hs/abc?allow_redirect=true'')),
      [Fetched (js ''https://hs/_matrix/media/v3/download/hs/abc?allow_redirect=true'')])"
    by (simp add: urls prod_eq_iff)
  from down[THEN conjunct2, THEN conjunct1, rule_format, OF conjI[OF enc_down]] f_down
  have r_down: "fst (resolveMxcDownloadUrl media_env_down (Some mxc1) []) =
     Inr (Url (js ''https://hs/_matrix/media/r0/download/hs/abc''))"
    by (simp add: urls)
  from bad[THEN conjunct2, THEN conjunct2, rule_format, OF enc_fail]
  have r_bad: "resolveMxcDownloadUrl media_env_up (Some mxc_surrogate) [] = (Inl uri_error, [])"
    "formatMessageContent_image media_env_up (Some mxc_surrogate) None [] = (Inl uri_error, [])"
    by simp_all
  show ?thesis
    by (intro conjI parse_mxc1 parse_mxc_surrogate n enc h g i f_up r_up f_down r_down enc_fail r_bad)
qed

text \<open>
  Claim C2 as written fails: when every request is rejected, \<open>getMediaUrl\<close> has made a
  single attempt and returns \<open>null\<close>, and \<open>resolveMxcDownloadUrl\<close> has requested the v3
  URL only and returns the r0 URL; neither attempts the legacy variant, and neither
  returns a failure that carries the attempted locators.
\<close>

theorem plaintext_resolution_makes_one_attempt:
  "getMediaUrl media_env_down (Some mxc1) None None [] =
     (NoHandle, [Fetched (js ''https://hs/_matrix/client/v1/media/download/hs/abc'')]) \<and>
   resolveMxcDownloadUrl media_env_down (Some mxc1) [] =
     (Inr (Url (js ''https://hs/_matrix/media/r0/download/hs/abc'')),
      [Fetched (js ''https://hs/_matrix/media/v3/download/hs/abc?allow_redirect=true'')])"
  by (simp add: getMediaUrl_def resolveMxcDownloadUrl_def mxcToHttp_def mxc_regex_matches_def
      line_terminator_def slash_def parseMxc_def encode_parts_def encode_plain_def
      media_env_down_def mxc1_def sdk_url_def v3_url_def r0_url_def strip_slash_def js_def Let_def)
end
